theory Spec2Isabelle
  imports Main "HOL-Library.Word"
begin

section \<open>The Python binding of Brotli: output buffer and stream drivers\<close>

text \<open>
  A shallow embedding of \<^verbatim>\<open>python/_brotli.c\<close>: the blocks output buffer
  (\<^verbatim>\<open>BlocksOutputBuffer_*\<close>), the argument convertors, the two stream drivers
  (\<^verbatim>\<open>compress_stream\<close>, \<^verbatim>\<open>decompress_stream\<close>), the methods of
  \<^verbatim>\<open>Compressor\<close> and \<^verbatim>\<open>Decompressor\<close> and the function
  \<^verbatim>\<open>decompress\<close>.

  Conventions of the embedding.
  \<^item> A C function that writes through pointers takes the pointed-to values and returns
    the new ones.
  \<^item> The interpreter state a function touches is the record \<open>world\<close>: the outcomes of
    the allocations still to come, the error indicator of the interpreter, and the list of
    the calls made so far to the buffer and to the engine.
  \<^item> What C leaves undefined (a NULL dereference, a copy that leaves its buffer, an
    overflowing signed addition, an engine that writes more than its window, an exception
    raised by a thread that has released the interpreter lock) is the result
    \<open>Undefined\<close>.
  \<^item> \<^verbatim>\<open>Py_ssize_t\<close> and \<^verbatim>\<open>size_t\<close> are 64 bits wide; their values are
    \<open>int\<close> and \<open>nat\<close>, and the conversions of mixed arithmetic are written out.
\<close>

subsection \<open>The interpreter: errors, allocation, calls\<close>

type_synonym byte = "8 word"

datatype exc = MemoryError | SystemError | TypeError | BrotliError

datatype 'a res = Ret 'a | Undefined

datatype BrotliEncoderOperation =
  BROTLI_OPERATION_PROCESS | BROTLI_OPERATION_FLUSH | BROTLI_OPERATION_FINISH

datatype BrotliDecoderResult =
  BROTLI_DECODER_RESULT_ERROR | BROTLI_DECODER_RESULT_SUCCESS
| BROTLI_DECODER_RESULT_NEEDS_MORE_INPUT | BROTLI_DECODER_RESULT_NEEDS_MORE_OUTPUT

datatype BrotliEncoderParameter =
  BROTLI_PARAM_MODE | BROTLI_PARAM_QUALITY | BROTLI_PARAM_LGWIN | BROTLI_PARAM_LGBLOCK

text \<open>
  One allocation request either fails or yields memory whose bytes are not initialised:
  \<open>Memory g\<close> yields the bytes \<open>g 0, g 1, ...\<close>.
\<close>

datatype alloc = NoMemory | Memory "nat \<Rightarrow> byte"

text \<open>The calls a driver makes to the buffer and to the engine, with what they returned
  (for \<^verbatim>\<open>Grow\<close> the return code and the new \<open>avail_out\<close>, for
  \<^verbatim>\<open>Finish\<close> its argument \<open>avail_out\<close> and whether it returned an object, for a step
  its verdict and the \<open>available_in\<close> and \<open>available_out\<close> it left).\<close>

datatype call =
  Call_InitAndGrow int
| Call_Grow int nat
| Call_Finish nat bool
| Call_CleanUp
| Call_EncoderCreateInstance bool
| Call_EncoderDestroyInstance
| Call_EncoderSetParameter BrotliEncoderParameter int
| Call_EncoderCompressStream BrotliEncoderOperation bool nat nat
| Call_EncoderHasMoreOutput bool
| Call_EncoderIsFinished bool
| Call_DecoderCreateInstance bool
| Call_DecoderDestroyInstance
| Call_DecoderDecompressStream BrotliDecoderResult nat nat
| Call_DecoderIsFinished bool

record world =
  heap :: "alloc list"
  err :: "(exc \<times> string) option"
  calls :: "call list"

definition PyErr_SetString :: "exc \<Rightarrow> string \<Rightarrow> world \<Rightarrow> world" where
  "PyErr_SetString e msg w = w\<lparr>err := Some (e, msg)\<rparr>"

definition PyErr_NoMemory :: "world \<Rightarrow> world" where
  "PyErr_NoMemory w = w\<lparr>err := Some (MemoryError, [])\<rparr>"

definition called :: "call \<Rightarrow> world \<Rightarrow> world" where
  "called c w = w\<lparr>calls := calls w @ [c]\<rparr>"

text \<open>The next allocation outcome; once the list is used up every allocation succeeds.\<close>

definition next_alloc :: "world \<Rightarrow> alloc \<times> world" where
  "next_alloc w =
     (case heap w of
        [] \<Rightarrow> (Memory (\<lambda>_. 0), w)
      | a # rest \<Rightarrow> (a, w\<lparr>heap := rest\<rparr>))"

definition fresh :: "(nat \<Rightarrow> byte) \<Rightarrow> nat \<Rightarrow> byte list" where
  "fresh g n = map g [0..<n]"

text \<open>
  \<^verbatim>\<open>PyBytes_FromStringAndSize(NULL, len)\<close>: a bytes object of \<open>len\<close> bytes that
  are not initialised, or NULL with an exception set (SystemError for a negative size).
\<close>

definition PyBytes_FromStringAndSize :: "int \<Rightarrow> world \<Rightarrow> byte list option \<times> world" where
  "PyBytes_FromStringAndSize len w =
     (if len < 0 then
        (None, PyErr_SetString SystemError ''Negative size passed to PyBytes_FromStringAndSize'' w)
      else
        (case next_alloc w of
           (NoMemory, w') \<Rightarrow> (None, PyErr_NoMemory w')
         | (Memory g, w') \<Rightarrow> (Some (fresh g (nat len)), w')))"

text \<open>\<^verbatim>\<open>PyList_New(1)\<close>: whether the list could be allocated.\<close>

definition PyList_New :: "world \<Rightarrow> bool \<times> world" where
  "PyList_New w =
     (case next_alloc w of
        (NoMemory, w') \<Rightarrow> (False, PyErr_NoMemory w')
      | (Memory g, w') \<Rightarrow> (True, w'))"

text \<open>\<^verbatim>\<open>PyList_Append(list, b)\<close>: 0, or -1 when the list cannot be resized.\<close>

definition PyList_Append :: "'a list \<Rightarrow> 'a \<Rightarrow> world \<Rightarrow> (int \<times> 'a list) \<times> world" where
  "PyList_Append xs b w =
     (case next_alloc w of
        (NoMemory, w') \<Rightarrow> ((-1, xs), PyErr_NoMemory w')
      | (Memory g, w') \<Rightarrow> ((0, xs @ [b]), w'))"

subsection \<open>BlocksOutputBuffer\<close>

text \<open>
  The field \<^verbatim>\<open>list\<close> is \<open>blocks\<close> here: \<open>None\<close> is the NULL pointer, \<open>Some bs\<close> a
  list object holding the bytes objects \<open>bs\<close>. A pointer into a block
  (\<^verbatim>\<open>next_out\<close>) is the index of the block in the list and the offset in it.
\<close>

record BlocksOutputBuffer =
  blocks :: "byte list list option"
  allocated :: int

type_synonym ptr = "nat \<times> nat"

definition KB :: int where "KB = 1024"
definition MB :: int where "MB = 1024 * 1024"

definition BUFFER_BLOCK_SIZE :: "int list" where
  "BUFFER_BLOCK_SIZE =
     [32*KB, 64*KB, 256*KB, 1*MB, 4*MB, 8*MB, 16*MB, 16*MB,
      32*MB, 32*MB, 32*MB, 32*MB, 64*MB, 64*MB, 128*MB, 128*MB,
      256*MB]"

definition PY_SSIZE_T_MAX :: int where "PY_SSIZE_T_MAX = 2 ^ 63 - 1"

text \<open>The value of a \<^verbatim>\<open>size_t\<close> converted to \<^verbatim>\<open>Py_ssize_t\<close>.\<close>

definition to_ssize_t :: "int \<Rightarrow> int" where
  "to_ssize_t x = (if x mod 2 ^ 64 \<ge> 2 ^ 63 then x mod 2 ^ 64 - 2 ^ 64 else x mod 2 ^ 64)"

definition BlocksOutputBuffer_InitAndGrow ::
  "BlocksOutputBuffer \<Rightarrow> nat \<Rightarrow> ptr \<Rightarrow> world \<Rightarrow> (int \<times> BlocksOutputBuffer \<times> nat \<times> ptr) \<times> world" where
  "BlocksOutputBuffer_InitAndGrow buffer avail_out next_out w =
     (let block_size = BUFFER_BLOCK_SIZE ! 0 in
      case PyBytes_FromStringAndSize block_size w of
        (None, w1) \<Rightarrow>
          ((-1, buffer\<lparr>blocks := None\<rparr>, avail_out, next_out), called (Call_InitAndGrow (-1)) w1)
      | (Some b, w1) \<Rightarrow>
          (case PyList_New w1 of
             (False, w2) \<Rightarrow>
               ((-1, buffer\<lparr>blocks := None\<rparr>, avail_out, next_out), called (Call_InitAndGrow (-1)) w2)
           | (True, w2) \<Rightarrow>
               ((0, buffer\<lparr>blocks := Some [b], allocated := block_size\<rparr>, nat block_size, (0, 0)),
                called (Call_InitAndGrow 0) w2)))"

definition BlocksOutputBuffer_Grow ::
  "BlocksOutputBuffer \<Rightarrow> nat \<Rightarrow> ptr \<Rightarrow> world \<Rightarrow> (int \<times> BlocksOutputBuffer \<times> nat \<times> ptr) res \<times> world" where
  "BlocksOutputBuffer_Grow buffer avail_out next_out w =
     (case blocks buffer of
        None \<Rightarrow> (Undefined, w)
      | Some bs \<Rightarrow>
          (let list_len = int (length bs);
               block_size =
                 (if list_len < int (length BUFFER_BLOCK_SIZE)
                  then BUFFER_BLOCK_SIZE ! nat list_len
                  else BUFFER_BLOCK_SIZE ! (length BUFFER_BLOCK_SIZE - 1)) in
           case PyBytes_FromStringAndSize block_size w of
             (None, w1) \<Rightarrow>
               (Ret (-1, buffer\<lparr>blocks := None\<rparr>, avail_out, next_out),
                called (Call_Grow (-1) avail_out)
                  (PyErr_SetString MemoryError ''Unable to allocate output buffer.'' w1))
           | (Some b, w1) \<Rightarrow>
               (case PyList_Append bs b w1 of
                  ((rc, bs'), w2) \<Rightarrow>
                    if rc < 0 then
                      (Ret (-1, buffer\<lparr>blocks := None\<rparr>, avail_out, next_out),
                       called (Call_Grow (-1) avail_out) w2)
                    else if allocated buffer + block_size > PY_SSIZE_T_MAX then (Undefined, w2)
                    else
                      (Ret (0, buffer\<lparr>blocks := Some bs', allocated := allocated buffer + block_size\<rparr>,
                            nat block_size, (nat list_len, 0)),
                       called (Call_Grow 0 (nat block_size)) w2))))"

text \<open>
  \<^verbatim>\<open>memcpy(dst + offset, src, n)\<close>; undefined when it reads past \<open>src\<close> or writes
  past \<open>dst\<close>.
\<close>

definition memcpy :: "byte list \<Rightarrow> nat \<Rightarrow> byte list \<Rightarrow> nat \<Rightarrow> byte list res" where
  "memcpy dst offset src n =
     (if n \<le> length src \<and> offset + n \<le> length dst
      then Ret (take offset dst @ take n src @ drop (offset + n) dst)
      else Undefined)"

text \<open>
  The copy loop of \<^verbatim>\<open>BlocksOutputBuffer_Finish\<close> on a list that is not empty: every
  block but the last in full, the last one without its \<open>avail_out\<close> unused bytes. The
  length of the last copy is computed in \<^verbatim>\<open>size_t\<close>.
\<close>

fun copy_blocks :: "byte list \<Rightarrow> nat \<Rightarrow> byte list list \<Rightarrow> nat \<Rightarrow> byte list res" where
  "copy_blocks result offset [] avail_out = Undefined"
| "copy_blocks result offset [block] avail_out =
     memcpy result offset block (nat ((int (length block) - int avail_out) mod 2 ^ 64))"
| "copy_blocks result offset (block # rest) avail_out =
     (case memcpy result offset block (length block) of
        Undefined \<Rightarrow> Undefined
      | Ret result' \<Rightarrow> copy_blocks result' (offset + length block) rest avail_out)"

definition BlocksOutputBuffer_Finish ::
  "BlocksOutputBuffer \<Rightarrow> nat \<Rightarrow> world \<Rightarrow> (byte list option \<times> BlocksOutputBuffer) res \<times> world" where
  "BlocksOutputBuffer_Finish buffer avail_out w =
     (case PyBytes_FromStringAndSize (to_ssize_t (allocated buffer - int avail_out)) w of
        (None, w1) \<Rightarrow>
          (Ret (None, buffer\<lparr>blocks := None\<rparr>),
           called (Call_Finish avail_out False)
             (PyErr_SetString MemoryError ''Unable to allocate output buffer.'' w1))
      | (Some result, w1) \<Rightarrow>
          (case blocks buffer of
             None \<Rightarrow> (Undefined, w1)
           | Some bs \<Rightarrow>
               if length bs > 0 then
                 (case copy_blocks result 0 bs avail_out of
                    Undefined \<Rightarrow> (Undefined, w1)
                  | Ret result' \<Rightarrow>
                      (Ret (Some result', buffer\<lparr>blocks := None\<rparr>), called (Call_Finish avail_out True) w1))
               else
                 (Ret (Some result, buffer\<lparr>blocks := None\<rparr>), called (Call_Finish avail_out True) w1)))"

text \<open>
  \<^verbatim>\<open>BlocksOutputBuffer_CleanUp\<close> drops the reference to the list and leaves the
  pointer in the structure as it is.
\<close>

definition BlocksOutputBuffer_CleanUp :: "BlocksOutputBuffer \<Rightarrow> world \<Rightarrow> world" where
  "BlocksOutputBuffer_CleanUp buffer w = called Call_CleanUp w"

text \<open>
  What an engine does to its output window: it stores \<open>data\<close> at \<open>next_out\<close>, advances
  \<open>next_out\<close> and lowers \<open>avail_out\<close> by the number of bytes stored.
\<close>

definition write_out ::
  "byte list \<Rightarrow> BlocksOutputBuffer \<Rightarrow> nat \<Rightarrow> ptr \<Rightarrow> (BlocksOutputBuffer \<times> nat \<times> ptr) res" where
  "write_out data buffer avail_out next_out =
     (case blocks buffer of
        None \<Rightarrow> Undefined
      | Some bs \<Rightarrow>
          (let i = fst next_out; off = snd next_out in
           if length data \<le> avail_out \<and> i < length bs \<and> off + length data \<le> length (bs ! i)
           then Ret (buffer\<lparr>blocks := Some (bs[i := take off (bs ! i) @ data @ drop (off + length data) (bs ! i)])\<rparr>,
                     avail_out - length data, (i, off + length data))
           else Undefined))"

text \<open>
  The states of a buffer and its window that a driver can reach: after a successful
  \<^verbatim>\<open>InitAndGrow\<close>, after the engine has written into the window, and after a
  successful \<^verbatim>\<open>Grow\<close> called with \<open>avail_out = 0\<close>.
\<close>

inductive reachable :: "BlocksOutputBuffer \<Rightarrow> nat \<Rightarrow> ptr \<Rightarrow> bool" where
  reach_init:
    "BlocksOutputBuffer_InitAndGrow buffer0 avail0 next0 w = ((0, buffer, avail_out, next_out), w')
     \<Longrightarrow> reachable buffer avail_out next_out"
| reach_write:
    "reachable buffer avail_out next_out
     \<Longrightarrow> write_out data buffer avail_out next_out = Ret (buffer', avail_out', next_out')
     \<Longrightarrow> reachable buffer' avail_out' next_out'"
| reach_grow:
    "reachable buffer 0 next_out
     \<Longrightarrow> BlocksOutputBuffer_Grow buffer 0 next_out w = (Ret (0, buffer', avail_out', next_out'), w')
     \<Longrightarrow> reachable buffer' avail_out' next_out'"

text \<open>The bytes written so far, as the chunk list and the window describe them.\<close>

definition logical_stream :: "byte list list \<Rightarrow> nat \<Rightarrow> byte list" where
  "logical_stream bs avail_out = concat (butlast bs) @ take (length (last bs) - avail_out) (last bs)"

definition capacities :: "byte list list \<Rightarrow> int" where
  "capacities bs = int (sum_list (map length bs))"

definition buffer_inv :: "BlocksOutputBuffer \<Rightarrow> nat \<Rightarrow> ptr \<Rightarrow> bool" where
  "buffer_inv buffer avail_out next_out =
     (case blocks buffer of
        None \<Rightarrow> False
      | Some bs \<Rightarrow>
          bs \<noteq> [] \<and> allocated buffer = capacities bs \<and> allocated buffer \<le> PY_SSIZE_T_MAX
          \<and> avail_out \<le> length (last bs)
          \<and> next_out = (length bs - 1, length (last bs) - avail_out)
          \<and> (\<forall>i < length bs. int (length (bs ! i)) = BUFFER_BLOCK_SIZE ! min i 16))"

subsection \<open>The engines\<close>

text \<open>
  The encoder and the decoder are the Brotli library, which the binding only calls. An
  engine is a parameter of the embedding: the state of a fresh instance and one function
  for each entry point the binding uses. A step is given the bytes of the input window
  and the size of the output window; it answers with its verdict, its new state, the
  number of input bytes it consumed and the bytes it wrote.
\<close>

record 'e encoder =
  enc_create :: 'e
  enc_set_parameter :: "'e \<Rightarrow> BrotliEncoderParameter \<Rightarrow> int \<Rightarrow> 'e"
  enc_compress_stream ::
    "'e \<Rightarrow> BrotliEncoderOperation \<Rightarrow> byte list \<Rightarrow> nat \<Rightarrow> bool \<times> 'e \<times> nat \<times> byte list"
  enc_has_more_output :: "'e \<Rightarrow> bool"
  enc_is_finished :: "'e \<Rightarrow> bool"

record 'd decoder =
  dec_create :: 'd
  dec_decompress_stream ::
    "'d \<Rightarrow> byte list \<Rightarrow> nat \<Rightarrow> BrotliDecoderResult \<times> 'd \<times> nat \<times> byte list"
  dec_is_finished :: "'d \<Rightarrow> bool"

text \<open>
  The local variables of a driver: the input window, the output window and the buffer.
  \<open>next_in\<close> is the input from the read position on.
\<close>

record io =
  available_in :: nat
  next_in :: "byte list"
  available_out :: nat
  next_out :: ptr
  buffer :: BlocksOutputBuffer

text \<open>An engine handle is \<open>None\<close> when it is NULL.\<close>

definition BrotliEncoderCreateInstance :: "'e encoder \<Rightarrow> world \<Rightarrow> 'e option \<times> world" where
  "BrotliEncoderCreateInstance E w =
     (case next_alloc w of
        (NoMemory, w1) \<Rightarrow> (None, called (Call_EncoderCreateInstance False) w1)
      | (Memory g, w1) \<Rightarrow> (Some (enc_create E), called (Call_EncoderCreateInstance True) w1))"

definition BrotliEncoderDestroyInstance :: "'e option \<Rightarrow> world \<Rightarrow> world" where
  "BrotliEncoderDestroyInstance enc w = called Call_EncoderDestroyInstance w"

definition BrotliEncoderSetParameter ::
  "'e encoder \<Rightarrow> 'e option \<Rightarrow> BrotliEncoderParameter \<Rightarrow> int \<Rightarrow> world \<Rightarrow> 'e option res \<times> world" where
  "BrotliEncoderSetParameter E enc p v w =
     (case enc of
        None \<Rightarrow> (Undefined, w)
      | Some e \<Rightarrow> (Ret (Some (enc_set_parameter E e p v)), called (Call_EncoderSetParameter p v) w))"

definition BrotliEncoderCompressStream ::
  "'e encoder \<Rightarrow> 'e option \<Rightarrow> BrotliEncoderOperation \<Rightarrow> io \<Rightarrow> world
     \<Rightarrow> (bool \<times> 'e option \<times> io) res \<times> world" where
  "BrotliEncoderCompressStream E enc op s w =
     (case enc of
        None \<Rightarrow> (Undefined, w)
      | Some e \<Rightarrow>
          (case enc_compress_stream E e op (take (available_in s) (next_in s)) (available_out s) of
             (ok, e', consumed, written) \<Rightarrow>
               if consumed > available_in s then (Undefined, w)
               else
                 (case write_out written (buffer s) (available_out s) (next_out s) of
                    Undefined \<Rightarrow> (Undefined, w)
                  | Ret (buffer', avail_out', next_out') \<Rightarrow>
                      (Ret (ok, Some e',
                            s\<lparr>available_in := available_in s - consumed,
                              next_in := drop consumed (next_in s),
                              available_out := avail_out', next_out := next_out',
                              buffer := buffer'\<rparr>),
                       called (Call_EncoderCompressStream op ok (available_in s - consumed) avail_out') w))))"

definition BrotliEncoderHasMoreOutput :: "'e encoder \<Rightarrow> 'e option \<Rightarrow> world \<Rightarrow> bool res \<times> world" where
  "BrotliEncoderHasMoreOutput E enc w =
     (case enc of
        None \<Rightarrow> (Undefined, w)
      | Some e \<Rightarrow> (Ret (enc_has_more_output E e), called (Call_EncoderHasMoreOutput (enc_has_more_output E e)) w))"

definition BrotliEncoderIsFinished :: "'e encoder \<Rightarrow> 'e option \<Rightarrow> world \<Rightarrow> bool res \<times> world" where
  "BrotliEncoderIsFinished E enc w =
     (case enc of
        None \<Rightarrow> (Undefined, w)
      | Some e \<Rightarrow> (Ret (enc_is_finished E e), called (Call_EncoderIsFinished (enc_is_finished E e)) w))"

definition BrotliDecoderCreateInstance :: "'d decoder \<Rightarrow> world \<Rightarrow> 'd option \<times> world" where
  "BrotliDecoderCreateInstance D w =
     (case next_alloc w of
        (NoMemory, w1) \<Rightarrow> (None, called (Call_DecoderCreateInstance False) w1)
      | (Memory g, w1) \<Rightarrow> (Some (dec_create D), called (Call_DecoderCreateInstance True) w1))"

definition BrotliDecoderDestroyInstance :: "'d option \<Rightarrow> world \<Rightarrow> world" where
  "BrotliDecoderDestroyInstance dec w = called Call_DecoderDestroyInstance w"

definition BrotliDecoderDecompressStream ::
  "'d decoder \<Rightarrow> 'd option \<Rightarrow> io \<Rightarrow> world \<Rightarrow> (BrotliDecoderResult \<times> 'd option \<times> io) res \<times> world" where
  "BrotliDecoderDecompressStream D dec s w =
     (case dec of
        None \<Rightarrow> (Undefined, w)
      | Some d \<Rightarrow>
          (case dec_decompress_stream D d (take (available_in s) (next_in s)) (available_out s) of
             (result, d', consumed, written) \<Rightarrow>
               if consumed > available_in s then (Undefined, w)
               else
                 (case write_out written (buffer s) (available_out s) (next_out s) of
                    Undefined \<Rightarrow> (Undefined, w)
                  | Ret (buffer', avail_out', next_out') \<Rightarrow>
                      (Ret (result, Some d',
                            s\<lparr>available_in := available_in s - consumed,
                              next_in := drop consumed (next_in s),
                              available_out := avail_out', next_out := next_out',
                              buffer := buffer'\<rparr>),
                       called (Call_DecoderDecompressStream result (available_in s - consumed) avail_out') w))))"

definition BrotliDecoderIsFinished :: "'d decoder \<Rightarrow> 'd option \<Rightarrow> world \<Rightarrow> bool res \<times> world" where
  "BrotliDecoderIsFinished D dec w =
     (case dec of
        None \<Rightarrow> (Undefined, w)
      | Some d \<Rightarrow> (Ret (dec_is_finished D d), called (Call_DecoderIsFinished (dec_is_finished D d)) w))"

subsection \<open>The stream drivers\<close>

text \<open>
  The local variables \<^verbatim>\<open>buffer\<close>, \<^verbatim>\<open>available_out\<close> and \<^verbatim>\<open>next_out\<close> of
  a driver are not initialised; \<^verbatim>\<open>BlocksOutputBuffer_InitAndGrow\<close> assigns them
  before they are read.
\<close>

definition local_buffer :: BlocksOutputBuffer where
  "local_buffer = \<lparr>blocks = None, allocated = 0\<rparr>"

text \<open>
  The three loops run between \<^verbatim>\<open>Py_BEGIN_ALLOW_THREADS\<close> and
  \<^verbatim>\<open>Py_END_ALLOW_THREADS\<close>: the thread has given up the interpreter lock and
  its thread state pointer is NULL. \<^verbatim>\<open>BlocksOutputBuffer_Grow\<close> is called there all
  the same. While its allocations succeed it only takes memory and appends to a list that no
  other thread knows. When one fails, an exception is raised (\<^verbatim>\<open>PyErr_NoMemory\<close>
  inside \<^verbatim>\<open>PyBytes_FromStringAndSize\<close> or \<^verbatim>\<open>PyList_Append\<close>, then
  \<^verbatim>\<open>PyErr_SetString\<close>), and raising reads the thread state: every path of
  \<^verbatim>\<open>Grow\<close> that returns -1 dereferences a NULL pointer when it is taken without
  the lock. Such a call has no defined behaviour.
\<close>

definition Grow_allow_threads ::
  "BlocksOutputBuffer \<Rightarrow> nat \<Rightarrow> ptr \<Rightarrow> world
     \<Rightarrow> (int \<times> BlocksOutputBuffer \<times> nat \<times> ptr) res \<times> world" where
  "Grow_allow_threads buf avail_out nxt w =
     (case BlocksOutputBuffer_Grow buf avail_out nxt w of
        (Undefined, w') \<Rightarrow> (Undefined, w')
      | (Ret (rc, r), w') \<Rightarrow> (if rc < 0 then Undefined else Ret (rc, r), w'))"

text \<open>
  The statement
  \<^verbatim>\<open>if (available_out == 0) { if (BlocksOutputBuffer_Grow(...) < 0) ... }\<close>
  of the three loops: the return code of \<^verbatim>\<open>Grow\<close>, or 0 when it is not called.
\<close>

definition grow_if_full :: "io \<Rightarrow> world \<Rightarrow> (int \<times> io) res \<times> world" where
  "grow_if_full s w =
     (if available_out s = 0 then
        (case Grow_allow_threads (buffer s) (available_out s) (next_out s) w of
           (Undefined, w') \<Rightarrow> (Undefined, w')
         | (Ret (rc, buffer', avail_out', next_out'), w') \<Rightarrow>
             (Ret (rc, s\<lparr>buffer := buffer', available_out := avail_out', next_out := next_out'\<rparr>), w'))
      else (Ret (0, s), w))"

text \<open>
  The loop of \<^verbatim>\<open>compress_stream\<close>. \<^verbatim>\<open>ok\<close> is true whenever the loop condition
  is evaluated, so each round starts with the step. The loop ends with the final
  \<^verbatim>\<open>ok\<close>; \<open>None\<close> means that the fuel did not suffice.
\<close>

fun compress_stream_loop ::
  "nat \<Rightarrow> 'e encoder \<Rightarrow> BrotliEncoderOperation \<Rightarrow> 'e option \<Rightarrow> io \<Rightarrow> world
     \<Rightarrow> ((bool \<times> 'e option \<times> io) res \<times> world) option" where
  "compress_stream_loop 0 E op enc s w = None"
| "compress_stream_loop (Suc fuel) E op enc s w =
     (case BrotliEncoderCompressStream E enc op s w of
        (Undefined, w1) \<Rightarrow> Some (Undefined, w1)
      | (Ret (ok, enc1, s1), w1) \<Rightarrow>
          if \<not> ok then Some (Ret (False, enc1, s1), w1)
          else
            (case grow_if_full s1 w1 of
               (Undefined, w2) \<Rightarrow> Some (Undefined, w2)
             | (Ret (rc, s2), w2) \<Rightarrow>
                 if rc < 0 then Some (Ret (False, enc1, s2), w2)
                 else if available_in s2 \<noteq> 0 then compress_stream_loop fuel E op enc1 s2 w2
                 else
                   (case BrotliEncoderHasMoreOutput E enc1 w2 of
                      (Undefined, w3) \<Rightarrow> Some (Undefined, w3)
                    | (Ret pending, w3) \<Rightarrow>
                        if pending then compress_stream_loop fuel E op enc1 s2 w3
                        else Some (Ret (True, enc1, s2), w3))))"

text \<open>
  \<^verbatim>\<open>compress_stream\<close> returns \<^verbatim>\<open>ok\<close>, the object stored in
  \<^verbatim>\<open>*output\<close> (\<open>None\<close> when nothing or NULL was stored) and the engine.
\<close>

definition compress_stream ::
  "nat \<Rightarrow> 'e encoder \<Rightarrow> 'e option \<Rightarrow> BrotliEncoderOperation \<Rightarrow> byte list \<Rightarrow> world
     \<Rightarrow> ((bool \<times> byte list option \<times> 'e option) res \<times> world) option" where
  "compress_stream fuel E enc op input w =
     (case BlocksOutputBuffer_InitAndGrow local_buffer 0 (0, 0) w of
        ((rc, buffer0, available_out0, next_out0), w1) \<Rightarrow>
          if rc < 0 then Some (Ret (False, None, enc), w1)
          else
            (case compress_stream_loop fuel E op enc
                    \<lparr>available_in = length input, next_in = input,
                     available_out = available_out0, next_out = next_out0, buffer = buffer0\<rparr> w1 of
               None \<Rightarrow> None
             | Some (Undefined, w2) \<Rightarrow> Some (Undefined, w2)
             | Some (Ret (ok, enc', s), w2) \<Rightarrow>
                 if ok then
                   (case BlocksOutputBuffer_Finish (buffer s) (available_out s) w2 of
                      (Undefined, w3) \<Rightarrow> Some (Undefined, w3)
                    | (Ret (output, buffer'), w3) \<Rightarrow> Some (Ret (output \<noteq> None, output, enc'), w3))
                 else Some (Ret (False, None, enc'), BlocksOutputBuffer_CleanUp (buffer s) w2)))"

text \<open>
  The loop of \<^verbatim>\<open>decompress_stream\<close>: a failed \<^verbatim>\<open>Grow\<close> sets
  \<^verbatim>\<open>result\<close> to \<^verbatim>\<open>BROTLI_DECODER_RESULT_ERROR\<close> and leaves the loop.
\<close>

fun decompress_stream_loop ::
  "nat \<Rightarrow> 'd decoder \<Rightarrow> 'd option \<Rightarrow> io \<Rightarrow> world
     \<Rightarrow> ((BrotliDecoderResult \<times> 'd option \<times> io) res \<times> world) option" where
  "decompress_stream_loop 0 D dec s w = None"
| "decompress_stream_loop (Suc fuel) D dec s w =
     (case BrotliDecoderDecompressStream D dec s w of
        (Undefined, w1) \<Rightarrow> Some (Undefined, w1)
      | (Ret (result, dec1, s1), w1) \<Rightarrow>
          (case grow_if_full s1 w1 of
             (Undefined, w2) \<Rightarrow> Some (Undefined, w2)
           | (Ret (rc, s2), w2) \<Rightarrow>
               if rc < 0 then Some (Ret (BROTLI_DECODER_RESULT_ERROR, dec1, s2), w2)
               else if result = BROTLI_DECODER_RESULT_NEEDS_MORE_OUTPUT
               then decompress_stream_loop fuel D dec1 s2 w2
               else Some (Ret (result, dec1, s2), w2)))"

definition decompress_stream ::
  "nat \<Rightarrow> 'd decoder \<Rightarrow> 'd option \<Rightarrow> byte list \<Rightarrow> world
     \<Rightarrow> ((bool \<times> byte list option \<times> 'd option) res \<times> world) option" where
  "decompress_stream fuel D dec input w =
     (case BlocksOutputBuffer_InitAndGrow local_buffer 0 (0, 0) w of
        ((rc, buffer0, available_out0, next_out0), w1) \<Rightarrow>
          if rc < 0 then Some (Ret (False, None, dec), w1)
          else
            (case decompress_stream_loop fuel D dec
                    \<lparr>available_in = length input, next_in = input,
                     available_out = available_out0, next_out = next_out0, buffer = buffer0\<rparr> w1 of
               None \<Rightarrow> None
             | Some (Undefined, w2) \<Rightarrow> Some (Undefined, w2)
             | Some (Ret (result, dec', s), w2) \<Rightarrow>
                 if result \<noteq> BROTLI_DECODER_RESULT_ERROR \<and> available_in s = 0 then
                   (case BlocksOutputBuffer_Finish (buffer s) (available_out s) w2 of
                      (Undefined, w3) \<Rightarrow> Some (Undefined, w3)
                    | (Ret (output, buffer'), w3) \<Rightarrow> Some (Ret (output \<noteq> None, output, dec'), w3))
                 else Some (Ret (False, None, dec'), BlocksOutputBuffer_CleanUp (buffer s) w2)))"

text \<open>
  The loop of the function \<^verbatim>\<open>decompress\<close>: a failed \<^verbatim>\<open>Grow\<close> leaves the
  loop and \<^verbatim>\<open>result\<close> keeps the status of the last step.
\<close>

fun brotli_decompress_loop ::
  "nat \<Rightarrow> 'd decoder \<Rightarrow> 'd option \<Rightarrow> io \<Rightarrow> world
     \<Rightarrow> ((BrotliDecoderResult \<times> 'd option \<times> io) res \<times> world) option" where
  "brotli_decompress_loop 0 D state s w = None"
| "brotli_decompress_loop (Suc fuel) D state s w =
     (case BrotliDecoderDecompressStream D state s w of
        (Undefined, w1) \<Rightarrow> Some (Undefined, w1)
      | (Ret (result, state1, s1), w1) \<Rightarrow>
          (case grow_if_full s1 w1 of
             (Undefined, w2) \<Rightarrow> Some (Undefined, w2)
           | (Ret (rc, s2), w2) \<Rightarrow>
               if rc < 0 then Some (Ret (result, state1, s2), w2)
               else if result = BROTLI_DECODER_RESULT_NEEDS_MORE_OUTPUT
               then brotli_decompress_loop fuel D state1 s2 w2
               else Some (Ret (result, state1, s2), w2)))"

subsection \<open>Python objects and the argument convertors\<close>

datatype pyobj = PyLong int | PyBytes "byte list" | PyNone

definition PyInt_Check :: "pyobj \<Rightarrow> bool" where
  "PyInt_Check o' = (case o' of PyLong v \<Rightarrow> True | _ \<Rightarrow> False)"

text \<open>
  \<^verbatim>\<open>PyInt_AsLong\<close>: the value when it fits a C \<^verbatim>\<open>long\<close> (64 bits), else -1
  (with an exception set).
\<close>

definition PyInt_AsLong :: "pyobj \<Rightarrow> int" where
  "PyInt_AsLong o' =
     (case o' of
        PyLong v \<Rightarrow> if - (2 ^ 63) \<le> v \<and> v < 2 ^ 63 then v else -1
      | _ \<Rightarrow> -1)"

text \<open>\<^verbatim>\<open>as_bounded_int\<close> returns the stored value, or \<open>None\<close> when it returns 0.\<close>

definition as_bounded_int :: "pyobj \<Rightarrow> int \<Rightarrow> int \<Rightarrow> int option" where
  "as_bounded_int o' lower_bound upper_bound =
     (let v = PyInt_AsLong o' in
      if v < lower_bound \<or> v > upper_bound then None else Some v)"

text \<open>The values of the enumeration \<^verbatim>\<open>BrotliEncoderMode\<close> in the header of the encoder.\<close>

definition BROTLI_MODE_GENERIC :: int where "BROTLI_MODE_GENERIC = 0"
definition BROTLI_MODE_TEXT :: int where "BROTLI_MODE_TEXT = 1"
definition BROTLI_MODE_FONT :: int where "BROTLI_MODE_FONT = 2"

definition mode_convertor :: "pyobj \<Rightarrow> world \<Rightarrow> int option \<times> world" where
  "mode_convertor o' w =
     (if \<not> PyInt_Check o' then (None, PyErr_SetString BrotliError ''Invalid mode'' w)
      else
        (case as_bounded_int o' 0 255 of
           None \<Rightarrow> (None, PyErr_SetString BrotliError ''Invalid mode'' w)
         | Some mode \<Rightarrow>
             if mode \<noteq> BROTLI_MODE_GENERIC \<and> mode \<noteq> BROTLI_MODE_TEXT \<and> mode \<noteq> BROTLI_MODE_FONT
             then (None, PyErr_SetString BrotliError ''Invalid mode'' w)
             else (Some mode, w)))"

definition quality_convertor :: "pyobj \<Rightarrow> world \<Rightarrow> int option \<times> world" where
  "quality_convertor o' w =
     (if \<not> PyInt_Check o' then (None, PyErr_SetString BrotliError ''Invalid quality'' w)
      else
        (case as_bounded_int o' 0 11 of
           None \<Rightarrow> (None, PyErr_SetString BrotliError ''Invalid quality. Range is 0 to 11.'' w)
         | Some quality \<Rightarrow> (Some quality, w)))"

definition lgwin_convertor :: "pyobj \<Rightarrow> world \<Rightarrow> int option \<times> world" where
  "lgwin_convertor o' w =
     (if \<not> PyInt_Check o' then (None, PyErr_SetString BrotliError ''Invalid lgwin'' w)
      else
        (case as_bounded_int o' 10 24 of
           None \<Rightarrow> (None, PyErr_SetString BrotliError ''Invalid lgwin. Range is 10 to 24.'' w)
         | Some lgwin \<Rightarrow> (Some lgwin, w)))"

definition lgblock_convertor :: "pyobj \<Rightarrow> world \<Rightarrow> int option \<times> world" where
  "lgblock_convertor o' w =
     (if \<not> PyInt_Check o' then (None, PyErr_SetString BrotliError ''Invalid lgblock'' w)
      else
        (case as_bounded_int o' 0 24 of
           None \<Rightarrow>
             (None, PyErr_SetString BrotliError ''Invalid lgblock. Can be 0 or in range 16 to 24.'' w)
         | Some lgblock \<Rightarrow>
             if lgblock \<noteq> 0 \<and> lgblock < 16
             then (None, PyErr_SetString BrotliError ''Invalid lgblock. Can be 0 or in range 16 to 24.'' w)
             else (Some lgblock, w)))"

subsection \<open>Compressor\<close>

text \<open>
  The structure \<^verbatim>\<open>brotli_Compressor\<close> has one field, the engine handle
  \<^verbatim>\<open>enc\<close>; an object is the value of that field.
\<close>

type_synonym 'e brotli_Compressor = "'e option"

text \<open>
  \<^verbatim>\<open>brotli_Compressor_new\<close>: \<^verbatim>\<open>tp_alloc\<close> and, when it returned an object,
  \<^verbatim>\<open>BrotliEncoderCreateInstance\<close>. The result is \<open>None\<close> when \<^verbatim>\<open>self\<close> is
  NULL.
\<close>

definition brotli_Compressor_new :: "'e encoder \<Rightarrow> world \<Rightarrow> 'e brotli_Compressor option \<times> world" where
  "brotli_Compressor_new E w =
     (case next_alloc w of
        (NoMemory, w1) \<Rightarrow> (None, PyErr_NoMemory w1)
      | (Memory g, w1) \<Rightarrow>
          (case BrotliEncoderCreateInstance E w1 of (enc, w2) \<Rightarrow> (Some enc, w2)))"

definition brotli_Compressor_dealloc :: "'e brotli_Compressor \<Rightarrow> world \<Rightarrow> world" where
  "brotli_Compressor_dealloc self w = BrotliEncoderDestroyInstance self w"

text \<open>
  The arguments of the constructor after the interpreter has matched positions and
  keywords: each of \<^verbatim>\<open>mode\<close>, \<^verbatim>\<open>quality\<close>, \<^verbatim>\<open>lgwin\<close>, \<^verbatim>\<open>lgblock\<close> is
  given or not. \<^verbatim>\<open>PyArg_ParseTupleAndKeywords\<close> runs the convertor of each given
  argument, in this order, and stops at the first that fails; an argument not given leaves
  its variable at -1.
\<close>

record Compressor_args =
  arg_mode :: "pyobj option"
  arg_quality :: "pyobj option"
  arg_lgwin :: "pyobj option"
  arg_lgblock :: "pyobj option"

definition convert_arg ::
  "(pyobj \<Rightarrow> world \<Rightarrow> int option \<times> world) \<Rightarrow> pyobj option \<Rightarrow> world \<Rightarrow> int option \<times> world" where
  "convert_arg convertor arg w = (case arg of None \<Rightarrow> (Some (-1), w) | Some obj \<Rightarrow> convertor obj w)"

definition parse_Compressor_args ::
  "Compressor_args \<Rightarrow> world \<Rightarrow> (int \<times> int \<times> int \<times> int) option \<times> world" where
  "parse_Compressor_args args w =
     (case convert_arg mode_convertor (arg_mode args) w of
        (None, w1) \<Rightarrow> (None, w1)
      | (Some mode, w1) \<Rightarrow>
     (case convert_arg quality_convertor (arg_quality args) w1 of
        (None, w2) \<Rightarrow> (None, w2)
      | (Some quality, w2) \<Rightarrow>
     (case convert_arg lgwin_convertor (arg_lgwin args) w2 of
        (None, w3) \<Rightarrow> (None, w3)
      | (Some lgwin, w3) \<Rightarrow>
     (case convert_arg lgblock_convertor (arg_lgblock args) w3 of
        (None, w4) \<Rightarrow> (None, w4)
      | (Some lgblock, w4) \<Rightarrow> (Some (mode, quality, lgwin, lgblock), w4)))))"

text \<open>\<^verbatim>\<open>if (v != -1) BrotliEncoderSetParameter(self->enc, p, v);\<close>\<close>

definition set_parameter_if_given ::
  "'e encoder \<Rightarrow> BrotliEncoderParameter \<Rightarrow> int \<Rightarrow> 'e option res \<times> world \<Rightarrow> 'e option res \<times> world" where
  "set_parameter_if_given E p v x =
     (case x of
        (Undefined, w) \<Rightarrow> (Undefined, w)
      | (Ret enc, w) \<Rightarrow> if v \<noteq> -1 then BrotliEncoderSetParameter E enc p v w else (Ret enc, w))"

definition brotli_Compressor_init ::
  "'e encoder \<Rightarrow> 'e brotli_Compressor \<Rightarrow> Compressor_args \<Rightarrow> world
     \<Rightarrow> (int \<times> 'e brotli_Compressor) res \<times> world" where
  "brotli_Compressor_init E self args w =
     (case parse_Compressor_args args w of
        (None, w1) \<Rightarrow> (Ret (-1, self), w1)
      | (Some (mode, quality, lgwin, lgblock), w1) \<Rightarrow>
          if self = None then (Ret (-1, self), w1)
          else
            (case set_parameter_if_given E BROTLI_PARAM_LGBLOCK lgblock
                    (set_parameter_if_given E BROTLI_PARAM_LGWIN lgwin
                      (set_parameter_if_given E BROTLI_PARAM_QUALITY quality
                        (set_parameter_if_given E BROTLI_PARAM_MODE mode (Ret self, w1)))) of
               (Undefined, w2) \<Rightarrow> (Undefined, w2)
             | (Ret self', w2) \<Rightarrow> (Ret (0, self'), w2)))"

text \<open>
  Calling the type \<^verbatim>\<open>Compressor\<close>: the interpreter calls \<^verbatim>\<open>tp_new\<close>, then
  \<^verbatim>\<open>tp_init\<close> on the new object, and releases the object (\<^verbatim>\<open>tp_dealloc\<close>)
  when \<^verbatim>\<open>tp_init\<close> fails. The result is the object, or \<open>None\<close> for an exception.
\<close>

definition Compressor_call ::
  "'e encoder \<Rightarrow> Compressor_args \<Rightarrow> world \<Rightarrow> 'e brotli_Compressor option res \<times> world" where
  "Compressor_call E args w =
     (case brotli_Compressor_new E w of
        (None, w1) \<Rightarrow> (Ret None, w1)
      | (Some self, w1) \<Rightarrow>
          (case brotli_Compressor_init E self args w1 of
             (Undefined, w2) \<Rightarrow> (Undefined, w2)
           | (Ret (rc, self'), w2) \<Rightarrow>
               if rc < 0 then (Ret None, brotli_Compressor_dealloc self' w2)
               else (Ret (Some self'), w2)))"

text \<open>
  A method returns the bytes object \<^verbatim>\<open>ret\<close> (\<open>None\<close> is NULL) and the object
  \<^verbatim>\<open>self\<close> after the call. The argument tuple of \<^verbatim>\<open>process\<close> is parsed with
  the format \<^verbatim>\<open>y*\<close>: one bytes-like object.
\<close>

definition brotli_Compressor_process ::
  "nat \<Rightarrow> 'e encoder \<Rightarrow> 'e brotli_Compressor \<Rightarrow> pyobj list \<Rightarrow> world
     \<Rightarrow> ((byte list option \<times> 'e brotli_Compressor) res \<times> world) option" where
  "brotli_Compressor_process fuel E self args w =
     (case args of
        [PyBytes input] \<Rightarrow>
          (case self of
             None \<Rightarrow>
               Some (Ret (None, self),
                 PyErr_SetString BrotliError
                   ''BrotliEncoderCompressStream failed while processing the stream'' w)
           | Some e \<Rightarrow>
               (case compress_stream fuel E self BROTLI_OPERATION_PROCESS input w of
                  None \<Rightarrow> None
                | Some (Undefined, w1) \<Rightarrow> Some (Undefined, w1)
                | Some (Ret (ok, ret, self'), w1) \<Rightarrow>
                    if \<not> ok then
                      Some (Ret (None, self'),
                        PyErr_SetString BrotliError
                          ''BrotliEncoderCompressStream failed while processing the stream'' w1)
                    else Some (Ret (ret, self'), w1)))
      | _ \<Rightarrow> Some (Ret (None, self), PyErr_SetString TypeError ''process'' w))"

definition brotli_Compressor_flush ::
  "nat \<Rightarrow> 'e encoder \<Rightarrow> 'e brotli_Compressor \<Rightarrow> world
     \<Rightarrow> ((byte list option \<times> 'e brotli_Compressor) res \<times> world) option" where
  "brotli_Compressor_flush fuel E self w =
     (case self of
        None \<Rightarrow>
          Some (Ret (None, self),
            PyErr_SetString BrotliError
              ''BrotliEncoderCompressStream failed while flushing the stream'' w)
      | Some e \<Rightarrow>
          (case compress_stream fuel E self BROTLI_OPERATION_FLUSH [] w of
             None \<Rightarrow> None
           | Some (Undefined, w1) \<Rightarrow> Some (Undefined, w1)
           | Some (Ret (ok, ret, self'), w1) \<Rightarrow>
               if \<not> ok then
                 Some (Ret (None, self'),
                   PyErr_SetString BrotliError
                     ''BrotliEncoderCompressStream failed while flushing the stream'' w1)
               else Some (Ret (ret, self'), w1)))"

definition brotli_Compressor_finish ::
  "nat \<Rightarrow> 'e encoder \<Rightarrow> 'e brotli_Compressor \<Rightarrow> world
     \<Rightarrow> ((byte list option \<times> 'e brotli_Compressor) res \<times> world) option" where
  "brotli_Compressor_finish fuel E self w =
     (case self of
        None \<Rightarrow>
          Some (Ret (None, self),
            PyErr_SetString BrotliError
              ''BrotliEncoderCompressStream failed while finishing the stream'' w)
      | Some e \<Rightarrow>
          (case compress_stream fuel E self BROTLI_OPERATION_FINISH [] w of
             None \<Rightarrow> None
           | Some (Undefined, w1) \<Rightarrow> Some (Undefined, w1)
           | Some (Ret (ok, ret, self'), w1) \<Rightarrow>
               (case (if ok then BrotliEncoderIsFinished E self' w1 else (Ret ok, w1)) of
                  (Undefined, w2) \<Rightarrow> Some (Undefined, w2)
                | (Ret ok', w2) \<Rightarrow>
                    if \<not> ok' then
                      Some (Ret (None, self'),
                        PyErr_SetString BrotliError
                          ''BrotliEncoderCompressStream failed while finishing the stream'' w2)
                    else Some (Ret (ret, self'), w2))))"

subsection \<open>Decompressor and the function decompress\<close>

type_synonym 'd brotli_Decompressor = "'d option"

definition brotli_Decompressor_process ::
  "nat \<Rightarrow> 'd decoder \<Rightarrow> 'd brotli_Decompressor \<Rightarrow> pyobj list \<Rightarrow> world
     \<Rightarrow> ((byte list option \<times> 'd brotli_Decompressor) res \<times> world) option" where
  "brotli_Decompressor_process fuel D self args w =
     (case args of
        [PyBytes input] \<Rightarrow>
          (case self of
             None \<Rightarrow>
               Some (Ret (None, self),
                 PyErr_SetString BrotliError
                   ''BrotliDecoderDecompressStream failed while processing the stream'' w)
           | Some d \<Rightarrow>
               (case decompress_stream fuel D self input w of
                  None \<Rightarrow> None
                | Some (Undefined, w1) \<Rightarrow> Some (Undefined, w1)
                | Some (Ret (ok, ret, self'), w1) \<Rightarrow>
                    if \<not> ok then
                      Some (Ret (None, self'),
                        PyErr_SetString BrotliError
                          ''BrotliDecoderDecompressStream failed while processing the stream'' w1)
                    else Some (Ret (ret, self'), w1)))
      | _ \<Rightarrow> Some (Ret (None, self), PyErr_SetString TypeError ''process'' w))"

text \<open>\<^verbatim>\<open>is_finished\<close> returns True, False or NULL.\<close>

definition brotli_Decompressor_is_finished ::
  "'d decoder \<Rightarrow> 'd brotli_Decompressor \<Rightarrow> world \<Rightarrow> bool option res \<times> world" where
  "brotli_Decompressor_is_finished D self w =
     (case self of
        None \<Rightarrow>
          (Ret None,
           PyErr_SetString BrotliError ''BrotliDecoderState is NULL while checking is_finished'' w)
      | Some d \<Rightarrow>
          (case BrotliDecoderIsFinished D self w of
             (Undefined, w1) \<Rightarrow> (Undefined, w1)
           | (Ret b, w1) \<Rightarrow> (Ret (Some b), w1)))"

definition brotli_decompress ::
  "nat \<Rightarrow> 'd decoder \<Rightarrow> pyobj list \<Rightarrow> world \<Rightarrow> (byte list option res \<times> world) option" where
  "brotli_decompress fuel D args w =
     (case args of
        [PyBytes input] \<Rightarrow>
          (case BlocksOutputBuffer_InitAndGrow local_buffer 0 (0, 0) w of
             ((rc, buffer0, available_out0, next_out0), w1) \<Rightarrow>
               if rc < 0 then Some (Ret None, w1)
               else
                 (case BrotliDecoderCreateInstance D w1 of
                    (state, w2) \<Rightarrow>
                      (case brotli_decompress_loop fuel D state
                              \<lparr>available_in = length input, next_in = input,
                               available_out = available_out0, next_out = next_out0,
                               buffer = buffer0\<rparr> w2 of
                         None \<Rightarrow> None
                       | Some (Undefined, w3) \<Rightarrow> Some (Undefined, w3)
                       | Some (Ret (result, state', s), w3) \<Rightarrow>
                           (let ok = (result = BROTLI_DECODER_RESULT_SUCCESS \<and> available_in s = 0);
                                w4 = BrotliDecoderDestroyInstance state' w3 in
                            if ok then
                              (case BlocksOutputBuffer_Finish (buffer s) (available_out s) w4 of
                                 (Undefined, w5) \<Rightarrow> Some (Undefined, w5)
                               | (Ret (ret, buffer'), w5) \<Rightarrow> Some (Ret ret, w5))
                            else
                              Some (Ret None,
                                PyErr_SetString BrotliError ''BrotliDecompress failed''
                                  (BlocksOutputBuffer_CleanUp (buffer s) w4))))))
      | _ \<Rightarrow> Some (Ret None, PyErr_SetString TypeError ''decompress'' w))"

subsection \<open>Values for the examples\<close>

text \<open>A world in which every allocation succeeds, no exception is set and no call was made.\<close>

definition world0 :: world where
  "world0 = \<lparr>heap = [], err = None, calls = []\<rparr>"

text \<open>The buffer after \<^verbatim>\<open>InitAndGrow\<close> in \<open>world0\<close>, and after the engine wrote 1, 2, 3.\<close>

definition buffer_fresh :: BlocksOutputBuffer where
  "buffer_fresh = \<lparr>blocks = Some [fresh (\<lambda>_. 0) 32768], allocated = 32768\<rparr>"

definition buffer_123 :: BlocksOutputBuffer where
  "buffer_123 = \<lparr>blocks = Some [[1, 2, 3] @ drop 3 (fresh (\<lambda>_. 0) 32768)], allocated = 32768\<rparr>"

text \<open>The buffer after the engine filled the first block with the bytes \<open>g 0, g 1, ...\<close>.\<close>

definition buffer_full :: "(nat \<Rightarrow> byte) \<Rightarrow> BlocksOutputBuffer" where
  "buffer_full g = \<lparr>blocks = Some [fresh g 32768], allocated = 32768\<rparr>"

text \<open>The full buffer after a successful \<^verbatim>\<open>Grow\<close> in \<open>world0\<close>.\<close>

definition buffer_grown :: "(nat \<Rightarrow> byte) \<Rightarrow> BlocksOutputBuffer" where
  "buffer_grown g = \<lparr>blocks = Some [fresh g 32768, fresh (\<lambda>_. 0) 65536], allocated = 98304\<rparr>"

text \<open>A world whose next allocation fails.\<close>

definition world_nomem :: world where
  "world_nomem = \<lparr>heap = [NoMemory], err = None, calls = []\<rparr>"

text \<open>
  A world in which the buffer and the decoder instance can be allocated and the next
  allocation, that of a second block, fails.
\<close>

definition world_second_block_fails :: world where
  "world_second_block_fails =
     \<lparr>heap = [Memory (\<lambda>_. 0), Memory (\<lambda>_. 0), Memory (\<lambda>_. 0), NoMemory],
      err = None, calls = []\<rparr>"

text \<open>
  A world in which the buffer with its first block can be allocated and the next allocation,
  that of a second block, fails.
\<close>

definition world_one_block :: world where
  "world_one_block =
     \<lparr>heap = [Memory (\<lambda>_. 0), Memory (\<lambda>_. 0), NoMemory], err = None, calls = []\<rparr>"

subsection \<open>The protocol of the compression driver, as the specification words it\<close>

text \<open>
  The calls of one run of the compression driver after a successful
  \<^verbatim>\<open>init_and_grow\<close>, following the specification: step; when the step fails, clean up
  and stop; grow exactly when the step left \<open>available_out = 0\<close>, and when growing fails,
  clean up and stop; step again while \<open>available_in > 0\<close> or the engine has more
  output; otherwise finish with the current \<open>available_out\<close>. The second argument is the
  operation, the third the list of calls.
\<close>

fun compress_protocol :: "BrotliEncoderOperation \<Rightarrow> call list \<Rightarrow> bool" where
  "compress_protocol op (Call_EncoderCompressStream op' ok ain aout # rest) =
     (op' = op \<and>
      (if \<not> ok then rest = [Call_CleanUp]
       else if aout = 0 then
         (case rest of
            Call_Grow rc aout' # rest' \<Rightarrow>
              if rc < 0 then rest' = [Call_CleanUp]
              else if ain > 0 then compress_protocol op rest'
              else
                (case rest' of
                   Call_EncoderHasMoreOutput pending # rest'' \<Rightarrow>
                     if pending then compress_protocol op rest''
                     else rest'' = [Call_Finish aout' True] \<or> rest'' = [Call_Finish aout' False]
                 | _ \<Rightarrow> False)
          | _ \<Rightarrow> False)
       else if ain > 0 then compress_protocol op rest
       else
         (case rest of
            Call_EncoderHasMoreOutput pending # rest' \<Rightarrow>
              if pending then compress_protocol op rest'
              else rest' = [Call_Finish aout True] \<or> rest' = [Call_Finish aout False]
          | _ \<Rightarrow> False)))"
| "compress_protocol op _ = False"

subsection \<open>Reading the status of the last decoder step from the calls\<close>

fun last_decoder_step :: "call list \<Rightarrow> (BrotliDecoderResult \<times> nat) option" where
  "last_decoder_step [] = None"
| "last_decoder_step (c # cs) =
     (case last_decoder_step cs of
        Some r \<Rightarrow> Some r
      | None \<Rightarrow>
          (case c of
             Call_DecoderDecompressStream result ain aout \<Rightarrow> Some (result, ain)
           | _ \<Rightarrow> None))"

definition grow_failed :: "call list \<Rightarrow> bool" where
  "grow_failed cs = (\<exists>c \<in> set cs. case c of Call_Grow rc aout \<Rightarrow> rc < 0 | _ \<Rightarrow> False)"

definition finish_failed :: "call list \<Rightarrow> bool" where
  "finish_failed cs = (\<exists>c \<in> set cs. case c of Call_Finish aout ok \<Rightarrow> \<not> ok | _ \<Rightarrow> False)"

subsection \<open>The parameter ranges of the constructor, as the specification words them\<close>

definition valid_mode :: "pyobj \<Rightarrow> bool" where
  "valid_mode obj =
     (case obj of
        PyLong v \<Rightarrow> v = BROTLI_MODE_GENERIC \<or> v = BROTLI_MODE_TEXT \<or> v = BROTLI_MODE_FONT
      | _ \<Rightarrow> False)"

definition valid_quality :: "pyobj \<Rightarrow> bool" where
  "valid_quality obj = (case obj of PyLong v \<Rightarrow> 0 \<le> v \<and> v \<le> 11 | _ \<Rightarrow> False)"

definition valid_lgwin :: "pyobj \<Rightarrow> bool" where
  "valid_lgwin obj = (case obj of PyLong v \<Rightarrow> 10 \<le> v \<and> v \<le> 24 | _ \<Rightarrow> False)"

definition valid_lgblock :: "pyobj \<Rightarrow> bool" where
  "valid_lgblock obj = (case obj of PyLong v \<Rightarrow> v = 0 \<or> (16 \<le> v \<and> v \<le> 24) | _ \<Rightarrow> False)"

definition valid_arg :: "(pyobj \<Rightarrow> bool) \<Rightarrow> pyobj option \<Rightarrow> bool" where
  "valid_arg valid arg = (case arg of None \<Rightarrow> True | Some obj \<Rightarrow> valid obj)"

definition valid_Compressor_args :: "Compressor_args \<Rightarrow> bool" where
  "valid_Compressor_args args =
     (valid_arg valid_mode (arg_mode args) \<and> valid_arg valid_quality (arg_quality args)
      \<and> valid_arg valid_lgwin (arg_lgwin args) \<and> valid_arg valid_lgblock (arg_lgblock args))"

subsection \<open>A small engine for the examples\<close>

text \<open>
  A codec that stores its input: the encoder emits the input bytes and, for the operation
  FINISH, a final zero byte; its state is the output not yet written and whether the stream
  is closed. Like the Brotli encoder it rejects input after the stream is closed and
  accepts a call without input. The decoder copies bytes up to the zero byte; its state is
  whether it has seen the zero byte.
\<close>

definition stored_compress ::
  "byte list \<times> bool \<Rightarrow> BrotliEncoderOperation \<Rightarrow> byte list \<Rightarrow> nat
     \<Rightarrow> bool \<times> (byte list \<times> bool) \<times> nat \<times> byte list" where
  "stored_compress e op input avail_out =
     (case e of
        (pending, closed) \<Rightarrow>
          if closed \<and> input \<noteq> [] then (False, e, 0, [])
          else
            (let pending' =
                   pending @ input @ (if op = BROTLI_OPERATION_FINISH \<and> \<not> closed then [0] else [])
             in (True, (drop avail_out pending', closed \<or> op = BROTLI_OPERATION_FINISH),
                 length input, take avail_out pending')))"

definition stored_encoder :: "(byte list \<times> bool) encoder" where
  "stored_encoder =
     \<lparr>enc_create = ([], False),
      enc_set_parameter = (\<lambda>e p v. e),
      enc_compress_stream = stored_compress,
      enc_has_more_output = (\<lambda>e. fst e \<noteq> []),
      enc_is_finished = (\<lambda>e. snd e \<and> fst e = [])\<rparr>"

fun stored_decompress ::
  "bool \<Rightarrow> byte list \<Rightarrow> nat \<Rightarrow> BrotliDecoderResult \<times> bool \<times> nat \<times> byte list" where
  "stored_decompress True input avail_out = (BROTLI_DECODER_RESULT_SUCCESS, True, 0, [])"
| "stored_decompress False [] avail_out = (BROTLI_DECODER_RESULT_NEEDS_MORE_INPUT, False, 0, [])"
| "stored_decompress False (x # xs) avail_out =
     (if x = 0 then (BROTLI_DECODER_RESULT_SUCCESS, True, 1, [])
      else if avail_out = 0 then (BROTLI_DECODER_RESULT_NEEDS_MORE_OUTPUT, False, 0, [])
      else
        (case stored_decompress False xs (avail_out - 1) of
           (result, d, consumed, written) \<Rightarrow> (result, d, Suc consumed, x # written)))"

definition stored_decoder :: "bool decoder" where
  "stored_decoder =
     \<lparr>dec_create = False,
      dec_decompress_stream = stored_decompress,
      dec_is_finished = (\<lambda>d. d)\<rparr>"

text \<open>
  An encoder that emits nothing and rejects every call once the stream is closed; its
  state is whether the stream is closed.
\<close>

definition strict_encoder :: "bool encoder" where
  "strict_encoder =
     \<lparr>enc_create = False,
      enc_set_parameter = (\<lambda>e p v. e),
      enc_compress_stream =
        (\<lambda>e op input avail_out.
           if e then (False, e, 0, [])
           else (True, op = BROTLI_OPERATION_FINISH, length input, [])),
      enc_has_more_output = (\<lambda>e. False),
      enc_is_finished = (\<lambda>e. e)\<rparr>"

subsection \<open>One-shot compression and the contract of the engines\<close>

text \<open>
  Modelled from the spec: \<^verbatim>\<open>compress_one_shot(engine_config, input_bytes) -> bytes\<close>, the
  one-shot caller of the driver, which is not part of \<^verbatim>\<open>_brotli.c\<close>. It creates an
  engine, runs the compression driver with the operation FINISH on the whole input and
  returns the contiguous result; the configuration is part of the engine \<open>E\<close>.
\<close>

definition compress_one_shot ::
  "nat \<Rightarrow> 'e encoder \<Rightarrow> byte list \<Rightarrow> world \<Rightarrow> (byte list option res \<times> world) option" where
  "compress_one_shot fuel E input w =
     (case BrotliEncoderCreateInstance E w of
        (enc, w1) \<Rightarrow>
          if enc = None then Some (Ret None, PyErr_NoMemory w1)
          else
            (case compress_stream fuel E enc BROTLI_OPERATION_FINISH input w1 of
               None \<Rightarrow> None
             | Some (Undefined, w2) \<Rightarrow> Some (Undefined, w2)
             | Some (Ret (ok, output, enc'), w2) \<Rightarrow>
                 Some (Ret (if ok then output else None), BrotliEncoderDestroyInstance enc' w2)))"





text \<open>
  What the storing encoder of the examples owes and what its decoder has to write. The
  encoder with an open stream owes the bytes it holds, the input left and the closing zero
  byte; with a closed stream and no input left it owes the bytes it holds; a closed stream
  with input left is no state of a session. A valid stream for the decoder that has not
  seen the closing byte is a run of bytes other than zero followed by one zero byte, and
  nothing after it.
\<close>

definition stored_owed :: "byte list \<times> bool \<Rightarrow> byte list \<Rightarrow> byte list option" where
  "stored_owed e rest =
     (case e of
        (pending, closed) \<Rightarrow>
          if closed \<and> rest \<noteq> [] then None
          else Some (pending @ rest @ (if closed then [] else [0])))"






section \<open>Properties of the output buf\<close>

lemma called_simps [simp]:
  "calls (called c w) = calls w @ [c]" "err (called c w) = err w" "heap (called c w) = heap w"
  by (simp_all add: called_def)

lemma PyErr_SetString_simps [simp]:
  "calls (PyErr_SetString e m w) = calls w" "err (PyErr_SetString e m w) = Some (e, m)"
  "heap (PyErr_SetString e m w) = heap w"
  by (simp_all add: PyErr_SetString_def)

lemma PyErr_NoMemory_simps [simp]:
  "calls (PyErr_NoMemory w) = calls w" "err (PyErr_NoMemory w) = Some (MemoryError, [])"
  "heap (PyErr_NoMemory w) = heap w"
  by (simp_all add: PyErr_NoMemory_def)

lemma length_fresh [simp]: "length (fresh g n) = n"
  by (simp add: fresh_def)

lemma length_BUFFER_BLOCK_SIZE [simp]: "length BUFFER_BLOCK_SIZE = 17"
  by (simp add: BUFFER_BLOCK_SIZE_def)

lemma BUFFER_BLOCK_SIZE_bounds: "\<forall>x \<in> set BUFFER_BLOCK_SIZE. 0 < x \<and> x \<le> 268435456"
  by (simp add: BUFFER_BLOCK_SIZE_def KB_def MB_def)

lemma BUFFER_BLOCK_SIZE_pos: "i < 17 \<Longrightarrow> 0 < BUFFER_BLOCK_SIZE ! i"
  using BUFFER_BLOCK_SIZE_bounds nth_mem [of i BUFFER_BLOCK_SIZE] by simp

lemma BUFFER_BLOCK_SIZE_le: "i < 17 \<Longrightarrow> BUFFER_BLOCK_SIZE ! i \<le> 268435456"
  using BUFFER_BLOCK_SIZE_bounds nth_mem [of i BUFFER_BLOCK_SIZE] by simp

lemma BUFFER_BLOCK_SIZE_values:
  "BUFFER_BLOCK_SIZE =
     [32768, 65536, 262144, 1048576, 4194304, 8388608, 16777216, 16777216,
      33554432, 33554432, 33554432, 33554432, 67108864, 67108864, 134217728, 134217728,
      268435456]"
  by (simp add: BUFFER_BLOCK_SIZE_def KB_def MB_def)

lemma InitAndGrow_success:
  assumes "BlocksOutputBuffer_InitAndGrow buffer0 avail0 next0 w = ((0, buf, avail_out, nxt), w')"
  shows "\<exists>g. buf = buffer0\<lparr>blocks := Some [fresh g 32768], allocated := 32768\<rparr>
           \<and> avail_out = 32768 \<and> nxt = (0, 0)"
  using assms
  by (auto simp: BlocksOutputBuffer_InitAndGrow_def PyBytes_FromStringAndSize_def PyList_New_def
        BUFFER_BLOCK_SIZE_def KB_def Let_def
      split: prod.splits option.splits alloc.splits bool.splits if_splits)

lemma Grow_success:
  assumes "BlocksOutputBuffer_Grow buf avail0 next0 w = (Ret (0, buf', avail_out, nxt), w')"
  shows "\<exists>bs g. blocks buf = Some bs
           \<and> buf' = buf\<lparr>blocks := Some (bs @ [fresh g (nat (BUFFER_BLOCK_SIZE ! min (length bs) 16))]),
                               allocated := allocated buf + BUFFER_BLOCK_SIZE ! min (length bs) 16\<rparr>
           \<and> allocated buf + BUFFER_BLOCK_SIZE ! min (length bs) 16 \<le> PY_SSIZE_T_MAX
           \<and> avail_out = nat (BUFFER_BLOCK_SIZE ! min (length bs) 16)
           \<and> nxt = (length bs, 0)"
  using assms
  by (auto simp: BlocksOutputBuffer_Grow_def PyBytes_FromStringAndSize_def PyList_Append_def
        Let_def min_def
      split: prod.splits option.splits alloc.splits if_splits)

lemma write_out_success:
  assumes "write_out data buf avail_out nxt = Ret (buf', avail_out', nxt')"
  shows "\<exists>bs. blocks buf = Some bs \<and> length data \<le> avail_out \<and> fst nxt < length bs
           \<and> snd nxt + length data \<le> length (bs ! fst nxt)
           \<and> buf' = buf\<lparr>blocks := Some (bs[fst nxt :=
                 take (snd nxt) (bs ! fst nxt) @ data
                 @ drop (snd nxt + length data) (bs ! fst nxt)])\<rparr>
           \<and> avail_out' = avail_out - length data
           \<and> nxt' = (fst nxt, snd nxt + length data)"
  using assms
  by (auto simp: write_out_def Let_def split: option.splits if_splits)

lemma map_length_overwrite:
  assumes "i < length bs" "off + length data \<le> length (bs ! i)"
  shows "map length (bs[i := take off (bs ! i) @ data @ drop (off + length data) (bs ! i)])
           = map length bs"
proof -
  have "length (take off (bs ! i) @ data @ drop (off + length data) (bs ! i)) = length (bs ! i)"
    using assms(2) by auto
  with assms(1) show ?thesis
    by (simp only: map_update) (simp add: list_update_same_conv)
qed

lemma reachable_inv: "reachable buf avail_out nxt \<Longrightarrow> buffer_inv buf avail_out nxt"
proof (induction rule: reachable.induct)
  case (reach_init buffer0 avail0 next0 w buf avail_out nxt w')
  from InitAndGrow_success [OF reach_init] obtain g where
    "buf = buffer0\<lparr>blocks := Some [fresh g 32768], allocated := 32768\<rparr>"
    "avail_out = 32768" "nxt = (0, 0)" by blast
  then show ?case
    by (simp add: buffer_inv_def capacities_def BUFFER_BLOCK_SIZE_def KB_def PY_SSIZE_T_MAX_def)
next
  case (reach_write buf avail_out nxt data buf' avail_out' nxt')
  from write_out_success [OF reach_write.hyps(2)] obtain bs where w:
    "blocks buf = Some bs" "length data \<le> avail_out" "fst nxt < length bs"
    "snd nxt + length data \<le> length (bs ! fst nxt)"
    "buf' = buf\<lparr>blocks := Some (bs[fst nxt :=
                 take (snd nxt) (bs ! fst nxt) @ data
                 @ drop (snd nxt + length data) (bs ! fst nxt)])\<rparr>"
    "avail_out' = avail_out - length data"
    "nxt' = (fst nxt, snd nxt + length data)" by blast
  let ?bs' = "bs[fst nxt := take (snd nxt) (bs ! fst nxt) @ data
                 @ drop (snd nxt + length data) (bs ! fst nxt)]"
  from reach_write.IH w(1) have inv: "bs \<noteq> []" "allocated buf = capacities bs"
    "avail_out \<le> length (last bs)" "nxt = (length bs - 1, length (last bs) - avail_out)"
    "\<forall>i < length bs. int (length (bs ! i)) = BUFFER_BLOCK_SIZE ! min i 16"
    "allocated buf \<le> PY_SSIZE_T_MAX"
    by (simp_all add: buffer_inv_def)
  have ml: "map length ?bs' = map length bs"
    using map_length_overwrite [OF w(3) w(4)] .
  have len: "length ?bs' = length bs" by simp
  have nth_len: "length (?bs' ! i) = length (bs ! i)" if "i < length bs" for i
    using that ml by (metis len nth_map)
  have last_len: "length (last ?bs') = length (last bs)"
    using inv(1) nth_len [of "length bs - 1"] by (simp add: last_conv_nth)
  have cap: "capacities ?bs' = capacities bs" by (simp add: capacities_def ml)
  have b': "blocks buf' = Some ?bs'" "allocated buf' = allocated buf"
    using w(5) by simp_all
  have c1: "?bs' \<noteq> []" using inv(1) by simp
  have c2: "allocated buf' = capacities ?bs'" using b'(2) inv(2) cap by simp
  have c3: "avail_out' \<le> length (last ?bs')" using w(6) inv(3) last_len by simp
  have c4: "nxt' = (length ?bs' - 1, length (last ?bs') - avail_out')"
    using w(2,6,7) inv(3,4) last_len by (simp only: len) (simp add: prod_eq_iff)
  have c5: "\<forall>i < length ?bs'. int (length (?bs' ! i)) = BUFFER_BLOCK_SIZE ! min i 16"
    using inv(5) nth_len by (simp only: len) simp
  have c6: "allocated buf' \<le> PY_SSIZE_T_MAX" using b'(2) inv(6) by simp
  show ?case
    unfolding buffer_inv_def b'(1) option.case using c1 c2 c3 c4 c5 c6 by blast
next
  case (reach_grow buf nxt w buf' avail_out' nxt' w')
  from Grow_success [OF reach_grow.hyps(2)] obtain bs g where g:
    "blocks buf = Some bs"
    "buf' = buf\<lparr>blocks := Some (bs @ [fresh g (nat (BUFFER_BLOCK_SIZE ! min (length bs) 16))]),
                               allocated := allocated buf + BUFFER_BLOCK_SIZE ! min (length bs) 16\<rparr>"
    "allocated buf + BUFFER_BLOCK_SIZE ! min (length bs) 16 \<le> PY_SSIZE_T_MAX"
    "avail_out' = nat (BUFFER_BLOCK_SIZE ! min (length bs) 16)"
    "nxt' = (length bs, 0)" by blast
  from reach_grow.IH g(1) have inv: "bs \<noteq> []" "allocated buf = capacities bs"
    "\<forall>i < length bs. int (length (bs ! i)) = BUFFER_BLOCK_SIZE ! min i 16"
    by (simp_all add: buffer_inv_def)
  have pos: "0 < BUFFER_BLOCK_SIZE ! min (length bs) 16"
    by (rule BUFFER_BLOCK_SIZE_pos) simp
  with inv g show ?case
    by (auto simp: buffer_inv_def capacities_def nth_append less_Suc_eq)
qed

lemma reachable_facts:
  assumes "reachable buf avail_out nxt" "blocks buf = Some bs"
  shows "bs \<noteq> []" "allocated buf = capacities bs" "allocated buf \<le> PY_SSIZE_T_MAX"
    "avail_out \<le> length (last bs)" "nxt = (length bs - 1, length (last bs) - avail_out)"
    "\<And>i. i < length bs \<Longrightarrow> int (length (bs ! i)) = BUFFER_BLOCK_SIZE ! min i 16"
  using reachable_inv [OF assms(1)] assms(2) by (simp_all add: buffer_inv_def)

lemma logical_stream_Cons:
  "rest \<noteq> [] \<Longrightarrow> logical_stream (block # rest) avail_out = block @ logical_stream rest avail_out"
  by (simp add: logical_stream_def)

lemma last_le_sum_list: "bs \<noteq> [] \<Longrightarrow> length (last bs) \<le> sum_list (map length bs)"
  by (induction bs) auto

lemma length_logical_stream:
  "bs \<noteq> [] \<Longrightarrow> avail_out \<le> length (last bs)
   \<Longrightarrow> length (logical_stream bs avail_out) = sum_list (map length bs) - avail_out"
proof (induction bs)
  case Nil
  then show ?case by simp
next
  case (Cons b bs)
  show ?case
  proof (cases "bs = []")
    case True
    with Cons.prems show ?thesis by (simp add: logical_stream_def)
  next
    case False
    with Cons last_le_sum_list [of bs] show ?thesis
      by (simp add: logical_stream_Cons)
  qed
qed

lemma copy_blocks_correct:
  assumes "bs \<noteq> []" "avail_out \<le> length (last bs)" "length (last bs) < 2 ^ 64"
    and "length result = offset + sum_list (map length bs) - avail_out"
  shows "copy_blocks result offset bs avail_out = Ret (take offset result @ logical_stream bs avail_out)"
  using assms
proof (induction result offset bs avail_out rule: copy_blocks.induct)
  case (1 result offset avail_out)
  then show ?case by simp
next
  case (2 result offset block avail_out)
  have n: "nat ((int (length block) - int avail_out) mod 2 ^ 64) = length block - avail_out"
    using 2(2,3) by (simp add: nat_diff_distrib' flip: of_nat_diff)
  have "copy_blocks result offset [block] avail_out
          = memcpy result offset block (length block - avail_out)"
    by (simp only: copy_blocks.simps n)
  also have "\<dots> = Ret (take offset result @ logical_stream [block] avail_out)"
    using 2(2,4) by (simp add: memcpy_def logical_stream_def)
  finally show ?case .
next
  case (3 result offset block v va avail_out)
  let ?rest = "v # va"
  let ?r = "take offset result @ take (length block) block @ drop (offset + length block) result"
  have le: "avail_out \<le> sum_list (map length ?rest)"
    using 3(3) last_le_sum_list [of ?rest] by simp
  have len: "length result = offset + length block + sum_list (map length ?rest) - avail_out"
    using 3(5) by simp
  have m: "memcpy result offset block (length block) = Ret ?r"
    using le len by (simp add: memcpy_def)
  have lr: "length ?r = (offset + length block) + sum_list (map length ?rest) - avail_out"
    using le len by simp
  have "copy_blocks ?r (offset + length block) ?rest avail_out
          = Ret (take (offset + length block) ?r @ logical_stream ?rest avail_out)"
    using 3(1) [OF m] 3(3,4) lr by simp
  moreover have "take (offset + length block) ?r = take offset result @ block"
    using le len by simp
  ultimately show ?case
    using m by (simp add: logical_stream_Cons)
qed

lemma to_ssize_t_id: "0 \<le> x \<Longrightarrow> x < 2 ^ 63 \<Longrightarrow> to_ssize_t x = x"
  by (simp add: to_ssize_t_def)

lemma Finish_reachable:
  assumes "reachable buf avail_out nxt" "blocks buf = Some bs"
    and "next_alloc w = (Memory g, w1)"
  shows "BlocksOutputBuffer_Finish buf avail_out w
           = (Ret (Some (logical_stream bs avail_out), buf\<lparr>blocks := None\<rparr>),
              called (Call_Finish avail_out True) w1)"
proof -
  note f = reachable_facts [OF assms(1,2)]
  have le: "avail_out \<le> sum_list (map length bs)"
    using f(1,4) last_le_sum_list [of bs] by simp
  have sz: "to_ssize_t (allocated buf - int avail_out) = int (sum_list (map length bs) - avail_out)"
    using le f(2,3) by (subst to_ssize_t_id) (simp_all add: capacities_def PY_SSIZE_T_MAX_def)
  have alloc: "PyBytes_FromStringAndSize (to_ssize_t (allocated buf - int avail_out)) w
                 = (Some (fresh g (sum_list (map length bs) - avail_out)), w1)"
    unfolding sz using assms(3) by (simp add: PyBytes_FromStringAndSize_def)
  have "int (length (last bs)) \<le> 268435456"
    using f(1) f(6) [of "length bs - 1"] BUFFER_BLOCK_SIZE_le [of "min (length bs - 1) 16"]
    by (simp add: last_conv_nth)
  then have small: "length (last bs) < 2 ^ 64" by simp
  have "copy_blocks (fresh g (sum_list (map length bs) - avail_out)) 0 bs avail_out
          = Ret (take 0 (fresh g (sum_list (map length bs) - avail_out)) @ logical_stream bs avail_out)"
    by (rule copy_blocks_correct [OF f(1) f(4) small]) simp
  then show ?thesis
    using f(1) by (simp add: BlocksOutputBuffer_Finish_def alloc assms(2))
qed

subsection \<open>The example buffers are reachable\<close>

lemma next_alloc_world0: "next_alloc world0 = (Memory (\<lambda>_. 0), world0)"
  by (simp add: next_alloc_def world0_def)

lemma InitAndGrow_world0:
  "BlocksOutputBuffer_InitAndGrow local_buffer 0 (0, 0) world0
     = ((0, buffer_fresh, 32768, (0, 0)), called (Call_InitAndGrow 0) world0)"
  by (simp add: BlocksOutputBuffer_InitAndGrow_def PyBytes_FromStringAndSize_def PyList_New_def
      next_alloc_world0 BUFFER_BLOCK_SIZE_def KB_def local_buffer_def buffer_fresh_def)

lemma reachable_buffer_fresh: "reachable buffer_fresh 32768 (0, 0)"
  using InitAndGrow_world0 by (rule reach_init)

lemma reachable_buffer_123: "reachable buffer_123 32765 (0, 3)"
proof -
  have "write_out [1, 2, 3] buffer_fresh 32768 (0, 0) = Ret (buffer_123, 32765, (0, 3))"
    by (simp add: write_out_def buffer_fresh_def buffer_123_def numeral_3_eq_3)
  with reachable_buffer_fresh show ?thesis by (rule reach_write)
qed

lemma reachable_buffer_full: "reachable (buffer_full g) 0 (0, 32768)"
proof -
  have "write_out (fresh g 32768) buffer_fresh 32768 (0, 0) = Ret (buffer_full g, 0, (0, 32768))"
    by (simp add: write_out_def buffer_fresh_def buffer_full_def)
  with reachable_buffer_fresh show ?thesis by (rule reach_write)
qed

lemma Grow_buffer_full:
  "BlocksOutputBuffer_Grow (buffer_full g) 0 (0, 32768) world0
     = (Ret (0, buffer_grown g, 65536, (1, 0)), called (Call_Grow 0 65536) world0)"
  by (simp add: BlocksOutputBuffer_Grow_def PyBytes_FromStringAndSize_def PyList_Append_def
      next_alloc_world0 BUFFER_BLOCK_SIZE_def KB_def buffer_full_def buffer_grown_def
      PY_SSIZE_T_MAX_def Let_def)

lemma reachable_buffer_grown: "reachable (buffer_grown g) 65536 (1, 0)"
  using reachable_buffer_full Grow_buffer_full by (rule reach_grow)

lemma next_alloc_world_nomem:
  "next_alloc world_nomem = (NoMemory, world0)"
  by (simp add: next_alloc_def world_nomem_def world0_def)

lemma Grow_world_nomem:
  "BlocksOutputBuffer_Grow (buffer_full g) 0 (0, 32768) world_nomem
     = (Ret (-1, buffer_full g\<lparr>blocks := None\<rparr>, 0, (0, 32768)),
        called (Call_Grow (-1) 0)
          (PyErr_SetString MemoryError ''Unable to allocate output buffer.'' (PyErr_NoMemory world0)))"
  by (simp add: BlocksOutputBuffer_Grow_def PyBytes_FromStringAndSize_def
      next_alloc_world_nomem BUFFER_BLOCK_SIZE_def KB_def buffer_full_def Let_def)

lemma Finish_world_nomem:
  "BlocksOutputBuffer_Finish (buffer_full g) 0 world_nomem
     = (Ret (None, buffer_full g\<lparr>blocks := None\<rparr>),
        called (Call_Finish 0 False)
          (PyErr_SetString MemoryError ''Unable to allocate output buffer.'' (PyErr_NoMemory world0)))"
  by (simp add: BlocksOutputBuffer_Finish_def PyBytes_FromStringAndSize_def
      next_alloc_world_nomem buffer_full_def to_ssize_t_def)

subsection \<open>C1: what finish returns\<close>

text \<open>
  C1. In every reachable state of the buffer, with chunk list \<open>bs\<close> and window
  \<open>avail_out\<close> (which is at most the capacity of the last chunk), and when the
  allocation of the result succeeds, \<^verbatim>\<open>BlocksOutputBuffer_Finish\<close> returns one
  bytes object: every chunk but the last in full, followed by the last chunk without its
  \<open>avail_out\<close> unused bytes. Its length is \<open>allocated - avail_out\<close>, the chunk list
  is released (the pointer is NULL afterwards) and no exception is set. With a single chunk
  and \<open>avail_out\<close> equal to its capacity the result is the empty bytes object.
\<close>

theorem finish_returns_logical_stream:
  assumes "reachable buf avail_out nxt" and "blocks buf = Some bs"
    and "fst (next_alloc w) \<noteq> NoMemory"
  shows "avail_out \<le> length (last bs)
       \<and> fst (BlocksOutputBuffer_Finish buf avail_out w)
           = Ret (Some (concat (butlast bs) @ take (length (last bs) - avail_out) (last bs)),
                  buf\<lparr>blocks := None\<rparr>)
       \<and> int (length (concat (butlast bs) @ take (length (last bs) - avail_out) (last bs)))
           = allocated buf - int avail_out
       \<and> err (snd (BlocksOutputBuffer_Finish buf avail_out w)) = err w
       \<and> (length bs = 1 \<and> avail_out = length (last bs)
            \<longrightarrow> fst (BlocksOutputBuffer_Finish buf avail_out w)
                  = Ret (Some [], buf\<lparr>blocks := None\<rparr>))"
proof -
  note f = reachable_facts [OF assms(1,2)]
  obtain g w1 where a: "next_alloc w = (Memory g, w1)"
    using assms(3) by (cases "next_alloc w") (auto intro: alloc.exhaust)
  have e: "err w1 = err w"
    using a by (auto simp: next_alloc_def split: list.splits)
  note fin = Finish_reachable [OF assms(1,2) a]
  have le: "avail_out \<le> sum_list (map length bs)"
    using f(1,4) last_le_sum_list [of bs] by simp
  have len: "int (length (logical_stream bs avail_out)) = allocated buf - int avail_out"
    using length_logical_stream [OF f(1) f(4)] le f(2) by (simp add: capacities_def)
  have z: "logical_stream bs avail_out = []" if "length bs = 1" "avail_out = length (last bs)"
    using that by (cases bs) (simp_all add: logical_stream_def)
  have r: "fst (BlocksOutputBuffer_Finish buf avail_out w)
             = Ret (Some (logical_stream bs avail_out), buf\<lparr>blocks := None\<rparr>)"
    and e': "err (snd (BlocksOutputBuffer_Finish buf avail_out w)) = err w"
    using fin e by (simp_all add: called_def)
  have r0: "length bs = 1 \<and> avail_out = length (last bs)
            \<longrightarrow> fst (BlocksOutputBuffer_Finish buf avail_out w) = Ret (Some [], buf\<lparr>blocks := None\<rparr>)"
  proof
    assume h: "length bs = 1 \<and> avail_out = length (last bs)"
    then have "logical_stream bs avail_out = []" using z by blast
    with r show "fst (BlocksOutputBuffer_Finish buf avail_out w) = Ret (Some [], buf\<lparr>blocks := None\<rparr>)"
      by (simp only:)
  qed
  show ?thesis
    using f(4) r len e' r0 unfolding logical_stream_def by blast
qed

theorem finish_returns_logical_stream_witness:
  "reachable buffer_123 32765 (0, 3)
   \<and> blocks buffer_123 = Some [[1, 2, 3] @ drop 3 (fresh (\<lambda>_. 0) 32768)]
   \<and> fst (next_alloc world0) \<noteq> NoMemory
   \<and> fst (BlocksOutputBuffer_Finish buffer_123 32765 world0)
       = Ret (Some [1, 2, 3], buffer_123\<lparr>blocks := None\<rparr>)
   \<and> allocated buffer_123 - 32765 = 3"
proof -
  have b: "blocks buffer_123 = Some [[1, 2, 3] @ drop 3 (fresh (\<lambda>_. 0) 32768)]"
    by (simp add: buffer_123_def)
  have a: "fst (next_alloc world0) \<noteq> NoMemory"
    by (simp add: next_alloc_world0)
  show ?thesis
    using finish_returns_logical_stream [OF reachable_buffer_123 b a] reachable_buffer_123 b a
    by (simp add: buffer_123_def)
qed

subsection \<open>C6: the capacity of the i-th chunk\<close>

text \<open>
  C6. In every reachable state of the buffer the chunk with index \<open>i\<close> (the first one
  allocated by \<^verbatim>\<open>InitAndGrow\<close>, the later ones by \<^verbatim>\<open>Grow\<close>) has the capacity
  \<open>BUFFER_BLOCK_SIZE ! min i 16\<close>, where the table is 32Ki, 64Ki, 256Ki, 1Mi, 4Mi, 8Mi,
  16Mi, 16Mi, 32Mi, 32Mi, 32Mi, 32Mi, 64Mi, 64Mi, 128Mi, 128Mi, 256Mi bytes; from index 16
  on every chunk has 256Mi bytes.
\<close>

theorem chunk_capacity_follows_schedule:
  assumes "reachable buf avail_out nxt" and "blocks buf = Some bs" and "i < length bs"
  shows "int (length (bs ! i)) = BUFFER_BLOCK_SIZE ! min i (length BUFFER_BLOCK_SIZE - 1)
       \<and> BUFFER_BLOCK_SIZE =
           [32768, 65536, 262144, 1048576, 4194304, 8388608, 16777216, 16777216,
            33554432, 33554432, 33554432, 33554432, 67108864, 67108864, 134217728, 134217728,
            268435456]
       \<and> (16 \<le> i \<longrightarrow> length (bs ! i) = 268435456)"
proof -
  have c: "int (length (bs ! i)) = BUFFER_BLOCK_SIZE ! min i 16"
    using reachable_facts(6) [OF assms(1,2) assms(3)] .
  have l: "BUFFER_BLOCK_SIZE ! 16 = 268435456"
    by (simp add: BUFFER_BLOCK_SIZE_values)
  have "16 \<le> i \<longrightarrow> length (bs ! i) = 268435456"
  proof
    assume "16 \<le> i"
    then have "min i 16 = 16" by simp
    with c l have "int (length (bs ! i)) = 268435456" by simp
    then show "length (bs ! i) = 268435456" by linarith
  qed
  with c show ?thesis
    using BUFFER_BLOCK_SIZE_values by simp
qed

theorem chunk_capacity_follows_schedule_witness:
  "reachable (buffer_grown (\<lambda>_. 7)) 65536 (1, 0)
   \<and> blocks (buffer_grown (\<lambda>_. 7)) = Some [fresh (\<lambda>_. 7) 32768, fresh (\<lambda>_. 0) 65536]
   \<and> (1::nat) < length [fresh (\<lambda>_. 7) 32768, fresh (\<lambda>_. 0) 65536]
   \<and> int (length ([fresh (\<lambda>_. 7) 32768, fresh (\<lambda>_. 0) 65536] ! 1)) = BUFFER_BLOCK_SIZE ! 1
   \<and> BUFFER_BLOCK_SIZE ! 1 = 65536"
proof -
  have b: "blocks (buffer_grown (\<lambda>_. 7)) = Some [fresh (\<lambda>_. 7) 32768, fresh (\<lambda>_. 0) 65536]"
    by (simp add: buffer_grown_def)
  have i: "(1::nat) < length [fresh (\<lambda>_. 7) 32768, fresh (\<lambda>_. 0) 65536]" by simp
  show ?thesis
    using chunk_capacity_follows_schedule [OF reachable_buffer_grown b i] reachable_buffer_grown b
    by (simp add: BUFFER_BLOCK_SIZE_values)
qed

subsection \<open>C7: the invariant of the buffer\<close>

text \<open>
  C7. In every state the buffer reaches (after \<^verbatim>\<open>InitAndGrow\<close>, after the engine
  wrote, after each successful \<^verbatim>\<open>Grow\<close>) \<open>allocated\<close> is the sum of the
  capacities of the chunks, the window is at most the last chunk, and the bytes written so
  far are \<open>allocated - avail_out\<close> many. A successful \<^verbatim>\<open>InitAndGrow\<close> returns a
  window that is the whole first chunk. A successful \<^verbatim>\<open>Grow\<close>, called with
  \<open>avail_out = 0\<close>, does not lower \<open>allocated\<close>, returns a window that is the whole new
  chunk, and leaves the bytes written so far as they were: all chunks before the new one,
  each in full.
\<close>

theorem buffer_invariant_after_growth:
  "(reachable buf avail_out nxt \<and> blocks buf = Some bs
      \<longrightarrow> bs \<noteq> [] \<and> allocated buf = capacities bs \<and> avail_out \<le> length (last bs)
          \<and> int (length (logical_stream bs avail_out)) = allocated buf - int avail_out)
   \<and> (BlocksOutputBuffer_InitAndGrow buf0 avail0 nxt0 w = ((0, buf1, avail1, nxt1), w1)
      \<longrightarrow> reachable buf1 avail1 nxt1
          \<and> (\<exists>c. blocks buf1 = Some [c] \<and> avail1 = length c \<and> nxt1 = (0, 0)))
   \<and> (reachable buf2 0 nxt2 \<and> blocks buf2 = Some bs2
        \<and> BlocksOutputBuffer_Grow buf2 0 nxt2 w2 = (Ret (0, buf3, avail3, nxt3), w3)
      \<longrightarrow> reachable buf3 avail3 nxt3
          \<and> allocated buf2 \<le> allocated buf3
          \<and> (\<exists>c. blocks buf3 = Some (bs2 @ [c]) \<and> avail3 = length c \<and> nxt3 = (length bs2, 0)
                 \<and> logical_stream bs2 0 = concat bs2
                 \<and> logical_stream (bs2 @ [c]) avail3 = concat bs2))"
proof (intro conjI impI)
  assume h: "reachable buf avail_out nxt \<and> blocks buf = Some bs"
  note f = reachable_facts [OF conjunct1 [OF h] conjunct2 [OF h]]
  have le: "avail_out \<le> sum_list (map length bs)"
    using f(1,4) last_le_sum_list [of bs] by simp
  show "bs \<noteq> []" "allocated buf = capacities bs" "avail_out \<le> length (last bs)"
    using f by simp_all
  show "int (length (logical_stream bs avail_out)) = allocated buf - int avail_out"
    using length_logical_stream [OF f(1) f(4)] le f(2) by (simp add: capacities_def)
next
  assume h: "BlocksOutputBuffer_InitAndGrow buf0 avail0 nxt0 w = ((0, buf1, avail1, nxt1), w1)"
  then show "reachable buf1 avail1 nxt1" by (rule reach_init)
  from InitAndGrow_success [OF h]
  show "\<exists>c. blocks buf1 = Some [c] \<and> avail1 = length c \<and> nxt1 = (0, 0)" by auto
next
  assume h: "reachable buf2 0 nxt2 \<and> blocks buf2 = Some bs2
        \<and> BlocksOutputBuffer_Grow buf2 0 nxt2 w2 = (Ret (0, buf3, avail3, nxt3), w3)"
  then have r: "reachable buf2 0 nxt2" and b: "blocks buf2 = Some bs2"
    and g: "BlocksOutputBuffer_Grow buf2 0 nxt2 w2 = (Ret (0, buf3, avail3, nxt3), w3)"
    by simp_all
  show "reachable buf3 avail3 nxt3" using r g by (rule reach_grow)
  from Grow_success [OF g] b obtain c where c:
    "buf3 = buf2\<lparr>blocks := Some (bs2 @ [fresh c (nat (BUFFER_BLOCK_SIZE ! min (length bs2) 16))]),
                  allocated := allocated buf2 + BUFFER_BLOCK_SIZE ! min (length bs2) 16\<rparr>"
    "avail3 = nat (BUFFER_BLOCK_SIZE ! min (length bs2) 16)"
    "nxt3 = (length bs2, 0)" by auto
  have pos: "0 < BUFFER_BLOCK_SIZE ! min (length bs2) 16"
    by (rule BUFFER_BLOCK_SIZE_pos) simp
  show "allocated buf2 \<le> allocated buf3" using c(1) pos by simp
  have ne: "bs2 \<noteq> []" using reachable_facts(1) [OF r b] .
  have s: "logical_stream bs2 0 = concat bs2"
  proof -
    have "concat bs2 = concat (butlast bs2 @ [last bs2])" using ne by simp
    then show ?thesis by (simp add: logical_stream_def)
  qed
  show "\<exists>c. blocks buf3 = Some (bs2 @ [c]) \<and> avail3 = length c \<and> nxt3 = (length bs2, 0)
                 \<and> logical_stream bs2 0 = concat bs2
                 \<and> logical_stream (bs2 @ [c]) avail3 = concat bs2"
    using c s by (intro exI [of _ "fresh c (nat (BUFFER_BLOCK_SIZE ! min (length bs2) 16))"])
      (simp add: logical_stream_def)
qed

theorem buffer_invariant_after_growth_witness:
  "(reachable buffer_123 32765 (0, 3)
      \<and> blocks buffer_123 = Some [[1, 2, 3] @ drop 3 (fresh (\<lambda>_. 0) 32768)])
   \<and> allocated buffer_123 = capacities [[1, 2, 3] @ drop 3 (fresh (\<lambda>_. 0) 32768)]
   \<and> int (length (logical_stream [[1, 2, 3] @ drop 3 (fresh (\<lambda>_. 0) 32768)] 32765))
        = allocated buffer_123 - 32765
   \<and> BlocksOutputBuffer_InitAndGrow local_buffer 0 (0, 0) world0
        = ((0, buffer_fresh, 32768, (0, 0)), called (Call_InitAndGrow 0) world0)
   \<and> reachable buffer_fresh 32768 (0, 0)
   \<and> (reachable (buffer_full (\<lambda>_. 7)) 0 (0, 32768)
        \<and> blocks (buffer_full (\<lambda>_. 7)) = Some [fresh (\<lambda>_. 7) 32768]
        \<and> BlocksOutputBuffer_Grow (buffer_full (\<lambda>_. 7)) 0 (0, 32768) world0
            = (Ret (0, buffer_grown (\<lambda>_. 7), 65536, (1, 0)), called (Call_Grow 0 65536) world0))
   \<and> reachable (buffer_grown (\<lambda>_. 7)) 65536 (1, 0)
   \<and> allocated (buffer_full (\<lambda>_. 7)) \<le> allocated (buffer_grown (\<lambda>_. 7))"
proof -
  have b1: "blocks buffer_123 = Some [[1, 2, 3] @ drop 3 (fresh (\<lambda>_. 0) 32768)]"
    by (simp add: buffer_123_def)
  have b2: "blocks (buffer_full (\<lambda>_. 7)) = Some [fresh (\<lambda>_. 7) 32768]"
    by (simp add: buffer_full_def)
  show ?thesis
    using buffer_invariant_after_growth
      [where buf = buffer_123 and avail_out = 32765 and nxt = "(0, 3)"
         and bs = "[[1, 2, 3] @ drop 3 (fresh (\<lambda>_. 0) 32768)]"
         and ?buf0.0 = local_buffer and ?avail0.0 = 0 and ?nxt0.0 = "(0, 0)" and w = world0
         and ?buf1.0 = buffer_fresh and ?avail1.0 = 32768 and ?nxt1.0 = "(0, 0)"
         and ?w1.0 = "called (Call_InitAndGrow 0) world0"
         and ?buf2.0 = "buffer_full (\<lambda>_. 7)" and ?nxt2.0 = "(0, 32768)"
         and ?bs2.0 = "[fresh (\<lambda>_. 7) 32768]" and ?w2.0 = world0
         and ?buf3.0 = "buffer_grown (\<lambda>_. 7)" and ?avail3.0 = 65536 and ?nxt3.0 = "(1, 0)"
         and ?w3.0 = "called (Call_Grow 0 65536) world0"]
      reachable_buffer_123 b1 InitAndGrow_world0 reachable_buffer_full b2 Grow_buffer_full
    by simp
qed

subsection \<open>C10: methods of an object without engine\<close>

text \<open>
  C10. When the engine handle of a \<^verbatim>\<open>Compressor\<close> or \<^verbatim>\<open>Decompressor\<close> is NULL
  (the instance could not be created), each of \<^verbatim>\<open>process\<close>, \<^verbatim>\<open>flush\<close>,
  \<^verbatim>\<open>finish\<close> of the compressor and \<^verbatim>\<open>process\<close>, \<^verbatim>\<open>is_finished\<close> of the
  decompressor returns NULL with an exception set (\<^verbatim>\<open>brotli.error\<close> when the
  arguments are well-formed) and makes no call to the engine or to the buffer.
\<close>

theorem null_engine_handle_is_rejected:
  "(\<exists>w'. brotli_Compressor_process fuel E None args w = Some (Ret (None, None), w')
         \<and> (\<exists>e m. err w' = Some (e, m)) \<and> calls w' = calls w
         \<and> ((\<exists>input. args = [PyBytes input]) \<longrightarrow> (\<exists>m. err w' = Some (BrotliError, m))))
   \<and> (\<exists>w'. brotli_Compressor_flush fuel E None w = Some (Ret (None, None), w')
         \<and> (\<exists>m. err w' = Some (BrotliError, m)) \<and> calls w' = calls w)
   \<and> (\<exists>w'. brotli_Compressor_finish fuel E None w = Some (Ret (None, None), w')
         \<and> (\<exists>m. err w' = Some (BrotliError, m)) \<and> calls w' = calls w)
   \<and> (\<exists>w'. brotli_Decompressor_process fuel D None args w = Some (Ret (None, None), w')
         \<and> (\<exists>e m. err w' = Some (e, m)) \<and> calls w' = calls w
         \<and> ((\<exists>input. args = [PyBytes input]) \<longrightarrow> (\<exists>m. err w' = Some (BrotliError, m))))
   \<and> (\<exists>w'. brotli_Decompressor_is_finished D None w = (Ret None, w')
         \<and> (\<exists>m. err w' = Some (BrotliError, m)) \<and> calls w' = calls w)"
proof (intro conjI)
  show "\<exists>w'. brotli_Compressor_process fuel E None args w = Some (Ret (None, None), w')
         \<and> (\<exists>e m. err w' = Some (e, m)) \<and> calls w' = calls w
         \<and> ((\<exists>input. args = [PyBytes input]) \<longrightarrow> (\<exists>m. err w' = Some (BrotliError, m)))"
    by (auto simp: brotli_Compressor_process_def split: list.splits pyobj.splits)
  show "\<exists>w'. brotli_Compressor_flush fuel E None w = Some (Ret (None, None), w')
         \<and> (\<exists>m. err w' = Some (BrotliError, m)) \<and> calls w' = calls w"
    by (simp add: brotli_Compressor_flush_def)
  show "\<exists>w'. brotli_Compressor_finish fuel E None w = Some (Ret (None, None), w')
         \<and> (\<exists>m. err w' = Some (BrotliError, m)) \<and> calls w' = calls w"
    by (simp add: brotli_Compressor_finish_def)
  show "\<exists>w'. brotli_Decompressor_process fuel D None args w = Some (Ret (None, None), w')
         \<and> (\<exists>e m. err w' = Some (e, m)) \<and> calls w' = calls w
         \<and> ((\<exists>input. args = [PyBytes input]) \<longrightarrow> (\<exists>m. err w' = Some (BrotliError, m)))"
    by (auto simp: brotli_Decompressor_process_def split: list.splits pyobj.splits)
  show "\<exists>w'. brotli_Decompressor_is_finished D None w = (Ret None, w')
         \<and> (\<exists>m. err w' = Some (BrotliError, m)) \<and> calls w' = calls w"
    by (simp add: brotli_Decompressor_is_finished_def)
qed

theorem null_engine_handle_is_rejected_witness:
  "brotli_Compressor_process 5 stored_encoder None [PyBytes [1, 2]] world0
     = Some (Ret (None, None),
         PyErr_SetString BrotliError
           ''BrotliEncoderCompressStream failed while processing the stream'' world0)
   \<and> brotli_Decompressor_process 5 stored_decoder None [PyBytes [1, 2]] world0
     = Some (Ret (None, None),
         PyErr_SetString BrotliError
           ''BrotliDecoderDecompressStream failed while processing the stream'' world0)
   \<and> (\<exists>w'. brotli_Compressor_process 5 stored_encoder None [PyBytes [1, 2]] world0
            = Some (Ret (None, None), w') \<and> calls w' = calls world0
            \<and> (\<exists>m. err w' = Some (BrotliError, m)))"
  using null_engine_handle_is_rejected
    [of 5 stored_encoder "[PyBytes [1, 2]]" world0 stored_decoder]
  by (auto simp: brotli_Compressor_process_def brotli_Decompressor_process_def)

subsection \<open>C5: constructing a compressor with an invalid parameter\<close>

lemma mode_convertor_cases:
  "valid_mode obj \<Longrightarrow> \<exists>v. mode_convertor obj w = (Some v, w)"
  "\<not> valid_mode obj \<Longrightarrow> \<exists>m. mode_convertor obj w = (None, PyErr_SetString BrotliError m w)"
  by (auto simp: valid_mode_def mode_convertor_def PyInt_Check_def as_bounded_int_def
      PyInt_AsLong_def BROTLI_MODE_GENERIC_def BROTLI_MODE_TEXT_def BROTLI_MODE_FONT_def Let_def
      split: pyobj.splits if_splits)

lemma quality_convertor_cases:
  "valid_quality obj \<Longrightarrow> \<exists>v. quality_convertor obj w = (Some v, w)"
  "\<not> valid_quality obj \<Longrightarrow> \<exists>m. quality_convertor obj w = (None, PyErr_SetString BrotliError m w)"
  by (auto simp: valid_quality_def quality_convertor_def PyInt_Check_def as_bounded_int_def
      PyInt_AsLong_def Let_def split: pyobj.splits if_splits)

lemma lgwin_convertor_cases:
  "valid_lgwin obj \<Longrightarrow> \<exists>v. lgwin_convertor obj w = (Some v, w)"
  "\<not> valid_lgwin obj \<Longrightarrow> \<exists>m. lgwin_convertor obj w = (None, PyErr_SetString BrotliError m w)"
  by (auto simp: valid_lgwin_def lgwin_convertor_def PyInt_Check_def as_bounded_int_def
      PyInt_AsLong_def Let_def split: pyobj.splits if_splits)

lemma lgblock_convertor_cases:
  "valid_lgblock obj \<Longrightarrow> \<exists>v. lgblock_convertor obj w = (Some v, w)"
  "\<not> valid_lgblock obj \<Longrightarrow> \<exists>m. lgblock_convertor obj w = (None, PyErr_SetString BrotliError m w)"
  by (auto simp: valid_lgblock_def lgblock_convertor_def PyInt_Check_def as_bounded_int_def
      PyInt_AsLong_def Let_def split: pyobj.splits if_splits)

lemma convert_mode:
  "valid_arg valid_mode arg \<Longrightarrow> \<exists>v. convert_arg mode_convertor arg w = (Some v, w)"
  "\<not> valid_arg valid_mode arg
   \<Longrightarrow> \<exists>m. convert_arg mode_convertor arg w = (None, PyErr_SetString BrotliError m w)"
  using mode_convertor_cases
  by (auto simp: valid_arg_def convert_arg_def split: option.splits)

lemma convert_quality:
  "valid_arg valid_quality arg \<Longrightarrow> \<exists>v. convert_arg quality_convertor arg w = (Some v, w)"
  "\<not> valid_arg valid_quality arg
   \<Longrightarrow> \<exists>m. convert_arg quality_convertor arg w = (None, PyErr_SetString BrotliError m w)"
  using quality_convertor_cases
  by (auto simp: valid_arg_def convert_arg_def split: option.splits)

lemma convert_lgwin:
  "valid_arg valid_lgwin arg \<Longrightarrow> \<exists>v. convert_arg lgwin_convertor arg w = (Some v, w)"
  "\<not> valid_arg valid_lgwin arg
   \<Longrightarrow> \<exists>m. convert_arg lgwin_convertor arg w = (None, PyErr_SetString BrotliError m w)"
  using lgwin_convertor_cases
  by (auto simp: valid_arg_def convert_arg_def split: option.splits)

lemma convert_lgblock:
  "valid_arg valid_lgblock arg \<Longrightarrow> \<exists>v. convert_arg lgblock_convertor arg w = (Some v, w)"
  "\<not> valid_arg valid_lgblock arg
   \<Longrightarrow> \<exists>m. convert_arg lgblock_convertor arg w = (None, PyErr_SetString BrotliError m w)"
  using lgblock_convertor_cases
  by (auto simp: valid_arg_def convert_arg_def split: option.splits)

lemma parse_invalid:
  assumes "\<not> valid_Compressor_args args"
  shows "\<exists>m. parse_Compressor_args args w = (None, PyErr_SetString BrotliError m w)"
proof -
  note m = convert_mode [of "arg_mode args" w]
  note q = convert_quality [of "arg_quality args" w]
  note l = convert_lgwin [of "arg_lgwin args" w]
  note b = convert_lgblock [of "arg_lgblock args" w]
  show ?thesis
  proof (cases "valid_arg valid_mode (arg_mode args)")
    case False
    with m(2) show ?thesis by (auto simp: parse_Compressor_args_def)
  next
    case vm: True
    show ?thesis
    proof (cases "valid_arg valid_quality (arg_quality args)")
      case False
      with m(1) [OF vm] q(2) show ?thesis by (auto simp: parse_Compressor_args_def)
    next
      case vq: True
      show ?thesis
      proof (cases "valid_arg valid_lgwin (arg_lgwin args)")
        case False
        with m(1) [OF vm] q(1) [OF vq] l(2) show ?thesis
          by (auto simp: parse_Compressor_args_def)
      next
        case vl: True
        with assms vm vq have "\<not> valid_arg valid_lgblock (arg_lgblock args)"
          by (simp add: valid_Compressor_args_def)
        with m(1) [OF vm] q(1) [OF vq] l(1) [OF vl] b(2) show ?thesis
          by (auto simp: parse_Compressor_args_def)
      qed
    qed
  qed
qed

text \<open>
  C5 (amended). Constructing a compressor with a parameter outside its range (mode not
  GENERIC, TEXT or FONT; quality outside 0..11; lgwin outside 10..24; lgblock neither 0 nor
  in 16..24) or of a type other than int fails with \<^verbatim>\<open>brotli.error\<close>, provided the
  object itself could be allocated. No parameter is set on the engine. The engine instance
  is not spared: \<^verbatim>\<open>tp_new\<close> has asked for it before \<^verbatim>\<open>tp_init\<close> looks at the
  arguments, and it is destroyed when the rejected object is released.
\<close>

theorem invalid_argument_rejected_after_engine_creation:
  assumes "\<not> valid_Compressor_args args" and "fst (next_alloc w) \<noteq> NoMemory"
  shows "\<exists>w' created m. Compressor_call E args w = (Ret None, w')
           \<and> err w' = Some (BrotliError, m)
           \<and> calls w' = calls w @ [Call_EncoderCreateInstance created, Call_EncoderDestroyInstance]"
proof -
  obtain g w1 where a: "next_alloc w = (Memory g, w1)"
    using assms(2) by (cases "next_alloc w") (auto intro: alloc.exhaust)
  have c1: "calls w1 = calls w"
    using a by (auto simp: next_alloc_def split: list.splits)
  obtain enc w2 where cr: "BrotliEncoderCreateInstance E w1 = (enc, w2)"
    by (cases "BrotliEncoderCreateInstance E w1")
  have c2: "\<exists>created. calls w2 = calls w @ [Call_EncoderCreateInstance created]"
    using cr c1
    by (auto simp: BrotliEncoderCreateInstance_def next_alloc_def split: list.splits alloc.splits)
  obtain m where p: "parse_Compressor_args args w2 = (None, PyErr_SetString BrotliError m w2)"
    using parse_invalid [OF assms(1)] by blast
  have "Compressor_call E args w
          = (Ret None, brotli_Compressor_dealloc enc (PyErr_SetString BrotliError m w2))"
    by (simp add: Compressor_call_def brotli_Compressor_new_def a cr brotli_Compressor_init_def p)
  with c2 show ?thesis
    by (auto simp: brotli_Compressor_dealloc_def BrotliEncoderDestroyInstance_def)
qed

theorem invalid_argument_rejected_after_engine_creation_witness:
  "\<not> valid_Compressor_args
       \<lparr>arg_mode = None, arg_quality = None, arg_lgwin = Some (PyLong 9), arg_lgblock = None\<rparr>
   \<and> fst (next_alloc world0) \<noteq> NoMemory
   \<and> Compressor_call stored_encoder
       \<lparr>arg_mode = None, arg_quality = None, arg_lgwin = Some (PyLong 9), arg_lgblock = None\<rparr> world0
     = (Ret None,
        \<lparr>heap = [], err = Some (BrotliError, ''Invalid lgwin. Range is 10 to 24.''),
         calls = [Call_EncoderCreateInstance True, Call_EncoderDestroyInstance]\<rparr>)"
proof -
  have v: "\<not> valid_Compressor_args
       \<lparr>arg_mode = None, arg_quality = None, arg_lgwin = Some (PyLong 9), arg_lgblock = None\<rparr>"
    by (simp add: valid_Compressor_args_def valid_arg_def valid_lgwin_def)
  have a: "fst (next_alloc world0) \<noteq> NoMemory" by (simp add: next_alloc_world0)
  show ?thesis
    using invalid_argument_rejected_after_engine_creation [OF v a, of stored_encoder] v a
    by (simp add: Compressor_call_def brotli_Compressor_new_def next_alloc_world0
        BrotliEncoderCreateInstance_def brotli_Compressor_init_def parse_Compressor_args_def
        convert_arg_def lgwin_convertor_def PyInt_Check_def as_bounded_int_def PyInt_AsLong_def
        brotli_Compressor_dealloc_def BrotliEncoderDestroyInstance_def
        called_def PyErr_SetString_def world0_def next_alloc_def)
qed

text \<open>
  C5 as stated, that no engine allocation occurs, fails for quality 12: the call list
  shows the instance created and destroyed.
\<close>

theorem invalid_quality_creates_engine_counterexample:
  "Compressor_call stored_encoder
       \<lparr>arg_mode = None, arg_quality = Some (PyLong 12), arg_lgwin = None, arg_lgblock = None\<rparr> world0
     = (Ret None,
        \<lparr>heap = [], err = Some (BrotliError, ''Invalid quality. Range is 0 to 11.''),
         calls = [Call_EncoderCreateInstance True, Call_EncoderDestroyInstance]\<rparr>)
   \<and> Call_EncoderCreateInstance True \<in> set (calls (snd (Compressor_call stored_encoder
       \<lparr>arg_mode = None, arg_quality = Some (PyLong 12), arg_lgwin = None, arg_lgblock = None\<rparr> world0)))"
  by (simp add: Compressor_call_def brotli_Compressor_new_def next_alloc_world0
        BrotliEncoderCreateInstance_def brotli_Compressor_init_def parse_Compressor_args_def
        convert_arg_def quality_convertor_def PyInt_Check_def as_bounded_int_def PyInt_AsLong_def
        brotli_Compressor_dealloc_def BrotliEncoderDestroyInstance_def
        called_def PyErr_SetString_def world0_def next_alloc_def)

section \<open>Properties of the drivers\<close>

subsection \<open>The calls each function adds\<close>

lemma next_alloc_calls [simp]: "calls (snd (next_alloc w)) = calls w"
  by (auto simp: next_alloc_def split: list.splits)

lemma next_alloc_calls': "next_alloc w = (a, w1) \<Longrightarrow> w1 = w\<lparr>heap := tl (heap w)\<rparr>"
  by (auto simp: next_alloc_def split: list.splits)

lemma InitAndGrow_calls:
  assumes "BlocksOutputBuffer_InitAndGrow b0 a0 n0 w = ((rc, b, a, n), w')"
  shows "calls w' = calls w @ [Call_InitAndGrow rc] \<and> (rc = 0 \<or> rc = -1)"
  using assms
  by (auto simp: BlocksOutputBuffer_InitAndGrow_def PyBytes_FromStringAndSize_def PyList_New_def
        Let_def BUFFER_BLOCK_SIZE_def KB_def
      split: prod.splits option.splits alloc.splits bool.splits if_splits
      dest!: next_alloc_calls')

lemma Grow_calls:
  assumes "BlocksOutputBuffer_Grow b a n w = (Ret (rc, b', a', n'), w')"
  shows "calls w' = calls w @ [Call_Grow rc a'] \<and> (rc = 0 \<or> rc = -1) \<and> (rc = 0 \<longrightarrow> 0 < a')
         \<and> (rc = -1 \<longrightarrow> a' = a \<and> blocks b' = None)"
proof -
  obtain bs where bs: "blocks b = Some bs"
    using assms by (cases "blocks b") (simp_all add: BlocksOutputBuffer_Grow_def)
  have pos: "0 < BUFFER_BLOCK_SIZE ! min (length bs) 16"
    by (rule BUFFER_BLOCK_SIZE_pos) simp
  show ?thesis
    using assms bs pos
    by (auto simp: BlocksOutputBuffer_Grow_def PyBytes_FromStringAndSize_def PyList_Append_def
          Let_def min_def
        split: prod.splits option.splits alloc.splits if_splits
        dest!: next_alloc_calls')
qed

lemma Grow_allow_threads_Ret:
  "Grow_allow_threads b a n w = (Ret (rc, r), w')
     \<longleftrightarrow> BlocksOutputBuffer_Grow b a n w = (Ret (rc, r), w') \<and> 0 \<le> rc"
  by (auto simp: Grow_allow_threads_def split: prod.splits res.splits if_splits)

lemma Grow_allow_threads_failed:
  "BlocksOutputBuffer_Grow b a n w = (Ret (rc, r), w') \<Longrightarrow> rc < 0
     \<Longrightarrow> Grow_allow_threads b a n w = (Undefined, w')"
  by (simp add: Grow_allow_threads_def)

lemma grow_if_full_calls:
  assumes "grow_if_full s w = (Ret (rc, s'), w')"
  shows "available_in s' = available_in s \<and> next_in s' = next_in s
         \<and> ((available_out s \<noteq> 0 \<and> rc = 0 \<and> s' = s \<and> w' = w)
            \<or> (available_out s = 0 \<and> calls w' = calls w @ [Call_Grow rc (available_out s')]
                \<and> (rc = 0 \<and> 0 < available_out s' \<or> rc = -1 \<and> blocks (buffer s') = None)))"
proof (cases "available_out s = 0")
  case False
  with assms show ?thesis by (simp add: grow_if_full_def)
next
  case True
  with assms obtain b' a' n' where
    "Grow_allow_threads (buffer s) (available_out s) (next_out s) w = (Ret (rc, b', a', n'), w')"
    and s': "s' = s\<lparr>buffer := b', available_out := a', next_out := n'\<rparr>"
    by (auto simp: grow_if_full_def split: prod.splits res.splits)
  then have
    g: "BlocksOutputBuffer_Grow (buffer s) (available_out s) (next_out s) w = (Ret (rc, b', a', n'), w')"
    by (simp add: Grow_allow_threads_Ret)
  from Grow_calls [OF g] s' True show ?thesis by auto
qed

lemma grow_if_full_rc:
  assumes "grow_if_full s w = (Ret (rc, s'), w')"
  shows "rc = 0"
proof (cases "available_out s = 0")
  case False
  with assms show ?thesis by (simp add: grow_if_full_def)
next
  case True
  with assms obtain r where
    g: "Grow_allow_threads (buffer s) (available_out s) (next_out s) w = (Ret (rc, r), w')"
    by (auto simp: grow_if_full_def split: prod.splits res.splits)
  then have "0 \<le> rc" by (simp add: Grow_allow_threads_Ret)
  moreover obtain b' a' n' where "r = (b', a', n')" by (cases r)
  with g have "BlocksOutputBuffer_Grow (buffer s) (available_out s) (next_out s) w
      = (Ret (rc, b', a', n'), w')" by (simp add: Grow_allow_threads_Ret)
  from Grow_calls [OF this] have "rc = 0 \<or> rc = -1" by simp
  ultimately show ?thesis by auto
qed

lemma EncoderCompressStream_calls:
  assumes "BrotliEncoderCompressStream E enc op s w = (Ret (ok, enc', s'), w')"
  shows "calls w' = calls w @ [Call_EncoderCompressStream op ok (available_in s') (available_out s')]"
  using assms
  by (auto simp: BrotliEncoderCompressStream_def
      split: option.splits prod.splits if_splits res.splits)

lemma EncoderHasMoreOutput_calls:
  assumes "BrotliEncoderHasMoreOutput E enc w = (Ret pending, w')"
  shows "calls w' = calls w @ [Call_EncoderHasMoreOutput pending]"
  using assms by (auto simp: BrotliEncoderHasMoreOutput_def split: option.splits)

lemma Finish_calls:
  assumes "BlocksOutputBuffer_Finish b a w = (Ret (out, b'), w')"
  shows "calls w' = calls w @ [Call_Finish a (out \<noteq> None)]"
  using assms
  by (auto simp: BlocksOutputBuffer_Finish_def PyBytes_FromStringAndSize_def
      split: option.splits prod.splits if_splits res.splits alloc.splits
      dest!: next_alloc_calls')

lemma compress_stream_loop_protocol:
  assumes "compress_stream_loop fuel E op enc s w = Some (Ret (ok, enc', s'), w')"
  shows "\<exists>evs. calls w' = calls w @ evs
           \<and> (if ok then \<forall>b. compress_protocol op (evs @ [Call_Finish (available_out s') b])
               else compress_protocol op (evs @ [Call_CleanUp]))"
  using assms
proof (induction fuel arbitrary: enc s w)
  case 0
  then show ?case by simp
next
  case (Suc fuel)
  from Suc.prems obtain ok1 enc1 s1 w1 where
    st: "BrotliEncoderCompressStream E enc op s w = (Ret (ok1, enc1, s1), w1)"
    by (auto split: prod.splits res.splits)
  note c1 = EncoderCompressStream_calls [OF st]
  let ?step = "Call_EncoderCompressStream op ok1 (available_in s1) (available_out s1)"
  show ?case
  proof (cases ok1)
    case False
    with Suc.prems st have "ok = False" "w' = w1" by simp_all
    with c1 False show ?thesis by simp
  next
    case ok1: True
    from Suc.prems st ok1 obtain rc s2 w2 where
      gr: "grow_if_full s1 w1 = (Ret (rc, s2), w2)"
      by (auto split: prod.splits res.splits)
    note g = grow_if_full_calls [OF gr]
    define gev where "gev = (if available_out s1 = 0 then [Call_Grow rc (available_out s2)] else [])"
    have c2: "calls w2 = calls w @ ?step # gev"
      using g c1 by (auto simp: gev_def)
    have rc: "rc = 0 \<or> rc = -1" using g by auto
    have ao: "available_out s1 \<noteq> 0 \<Longrightarrow> available_out s2 = available_out s1" using g by auto
    have ai: "available_in s2 = available_in s1" using g by simp
    show ?thesis
    proof (cases "rc < 0")
      case True
      with Suc.prems st ok1 gr have r: "ok = False" "w' = w2" by simp_all
      from True g have "available_out s1 = 0" by auto
      with r c2 True ok1 show ?thesis by (simp add: gev_def)
    next
      case rc0: False
      show ?thesis
      proof (cases "available_in s2 \<noteq> 0")
        case True
        with Suc.prems st ok1 gr rc0 have
          "compress_stream_loop fuel E op enc1 s2 w2 = Some (Ret (ok, enc', s'), w')" by simp
        from Suc.IH [OF this] obtain evs where
          e: "calls w' = calls w2 @ evs"
          "if ok then \<forall>b. compress_protocol op (evs @ [Call_Finish (available_out s') b])
           else compress_protocol op (evs @ [Call_CleanUp])" by blast
        have "calls w' = calls w @ (?step # gev @ evs)" using e(1) c2 by simp
        moreover have "compress_protocol op ((?step # gev @ evs) @ tl') = compress_protocol op (evs @ tl')"
          for tl'
          using ok1 rc0 True ai by (auto simp: gev_def)
        ultimately show ?thesis using e(2) by (metis (full_types))
      next
        case False
        then have ai0: "available_in s1 = 0" using ai by simp
        from Suc.prems st ok1 gr rc0 False obtain pending w3 where
          hm: "BrotliEncoderHasMoreOutput E enc1 w2 = (Ret pending, w3)"
          by (auto split: prod.splits res.splits)
        note c3 = EncoderHasMoreOutput_calls [OF hm]
        show ?thesis
        proof (cases pending)
          case True
          with Suc.prems st ok1 gr rc0 False hm have
            "compress_stream_loop fuel E op enc1 s2 w3 = Some (Ret (ok, enc', s'), w')" by simp
          from Suc.IH [OF this] obtain evs where
            e: "calls w' = calls w3 @ evs"
            "if ok then \<forall>b. compress_protocol op (evs @ [Call_Finish (available_out s') b])
             else compress_protocol op (evs @ [Call_CleanUp])" by blast
          have "calls w' = calls w @ (?step # gev @ Call_EncoderHasMoreOutput True # evs)"
            using e(1) c2 c3 True by simp
          moreover have "compress_protocol op ((?step # gev @ Call_EncoderHasMoreOutput True # evs) @ tl')
                  = compress_protocol op (evs @ tl')" for tl'
            using ok1 rc0 ai0 by (auto simp: gev_def)
          ultimately show ?thesis using e(2) by (metis (full_types))
        next
          case np: False
          with Suc.prems st ok1 gr rc0 False hm have r: "ok = True" "s' = s2" "w' = w3" by simp_all
          have "calls w' = calls w @ (?step # gev @ [Call_EncoderHasMoreOutput False])"
            using c2 c3 np r by simp
          moreover have "compress_protocol op
              ((?step # gev @ [Call_EncoderHasMoreOutput False]) @ [Call_Finish (available_out s2) b])" for b
            using ok1 rc0 ai0 ao by (cases b) (auto simp: gev_def)
          ultimately show ?thesis using r by auto
        qed
      qed
    qed
  qed
qed

lemma world0_simps [simp]: "heap world0 = []" "err world0 = None" "calls world0 = []"
  by (simp_all add: world0_def)

lemma next_alloc_empty: "heap w = [] \<Longrightarrow> next_alloc w = (Memory (\<lambda>_. 0), w)"
  by (simp add: next_alloc_def)

lemma InitAndGrow_empty_heap:
  "heap w = [] \<Longrightarrow> BlocksOutputBuffer_InitAndGrow local_buffer 0 (0, 0) w
     = ((0, buffer_fresh, 32768, (0, 0)), called (Call_InitAndGrow 0) w)"
  by (simp add: BlocksOutputBuffer_InitAndGrow_def PyBytes_FromStringAndSize_def PyList_New_def
      next_alloc_empty BUFFER_BLOCK_SIZE_def KB_def local_buffer_def buffer_fresh_def)

lemmas run_simps =
  InitAndGrow_empty_heap next_alloc_empty write_out_def buffer_fresh_def grow_if_full_def
  Grow_allow_threads_def
  BlocksOutputBuffer_Finish_def BlocksOutputBuffer_CleanUp_def PyBytes_FromStringAndSize_def
  to_ssize_t_def memcpy_def
  BrotliEncoderCompressStream_def BrotliEncoderHasMoreOutput_def BrotliEncoderIsFinished_def
  BrotliDecoderDecompressStream_def BrotliDecoderIsFinished_def
  BrotliDecoderCreateInstance_def BrotliDecoderDestroyInstance_def
  stored_encoder_def stored_compress_def stored_decoder_def

lemma compress_stream_stored_finish:
  "compress_stream (Suc 0) stored_encoder (Some ([], False)) BROTLI_OPERATION_FINISH [5, 6] world0
     = Some (Ret (True, Some [5, 6, 0], Some ([], True)),
         world0\<lparr>calls := [Call_InitAndGrow 0,
            Call_EncoderCompressStream BROTLI_OPERATION_FINISH True 0 32765,
            Call_EncoderHasMoreOutput False, Call_Finish 32765 True]\<rparr>)"
  by (simp add: compress_stream_def run_simps called_def)

lemma Grow_empty_heap:
  "heap w = [] \<Longrightarrow> BlocksOutputBuffer_Grow \<lparr>blocks = Some [b], allocated = 32768\<rparr> 0 n w
     = (Ret (0, \<lparr>blocks = Some [b, fresh (\<lambda>_. 0) 65536], allocated = 98304\<rparr>, 65536, (1, 0)),
        called (Call_Grow 0 65536) w)"
  by (simp add: BlocksOutputBuffer_Grow_def PyBytes_FromStringAndSize_def PyList_Append_def
      next_alloc_empty BUFFER_BLOCK_SIZE_def KB_def PY_SSIZE_T_MAX_def Let_def)

lemma compress_stream_stored_full_block:
  "compress_stream (Suc 0) stored_encoder (Some ([], False)) BROTLI_OPERATION_PROCESS
       (fresh g 32768) world0
     = Some (Ret (True, Some (fresh g 32768), Some ([], False)),
         world0\<lparr>calls := [Call_InitAndGrow 0,
            Call_EncoderCompressStream BROTLI_OPERATION_PROCESS True 0 0,
            Call_Grow 0 65536,
            Call_EncoderHasMoreOutput False, Call_Finish 65536 True]\<rparr>)"
  by (simp add: compress_stream_def run_simps Grow_empty_heap called_def)

subsection \<open>C2: the loop of the compression driver\<close>

text \<open>
  The order of the calls. For every engine, operation and input, a run of
  \<^verbatim>\<open>compress_stream\<close> that returns makes its calls in the order the specification
  gives: after the initial \<^verbatim>\<open>InitAndGrow\<close> it calls the engine step; when the step
  fails it calls \<^verbatim>\<open>CleanUp\<close> and returns failure (its caller raises
  \<^verbatim>\<open>brotli.error\<close>); it calls \<^verbatim>\<open>Grow\<close> exactly when the step left
  \<open>available_out = 0\<close>; it repeats the step while \<open>available_in > 0\<close> or the engine
  reports more output, and otherwise calls \<^verbatim>\<open>Finish\<close> with the current
  \<open>available_out\<close>. It returns success exactly when that \<^verbatim>\<open>Finish\<close> returned the
  result.
\<close>

lemma compress_stream_follows_protocol:
  assumes "compress_stream fuel E enc op input w = Some (Ret (ok, output, enc'), w')"
  shows "(ok \<longleftrightarrow> output \<noteq> None)
       \<and> ((calls w' = calls w @ [Call_InitAndGrow (-1)] \<and> \<not> ok)
          \<or> (\<exists>rest. calls w' = calls w @ Call_InitAndGrow 0 # rest
                 \<and> compress_protocol op rest
                 \<and> (ok \<longleftrightarrow> (\<exists>a. last rest = Call_Finish a True))
                 \<and> (\<not> ok \<longrightarrow> last rest = Call_CleanUp \<or> (\<exists>a. last rest = Call_Finish a False))))"
proof -
  obtain rc b0 a0 n0 w1 where
    ini: "BlocksOutputBuffer_InitAndGrow local_buffer 0 (0, 0) w = ((rc, b0, a0, n0), w1)"
    by (metis prod_cases4 surj_pair)
  note ci = InitAndGrow_calls [OF ini]
  show ?thesis
  proof (cases "rc < 0")
    case True
    with assms ini have "ok = False" "output = None" "w' = w1"
      by (simp_all add: compress_stream_def)
    with ci True show ?thesis by auto
  next
    case False
    then have rc0: "rc = 0" using ci by auto
    let ?s0 = "\<lparr>available_in = length input, next_in = input,
                 available_out = a0, next_out = n0, buffer = b0\<rparr>"
    from assms ini False obtain ok1 enc1 s1 w2 where
      lp: "compress_stream_loop fuel E op enc ?s0 w1 = Some (Ret (ok1, enc1, s1), w2)"
      by (auto simp: compress_stream_def split: option.splits prod.splits res.splits)
    from compress_stream_loop_protocol [OF lp] obtain evs where
      e: "calls w2 = calls w1 @ evs"
      "if ok1 then \<forall>b. compress_protocol op (evs @ [Call_Finish (available_out s1) b])
       else compress_protocol op (evs @ [Call_CleanUp])" by blast
    show ?thesis
    proof (cases ok1)
      case False
      with assms ini rc0 lp have r: "ok = False" "output = None"
        "w' = BlocksOutputBuffer_CleanUp (buffer s1) w2"
        by (simp_all add: compress_stream_def)
      have "calls w' = calls w @ Call_InitAndGrow 0 # (evs @ [Call_CleanUp])"
        using r(3) e(1) ci rc0 by (simp add: BlocksOutputBuffer_CleanUp_def)
      moreover have "compress_protocol op (evs @ [Call_CleanUp])" using e(2) False by simp
      ultimately show ?thesis using r(1,2) by auto
    next
      case True
      obtain r3 w3 where f0: "BlocksOutputBuffer_Finish (buffer s1) (available_out s1) w2 = (r3, w3)"
        by (cases "BlocksOutputBuffer_Finish (buffer s1) (available_out s1) w2")
      have cs: "compress_stream fuel E enc op input w
                  = (case r3 of Undefined \<Rightarrow> Some (Undefined, w3)
                     | Ret (out, b3) \<Rightarrow> Some (Ret (out \<noteq> None, out, enc1), w3))"
        using ini rc0 lp True f0 by (simp add: compress_stream_def split: res.splits)
      from cs assms obtain out b3 where r3: "r3 = Ret (out, b3)"
        by (cases r3) auto
      from cs assms r3 have r: "ok = (out \<noteq> None)" "output = out" and w3: "w3 = w'"
        by simp_all
      have f: "BlocksOutputBuffer_Finish (buffer s1) (available_out s1) w2 = (Ret (out, b3), w')"
        using f0 r3 w3 by simp
      have "calls w' = calls w @ Call_InitAndGrow 0 # (evs @ [Call_Finish (available_out s1) ok])"
        using Finish_calls [OF f] e(1) ci rc0 r(1) by simp
      moreover have "compress_protocol op (evs @ [Call_Finish (available_out s1) ok])"
        using e(2) True by simp
      ultimately show ?thesis using r by auto
    qed
  qed
qed

lemma compress_stream_follows_protocol_example:
  "compress_stream (Suc 0) stored_encoder (Some ([], False)) BROTLI_OPERATION_PROCESS
       (fresh (\<lambda>_. 7) 32768) world0
     = Some (Ret (True, Some (fresh (\<lambda>_. 7) 32768), Some ([], False)),
         world0\<lparr>calls := [Call_InitAndGrow 0,
            Call_EncoderCompressStream BROTLI_OPERATION_PROCESS True 0 0,
            Call_Grow 0 65536,
            Call_EncoderHasMoreOutput False, Call_Finish 65536 True]\<rparr>)
   \<and> compress_protocol BROTLI_OPERATION_PROCESS
         [Call_EncoderCompressStream BROTLI_OPERATION_PROCESS True 0 0, Call_Grow 0 65536,
          Call_EncoderHasMoreOutput False, Call_Finish 65536 True]"
  using compress_stream_follows_protocol [OF compress_stream_stored_full_block [of "\<lambda>_. 7"]]
    compress_stream_stored_full_block [of "\<lambda>_. 7"]
  by simp

text \<open>
  The step is repeated. The storing encoder, given one byte more than the first block holds,
  fills the block and keeps the last byte; the driver grows the buffer, is told that output
  is pending and steps again. One round of the loop is not enough for this run.
\<close>

lemma compress_stream_needs_second_step:
  "compress_stream (Suc 0) stored_encoder (Some ([], False)) BROTLI_OPERATION_PROCESS
       (fresh g 32768 @ [9]) world0 = None"
  by (simp add: compress_stream_def run_simps Grow_empty_heap called_def)

lemma compress_stream_repeats_step:
  "compress_stream (Suc (Suc 0)) stored_encoder (Some ([], False)) BROTLI_OPERATION_PROCESS
       (fresh g 32768 @ [9]) world0
     = Some (Ret (True, Some (fresh g 32768 @ [9]), Some ([], False)),
         world0\<lparr>calls := [Call_InitAndGrow 0,
            Call_EncoderCompressStream BROTLI_OPERATION_PROCESS True 0 0,
            Call_Grow 0 65536,
            Call_EncoderHasMoreOutput True,
            Call_EncoderCompressStream BROTLI_OPERATION_PROCESS True 0 65535,
            Call_EncoderHasMoreOutput False, Call_Finish 65535 True]\<rparr>)"
  by (simp add: compress_stream_def run_simps Grow_empty_heap called_def)

text \<open>
  C2. The driver is written to leave the loop, clean up and fail when \<^verbatim>\<open>Grow\<close>
  cannot allocate. It does not get that far: the loop runs between
  \<^verbatim>\<open>Py_BEGIN_ALLOW_THREADS\<close> and \<^verbatim>\<open>Py_END_ALLOW_THREADS\<close>, and the failing
  \<^verbatim>\<open>Grow\<close> raises \<^verbatim>\<open>MemoryError\<close> without a thread state. With the storing
  encoder, \<^verbatim>\<open>process\<close> of 32768 bytes fills the first block; when the second block
  cannot be allocated, the run of \<^verbatim>\<open>compress_stream\<close> and with it the call of the
  method \<^verbatim>\<open>process\<close> have no defined behaviour. \<^verbatim>\<open>CleanUp\<close> is never called
  and no error is returned.
\<close>

theorem compress_stream_failed_grow_is_undefined:
  "compress_stream (Suc 0) stored_encoder (Some ([], False)) BROTLI_OPERATION_PROCESS
       (fresh (\<lambda>_. 7) 32768) world_one_block
     = Some (Undefined,
         \<lparr>heap = [], err = Some (MemoryError, ''Unable to allocate output buffer.''),
          calls = [Call_InitAndGrow 0,
            Call_EncoderCompressStream BROTLI_OPERATION_PROCESS True 0 0,
            Call_Grow (-1) 0]\<rparr>)
   \<and> brotli_Compressor_process (Suc 0) stored_encoder (Some ([], False))
       [PyBytes (fresh (\<lambda>_. 7) 32768)] world_one_block
     = Some (Undefined,
         \<lparr>heap = [], err = Some (MemoryError, ''Unable to allocate output buffer.''),
          calls = [Call_InitAndGrow 0,
            Call_EncoderCompressStream BROTLI_OPERATION_PROCESS True 0 0,
            Call_Grow (-1) 0]\<rparr>)"
proof -
  have "compress_stream (Suc 0) stored_encoder (Some ([], False)) BROTLI_OPERATION_PROCESS
       (fresh (\<lambda>_. 7) 32768) world_one_block
     = Some (Undefined,
         \<lparr>heap = [], err = Some (MemoryError, ''Unable to allocate output buffer.''),
          calls = [Call_InitAndGrow 0,
            Call_EncoderCompressStream BROTLI_OPERATION_PROCESS True 0 0,
            Call_Grow (-1) 0]\<rparr>)"
    by (simp add: compress_stream_def world_one_block_def
        BlocksOutputBuffer_InitAndGrow_def BlocksOutputBuffer_Grow_def
        PyBytes_FromStringAndSize_def PyList_New_def PyErr_NoMemory_def PyErr_SetString_def
        BUFFER_BLOCK_SIZE_def KB_def local_buffer_def next_alloc_def
        BrotliEncoderCompressStream_def stored_encoder_def stored_compress_def
        write_out_def grow_if_full_def Grow_allow_threads_def called_def Let_def)
  then show ?thesis by (simp add: brotli_Compressor_process_def)
qed
subsection \<open>C4: process and flush after finish\<close>

lemma fresh_0 [simp]: "fresh g 0 = []"
  by (simp add: fresh_def)

lemma InitAndGrow_cases:
  "(\<exists>g w1. BlocksOutputBuffer_InitAndGrow local_buffer 0 (0, 0) w
             = ((0, \<lparr>blocks = Some [fresh g 32768], allocated = 32768\<rparr>, 32768, (0, 0)), w1))
   \<or> (\<exists>b a n w1. BlocksOutputBuffer_InitAndGrow local_buffer 0 (0, 0) w = ((-1, b, a, n), w1))"
  by (auto simp: BlocksOutputBuffer_InitAndGrow_def PyBytes_FromStringAndSize_def PyList_New_def
        BUFFER_BLOCK_SIZE_def KB_def Let_def local_buffer_def
      split: prod.splits option.splits alloc.splits bool.splits)

lemma compress_stream_rejected:
  assumes "enc_compress_stream E e op input 32768 = (False, e', consumed, written)"
    and "consumed \<le> length input" "length written \<le> 32768"
  shows "\<exists>self' w'. compress_stream (Suc fuel) E (Some e) op input w = Some (Ret (False, None, self'), w')"
  using InitAndGrow_cases [of w]
proof (elim disjE exE)
  fix g w1
  assume "BlocksOutputBuffer_InitAndGrow local_buffer 0 (0, 0) w
             = ((0, \<lparr>blocks = Some [fresh g 32768], allocated = 32768\<rparr>, 32768, (0, 0)), w1)"
  then show ?thesis
    using assms
    by (simp add: compress_stream_def BrotliEncoderCompressStream_def write_out_def)
next
  fix b a n w1
  assume "BlocksOutputBuffer_InitAndGrow local_buffer 0 (0, 0) w = ((-1, b, a, n), w1)"
  then show ?thesis by (simp add: compress_stream_def)
qed

lemma finish_strict_encoder:
  "brotli_Compressor_finish (Suc 0) strict_encoder (Some False) world0
     = Some (Ret (Some [], Some True),
         world0\<lparr>calls := [Call_InitAndGrow 0,
            Call_EncoderCompressStream BROTLI_OPERATION_FINISH True 0 32768,
            Call_EncoderHasMoreOutput False, Call_Finish 32768 True,
            Call_EncoderIsFinished True]\<rparr>)"
  by (simp add: brotli_Compressor_finish_def compress_stream_def run_simps strict_encoder_def
      called_def)

text \<open>
  What the methods do with a step that the engine rejects. \<^verbatim>\<open>process\<close> and
  \<^verbatim>\<open>flush\<close> keep no record of a completed \<^verbatim>\<open>finish\<close> and hand every call to
  the engine. When the engine rejects the first step they fail with \<^verbatim>\<open>brotli.error\<close>
  ("... failed while processing / flushing the stream") and without output, in any world
  (that is whether or not the buffer could be allocated).
\<close>

lemma rejected_step_raises_error:
  "(enc_compress_stream E e BROTLI_OPERATION_PROCESS input 32768 = (False, e', consumed, written)
      \<and> consumed \<le> length input \<and> length written \<le> 32768
    \<longrightarrow> (\<exists>self' w'. brotli_Compressor_process (Suc fuel) E (Some e) [PyBytes input] w
                        = Some (Ret (None, self'), w')
            \<and> err w' = Some (BrotliError,
                  ''BrotliEncoderCompressStream failed while processing the stream'')))
   \<and> (enc_compress_stream E e BROTLI_OPERATION_FLUSH [] 32768 = (False, e2, consumed2, written2)
      \<and> consumed2 = 0 \<and> length written2 \<le> 32768
    \<longrightarrow> (\<exists>self' w'. brotli_Compressor_flush (Suc fuel) E (Some e) w
                        = Some (Ret (None, self'), w')
            \<and> err w' = Some (BrotliError,
                  ''BrotliEncoderCompressStream failed while flushing the stream'')))"
proof (intro conjI impI)
  assume h: "enc_compress_stream E e BROTLI_OPERATION_PROCESS input 32768
               = (False, e', consumed, written)
             \<and> consumed \<le> length input \<and> length written \<le> 32768"
  from compress_stream_rejected [of E e BROTLI_OPERATION_PROCESS input e' consumed written fuel w] h
  obtain self' w' where
    "compress_stream (Suc fuel) E (Some e) BROTLI_OPERATION_PROCESS input w
       = Some (Ret (False, None, self'), w')" by blast
  then show "\<exists>self' w'. brotli_Compressor_process (Suc fuel) E (Some e) [PyBytes input] w
                              = Some (Ret (None, self'), w')
                  \<and> err w' = Some (BrotliError,
                        ''BrotliEncoderCompressStream failed while processing the stream'')"
    by (simp add: brotli_Compressor_process_def)
next
  assume h: "enc_compress_stream E e BROTLI_OPERATION_FLUSH [] 32768
               = (False, e2, consumed2, written2)
             \<and> consumed2 = 0 \<and> length written2 \<le> 32768"
  from compress_stream_rejected [of E e BROTLI_OPERATION_FLUSH "[]" e2 consumed2 written2 fuel w] h
  obtain self' w' where
    "compress_stream (Suc fuel) E (Some e) BROTLI_OPERATION_FLUSH [] w
       = Some (Ret (False, None, self'), w')" by auto
  then show "\<exists>self' w'. brotli_Compressor_flush (Suc fuel) E (Some e) w
                              = Some (Ret (None, self'), w')
                  \<and> err w' = Some (BrotliError,
                        ''BrotliEncoderCompressStream failed while flushing the stream'')"
    by (simp add: brotli_Compressor_flush_def)
qed

text \<open>
  C4. The documentation of \<^verbatim>\<open>finish\<close> says that after it \<^verbatim>\<open>process\<close> and
  \<^verbatim>\<open>flush\<close> cannot be called again. The methods do not check this: the object holds
  nothing but the engine. With an engine that, like the Brotli encoder, accepts a call
  without input after the stream is closed, \<^verbatim>\<open>flush()\<close> and \<^verbatim>\<open>process(b"")\<close>
  after a successful \<^verbatim>\<open>finish()\<close> return an empty bytes object and set no
  exception.
\<close>

theorem flush_after_finish_succeeds:
  "brotli_Compressor_finish (Suc 0) stored_encoder (Some ([], False)) world0
     = Some (Ret (Some [0], Some ([], True)),
         world0\<lparr>calls := [Call_InitAndGrow 0,
            Call_EncoderCompressStream BROTLI_OPERATION_FINISH True 0 32767,
            Call_EncoderHasMoreOutput False, Call_Finish 32767 True,
            Call_EncoderIsFinished True]\<rparr>)
   \<and> brotli_Compressor_flush (Suc 0) stored_encoder (Some ([], True))
        (world0\<lparr>calls := [Call_InitAndGrow 0,
            Call_EncoderCompressStream BROTLI_OPERATION_FINISH True 0 32767,
            Call_EncoderHasMoreOutput False, Call_Finish 32767 True,
            Call_EncoderIsFinished True]\<rparr>)
     = Some (Ret (Some [], Some ([], True)),
         world0\<lparr>calls := [Call_InitAndGrow 0,
            Call_EncoderCompressStream BROTLI_OPERATION_FINISH True 0 32767,
            Call_EncoderHasMoreOutput False, Call_Finish 32767 True,
            Call_EncoderIsFinished True,
            Call_InitAndGrow 0,
            Call_EncoderCompressStream BROTLI_OPERATION_FLUSH True 0 32768,
            Call_EncoderHasMoreOutput False, Call_Finish 32768 True]\<rparr>)
   \<and> brotli_Compressor_process (Suc 0) stored_encoder (Some ([], True)) [PyBytes []]
        (world0\<lparr>calls := [Call_InitAndGrow 0,
            Call_EncoderCompressStream BROTLI_OPERATION_FINISH True 0 32767,
            Call_EncoderHasMoreOutput False, Call_Finish 32767 True,
            Call_EncoderIsFinished True]\<rparr>)
     = Some (Ret (Some [], Some ([], True)),
         world0\<lparr>calls := [Call_InitAndGrow 0,
            Call_EncoderCompressStream BROTLI_OPERATION_FINISH True 0 32767,
            Call_EncoderHasMoreOutput False, Call_Finish 32767 True,
            Call_EncoderIsFinished True,
            Call_InitAndGrow 0,
            Call_EncoderCompressStream BROTLI_OPERATION_PROCESS True 0 32768,
            Call_EncoderHasMoreOutput False, Call_Finish 32768 True]\<rparr>)"
  by (simp add: brotli_Compressor_finish_def brotli_Compressor_flush_def
      brotli_Compressor_process_def compress_stream_def run_simps called_def)

subsection \<open>The calls of the decompression drivers\<close>

lemma DecoderDecompressStream_calls:
  assumes "BrotliDecoderDecompressStream D dec s w = (Ret (result, dec', s'), w')"
  shows "calls w' = calls w @ [Call_DecoderDecompressStream result (available_in s') (available_out s')]"
  using assms
  by (auto simp: BrotliDecoderDecompressStream_def
      split: option.splits prod.splits if_splits res.splits)

lemma last_decoder_step_append:
  "last_decoder_step (xs @ ys)
     = (case last_decoder_step ys of Some r \<Rightarrow> Some r | None \<Rightarrow> last_decoder_step xs)"
  by (induction xs) (auto split: option.splits)

lemma grow_failed_simps [simp]:
  "grow_failed [] = False"
  "grow_failed (xs @ ys) = (grow_failed xs \<or> grow_failed ys)"
  "grow_failed (Call_Grow rc a # xs) = (rc < 0 \<or> grow_failed xs)"
  "grow_failed (Call_DecoderDecompressStream r ai ao # xs) = grow_failed xs"
  "grow_failed (Call_InitAndGrow rc # xs) = grow_failed xs"
  "grow_failed (Call_Finish a b # xs) = grow_failed xs"
  "grow_failed (Call_CleanUp # xs) = grow_failed xs"
  "grow_failed (Call_DecoderCreateInstance b # xs) = grow_failed xs"
  "grow_failed (Call_DecoderDestroyInstance # xs) = grow_failed xs"
  by (auto simp: grow_failed_def)

lemma finish_failed_simps [simp]:
  "finish_failed [] = False"
  "finish_failed (xs @ ys) = (finish_failed xs \<or> finish_failed ys)"
  "finish_failed (Call_Finish a b # xs) = (\<not> b \<or> finish_failed xs)"
  "finish_failed (Call_Grow rc a # xs) = finish_failed xs"
  "finish_failed (Call_DecoderDecompressStream r ai ao # xs) = finish_failed xs"
  "finish_failed (Call_InitAndGrow rc # xs) = finish_failed xs"
  "finish_failed (Call_CleanUp # xs) = finish_failed xs"
  "finish_failed (Call_DecoderCreateInstance b # xs) = finish_failed xs"
  "finish_failed (Call_DecoderDestroyInstance # xs) = finish_failed xs"
  by (auto simp: finish_failed_def)

lemma decompress_stream_loop_calls:
  assumes "decompress_stream_loop fuel D dec s w = Some (Ret (result, dec', s'), w')"
  shows "\<exists>evs r. calls w' = calls w @ evs
           \<and> last_decoder_step evs = Some (r, available_in s') \<and> \<not> finish_failed evs
           \<and> (if grow_failed evs then result = BROTLI_DECODER_RESULT_ERROR else result = r)"
  using assms
proof (induction fuel arbitrary: dec s w)
  case 0
  then show ?case by simp
next
  case (Suc fuel)
  from Suc.prems obtain r1 dec1 s1 w1 where
    st: "BrotliDecoderDecompressStream D dec s w = (Ret (r1, dec1, s1), w1)"
    by (auto split: prod.splits res.splits)
  note c1 = DecoderDecompressStream_calls [OF st]
  let ?step = "Call_DecoderDecompressStream r1 (available_in s1) (available_out s1)"
  from Suc.prems st obtain rc s2 w2 where
    gr: "grow_if_full s1 w1 = (Ret (rc, s2), w2)"
    by (auto split: prod.splits res.splits)
  note g = grow_if_full_calls [OF gr]
  define gev where "gev = (if available_out s1 = 0 then [Call_Grow rc (available_out s2)] else [])"
  have c2: "calls w2 = calls w @ ?step # gev"
    using g c1 by (auto simp: gev_def)
  have ai: "available_in s2 = available_in s1" using g by simp
  have gf: "grow_failed gev \<longleftrightarrow> rc < 0" using g by (auto simp: gev_def)
  have ff: "\<not> finish_failed gev" by (simp add: gev_def)
  have ls: "last_decoder_step (?step # gev) = Some (r1, available_in s1)"
    by (simp add: gev_def)
  show ?case
  proof (cases "rc < 0")
    case True
    with Suc.prems st gr have "result = BROTLI_DECODER_RESULT_ERROR" "s' = s2" "w' = w2"
      by simp_all
    with c2 ls ai gf ff True show ?thesis
      by (intro exI [of _ "?step # gev"] exI [of _ r1]) simp
  next
    case rc0: False
    show ?thesis
    proof (cases "r1 = BROTLI_DECODER_RESULT_NEEDS_MORE_OUTPUT")
      case False
      with Suc.prems st gr rc0 have "result = r1" "s' = s2" "w' = w2" by simp_all
      with c2 ls ai gf ff rc0 show ?thesis
        by (intro exI [of _ "?step # gev"] exI [of _ r1]) simp
    next
      case True
      with Suc.prems st gr rc0 have
        "decompress_stream_loop fuel D dec1 s2 w2 = Some (Ret (result, dec', s'), w')" by simp
      from Suc.IH [OF this] obtain evs r where
        e: "calls w' = calls w2 @ evs" "last_decoder_step evs = Some (r, available_in s')"
        "\<not> finish_failed evs"
        "if grow_failed evs then result = BROTLI_DECODER_RESULT_ERROR else result = r" by blast
      have "calls w' = calls w @ ((?step # gev) @ evs)" using e(1) c2 by simp
      moreover have "last_decoder_step ((?step # gev) @ evs) = Some (r, available_in s')"
        using e(2) by (simp only: last_decoder_step_append) simp
      moreover have "\<not> finish_failed ((?step # gev) @ evs)" using e(3) ff by simp
      moreover have "grow_failed ((?step # gev) @ evs) = grow_failed evs"
        using gf rc0 by simp
      ultimately show ?thesis using e(4) by metis
    qed
  qed
qed

lemma brotli_decompress_loop_calls:
  assumes "brotli_decompress_loop fuel D dec s w = Some (Ret (result, dec', s'), w')"
  shows "\<exists>evs. calls w' = calls w @ evs
           \<and> last_decoder_step evs = Some (result, available_in s') \<and> \<not> finish_failed evs
           \<and> (grow_failed evs \<longrightarrow> blocks (buffer s') = None)"
  using assms
proof (induction fuel arbitrary: dec s w)
  case 0
  then show ?case by simp
next
  case (Suc fuel)
  from Suc.prems obtain r1 dec1 s1 w1 where
    st: "BrotliDecoderDecompressStream D dec s w = (Ret (r1, dec1, s1), w1)"
    by (auto split: prod.splits res.splits)
  note c1 = DecoderDecompressStream_calls [OF st]
  let ?step = "Call_DecoderDecompressStream r1 (available_in s1) (available_out s1)"
  from Suc.prems st obtain rc s2 w2 where
    gr: "grow_if_full s1 w1 = (Ret (rc, s2), w2)"
    by (auto split: prod.splits res.splits)
  note g = grow_if_full_calls [OF gr]
  define gev where "gev = (if available_out s1 = 0 then [Call_Grow rc (available_out s2)] else [])"
  have c2: "calls w2 = calls w @ ?step # gev"
    using g c1 by (auto simp: gev_def)
  have ai: "available_in s2 = available_in s1" using g by simp
  have gf: "grow_failed gev \<longleftrightarrow> rc < 0" using g by (auto simp: gev_def)
  have gb: "rc < 0 \<Longrightarrow> blocks (buffer s2) = None" using g by auto
  have ff: "\<not> finish_failed gev" by (simp add: gev_def)
  have ls: "last_decoder_step (?step # gev) = Some (r1, available_in s1)"
    by (simp add: gev_def)
  show ?case
  proof (cases "rc < 0 \<or> r1 \<noteq> BROTLI_DECODER_RESULT_NEEDS_MORE_OUTPUT")
    case True
    with Suc.prems st gr have "result = r1" "s' = s2" "w' = w2"
      by (auto split: if_splits)
    with c2 ls ai gf gb ff show ?thesis
      by (intro exI [of _ "?step # gev"]) simp
  next
    case False
    with Suc.prems st gr have
      "brotli_decompress_loop fuel D dec1 s2 w2 = Some (Ret (result, dec', s'), w')" by simp
    from Suc.IH [OF this] obtain evs where
      e: "calls w' = calls w2 @ evs" "last_decoder_step evs = Some (result, available_in s')"
      "\<not> finish_failed evs" "grow_failed evs \<longrightarrow> blocks (buffer s') = None" by blast
    have "calls w' = calls w @ ((?step # gev) @ evs)" using e(1) c2 by simp
    moreover have "last_decoder_step ((?step # gev) @ evs) = Some (result, available_in s')"
      using e(2) by (simp only: last_decoder_step_append) simp
    moreover have "\<not> finish_failed ((?step # gev) @ evs)" using e(3) ff by simp
    moreover have "grow_failed ((?step # gev) @ evs) = grow_failed evs"
      using gf False by simp
    ultimately show ?thesis using e(4) by metis
  qed
qed

lemma InitAndGrow_failed_err:
  assumes "BlocksOutputBuffer_InitAndGrow b0 a0 n0 w = ((rc, b, a, n), w')" "rc < 0"
  shows "\<exists>e m. err w' = Some (e, m)"
  using assms
  by (auto simp: BlocksOutputBuffer_InitAndGrow_def PyBytes_FromStringAndSize_def PyList_New_def
        Let_def BUFFER_BLOCK_SIZE_def KB_def
      split: prod.splits option.splits alloc.splits bool.splits if_splits)

lemma Finish_None_err:
  assumes "BlocksOutputBuffer_Finish b a w = (Ret (None, b'), w')"
  shows "err w' = Some (MemoryError, ''Unable to allocate output buffer.'')"
  using assms
  by (auto simp: BlocksOutputBuffer_Finish_def
      split: option.splits prod.splits if_splits res.splits)

lemma decompress_stream_run:
  assumes "decompress_stream fuel D dec input w = Some (Ret (ok, output, dec'), w')"
  shows "\<exists>evs. calls w' = calls w @ evs \<and> (ok \<longleftrightarrow> output \<noteq> None)
           \<and> (ok \<longleftrightarrow> (\<exists>r. last_decoder_step evs = Some (r, 0) \<and> r \<noteq> BROTLI_DECODER_RESULT_ERROR)
                      \<and> \<not> grow_failed evs \<and> \<not> finish_failed evs)"
proof -
  obtain rc b0 a0 n0 w1 where
    ini: "BlocksOutputBuffer_InitAndGrow local_buffer 0 (0, 0) w = ((rc, b0, a0, n0), w1)"
    by (metis prod_cases4 surj_pair)
  note ci = InitAndGrow_calls [OF ini]
  show ?thesis
  proof (cases "rc < 0")
    case True
    with assms ini have "ok = False" "output = None" "w' = w1"
      by (simp_all add: decompress_stream_def)
    with ci show ?thesis by (intro exI [of _ "[Call_InitAndGrow rc]"]) simp
  next
    case False
    let ?s0 = "\<lparr>available_in = length input, next_in = input,
                 available_out = a0, next_out = n0, buffer = b0\<rparr>"
    from assms ini False obtain result dec1 s1 w2 where
      lp: "decompress_stream_loop fuel D dec ?s0 w1 = Some (Ret (result, dec1, s1), w2)"
      by (auto simp: decompress_stream_def split: option.splits prod.splits res.splits)
    from decompress_stream_loop_calls [OF lp] obtain evs r where
      e: "calls w2 = calls w1 @ evs" "last_decoder_step evs = Some (r, available_in s1)"
      "\<not> finish_failed evs"
      "if grow_failed evs then result = BROTLI_DECODER_RESULT_ERROR else result = r" by blast
    show ?thesis
    proof (cases "result \<noteq> BROTLI_DECODER_RESULT_ERROR \<and> available_in s1 = 0")
      case nok: False
      with assms ini False lp have r: "ok = False" "output = None"
        "w' = BlocksOutputBuffer_CleanUp (buffer s1) w2"
        by (auto simp: decompress_stream_def)
      have c: "calls w' = calls w @ (Call_InitAndGrow rc # evs @ [Call_CleanUp])"
        using r(3) e(1) ci by (simp add: BlocksOutputBuffer_CleanUp_def)
      have l: "last_decoder_step (Call_InitAndGrow rc # evs @ [Call_CleanUp])
                 = Some (r, available_in s1)"
        using e(2) by (simp add: last_decoder_step_append)
      have "\<not> ((\<exists>r'. last_decoder_step (Call_InitAndGrow rc # evs @ [Call_CleanUp]) = Some (r', 0)
                     \<and> r' \<noteq> BROTLI_DECODER_RESULT_ERROR)
                \<and> \<not> grow_failed (Call_InitAndGrow rc # evs @ [Call_CleanUp])
                \<and> \<not> finish_failed (Call_InitAndGrow rc # evs @ [Call_CleanUp]))"
        using nok e(4) unfolding l by (auto split: if_splits)
      with c r show ?thesis by blast
    next
      case okl: True
      obtain r3 w3 where f0: "BlocksOutputBuffer_Finish (buffer s1) (available_out s1) w2 = (r3, w3)"
        by (cases "BlocksOutputBuffer_Finish (buffer s1) (available_out s1) w2")
      have cs: "decompress_stream fuel D dec input w
                  = (case r3 of Undefined \<Rightarrow> Some (Undefined, w3)
                     | Ret (out, b3) \<Rightarrow> Some (Ret (out \<noteq> None, out, dec1), w3))"
        using ini False lp okl f0 by (simp add: decompress_stream_def split: res.splits)
      from cs assms obtain out b3 where r3: "r3 = Ret (out, b3)"
        by (cases r3) auto
      from cs assms r3 have r: "ok = (out \<noteq> None)" "output = out" and w3: "w3 = w'"
        by simp_all
      have f: "BlocksOutputBuffer_Finish (buffer s1) (available_out s1) w2 = (Ret (out, b3), w')"
        using f0 r3 w3 by simp
      let ?evs = "Call_InitAndGrow rc # evs @ [Call_Finish (available_out s1) ok]"
      have c: "calls w' = calls w @ ?evs"
        using Finish_calls [OF f] e(1) ci r(1) by simp
      have l: "last_decoder_step ?evs = Some (r, 0)"
        using e(2) okl by (simp add: last_decoder_step_append)
      have ng: "\<not> grow_failed evs" "result = r"
        using e(4) okl by (auto split: if_splits)
      have "ok \<longleftrightarrow> (\<exists>r'. last_decoder_step ?evs = Some (r', 0) \<and> r' \<noteq> BROTLI_DECODER_RESULT_ERROR)
                  \<and> \<not> grow_failed ?evs \<and> \<not> finish_failed ?evs"
        unfolding l using ng okl e(3) by auto
      with c r show ?thesis by blast
    qed
  qed
qed

lemma brotli_decompress_run:
  assumes "brotli_decompress fuel D args w = Some (Ret ret, w')"
  shows "\<exists>evs. calls w' = calls w @ evs
           \<and> (ret \<noteq> None \<longleftrightarrow> last_decoder_step evs = Some (BROTLI_DECODER_RESULT_SUCCESS, 0)
                                \<and> \<not> finish_failed evs)
           \<and> (grow_failed evs \<longrightarrow> ret = None)
           \<and> (ret = None \<longrightarrow> (\<exists>e m. err w' = Some (e, m)))"
proof (cases "\<exists>input. args = [PyBytes input]")
  case False
  then have "brotli_decompress fuel D args w
               = Some (Ret None, PyErr_SetString TypeError ''decompress'' w)"
    by (auto simp: brotli_decompress_def split: list.splits pyobj.splits)
  with assms have "ret = None" "w' = PyErr_SetString TypeError ''decompress'' w" by simp_all
  then show ?thesis by (intro exI [of _ "[]"]) simp
next
  case True
  then obtain input where args: "args = [PyBytes input]" by blast
  obtain rc b0 a0 n0 w1 where
    ini: "BlocksOutputBuffer_InitAndGrow local_buffer 0 (0, 0) w = ((rc, b0, a0, n0), w1)"
    by (metis prod_cases4 surj_pair)
  note ci = InitAndGrow_calls [OF ini]
  show ?thesis
  proof (cases "rc < 0")
    case True
    with assms ini args have "ret = None" "w' = w1"
      by (simp_all add: brotli_decompress_def)
    with ci InitAndGrow_failed_err [OF ini True] show ?thesis
      by (intro exI [of _ "[Call_InitAndGrow rc]"]) simp
  next
    case False
    obtain state w2 where cr: "BrotliDecoderCreateInstance D w1 = (state, w2)"
      by (cases "BrotliDecoderCreateInstance D w1")
    have cc: "\<exists>b. calls w2 = calls w1 @ [Call_DecoderCreateInstance b]"
      using cr by (auto simp: BrotliDecoderCreateInstance_def split: prod.splits alloc.splits
          dest!: next_alloc_calls')
    then obtain cb where cc': "calls w2 = calls w1 @ [Call_DecoderCreateInstance cb]" by blast
    let ?s0 = "\<lparr>available_in = length input, next_in = input,
                 available_out = a0, next_out = n0, buffer = b0\<rparr>"
    from assms ini False args cr obtain result dec1 s1 w3 where
      lp: "brotli_decompress_loop fuel D state ?s0 w2 = Some (Ret (result, dec1, s1), w3)"
      by (auto simp: brotli_decompress_def split: option.splits prod.splits res.splits)
    from brotli_decompress_loop_calls [OF lp] obtain evs where
      e: "calls w3 = calls w2 @ evs" "last_decoder_step evs = Some (result, available_in s1)"
      "\<not> finish_failed evs" "grow_failed evs \<longrightarrow> blocks (buffer s1) = None" by blast
    let ?pre = "Call_InitAndGrow rc # Call_DecoderCreateInstance cb # evs @ [Call_DecoderDestroyInstance]"
    let ?w4 = "BrotliDecoderDestroyInstance dec1 w3"
    have c4: "calls ?w4 = calls w @ ?pre"
      using e(1) cc' ci by (simp add: BrotliDecoderDestroyInstance_def)
    have l4: "last_decoder_step (?pre @ tl') = Some (result, available_in s1)"
      if "last_decoder_step tl' = None" for tl'
      using e(2) that by (simp add: last_decoder_step_append)
    show ?thesis
    proof (cases "result = BROTLI_DECODER_RESULT_SUCCESS \<and> available_in s1 = 0")
      case nok: False
      with assms ini False args cr lp have r: "ret = None"
        "w' = PyErr_SetString BrotliError ''BrotliDecompress failed''
                (BlocksOutputBuffer_CleanUp (buffer s1) ?w4)"
        by (auto simp: brotli_decompress_def Let_def)
      have c: "calls w' = calls w @ (?pre @ [Call_CleanUp])"
        using r(2) c4 by (simp add: BlocksOutputBuffer_CleanUp_def)
      have "last_decoder_step (?pre @ [Call_CleanUp]) = Some (result, available_in s1)"
        by (rule l4) simp
      with nok have "last_decoder_step (?pre @ [Call_CleanUp])
                       \<noteq> Some (BROTLI_DECODER_RESULT_SUCCESS, 0)" by auto
      with c r show ?thesis by (intro exI [of _ "?pre @ [Call_CleanUp]"]) simp
    next
      case okl: True
      obtain r5 w5 where f0: "BlocksOutputBuffer_Finish (buffer s1) (available_out s1) ?w4 = (r5, w5)"
        by (cases "BlocksOutputBuffer_Finish (buffer s1) (available_out s1) ?w4")
      have cs: "brotli_decompress fuel D args w
                  = (case r5 of Undefined \<Rightarrow> Some (Undefined, w5)
                     | Ret (out, b5) \<Rightarrow> Some (Ret out, w5))"
        using ini False args cr lp okl f0
        by (simp add: brotli_decompress_def Let_def split: res.splits)
      from cs assms obtain out b5 where r5: "r5 = Ret (out, b5)"
        by (cases r5) auto
      from cs assms r5 have r: "ret = out" and w5: "w5 = w'" by simp_all
      have f: "BlocksOutputBuffer_Finish (buffer s1) (available_out s1) ?w4 = (Ret (out, b5), w')"
        using f0 r5 w5 by simp
      let ?fin = "Call_Finish (available_out s1) (out \<noteq> None)"
      have c: "calls w' = calls w @ (?pre @ [?fin])"
        using Finish_calls [OF f] c4 by simp
      have l: "last_decoder_step (?pre @ [?fin]) = Some (BROTLI_DECODER_RESULT_SUCCESS, 0)"
        using l4 [of "[?fin]"] okl by simp
      have ff: "finish_failed (?pre @ [?fin]) \<longleftrightarrow> out = None"
        using e(3) by simp
      have gfn: "out = None" if "grow_failed (?pre @ [?fin])"
      proof -
        from that have "grow_failed evs" by simp
        with e(4) have "blocks (buffer s1) = None" by blast
        with f show ?thesis
          by (auto simp: BlocksOutputBuffer_Finish_def split: option.splits prod.splits)
      qed
      have er: "\<exists>e m. err w' = Some (e, m)" if "out = None"
        using Finish_None_err [of "buffer s1" "available_out s1" ?w4 b5 w'] f that by simp
      show ?thesis
        using c l ff gfn er r by (intro exI [of _ "?pre @ [?fin]"]) auto
    qed
  qed
qed

subsection \<open>C3: when a decompression run succeeds\<close>

lemma brotli_Decompressor_process_run:
  assumes "brotli_Decompressor_process fuel D self args w = Some (Ret (ret, self'), w')"
  shows "(\<exists>evs. calls w' = calls w @ evs
            \<and> (ret \<noteq> None \<longleftrightarrow>
                  (\<exists>r. last_decoder_step evs = Some (r, 0) \<and> r \<noteq> BROTLI_DECODER_RESULT_ERROR)
                  \<and> \<not> grow_failed evs \<and> \<not> finish_failed evs))
         \<and> (ret = None \<longrightarrow> (\<exists>e m. err w' = Some (e, m)))"
proof (cases "\<exists>input d. args = [PyBytes input] \<and> self = Some d")
  case False
  have "\<exists>e m. brotli_Decompressor_process fuel D self args w
               = Some (Ret (None, self), PyErr_SetString e m w)"
  proof (cases "\<exists>input. args = [PyBytes input]")
    case True
    with False have "self = None" by auto
    with True have "brotli_Decompressor_process fuel D self args w
                 = Some (Ret (None, self), PyErr_SetString BrotliError
                     ''BrotliDecoderDecompressStream failed while processing the stream'' w)"
      by (auto simp: brotli_Decompressor_process_def)
    then show ?thesis by blast
  next
    case False
    then have "brotli_Decompressor_process fuel D self args w
                 = Some (Ret (None, self), PyErr_SetString TypeError ''process'' w)"
      unfolding brotli_Decompressor_process_def
      by (simp split: list.split pyobj.split)
    then show ?thesis by blast
  qed
  then obtain e m where "brotli_Decompressor_process fuel D self args w
               = Some (Ret (None, self), PyErr_SetString e m w)" by blast
  with assms have r: "ret = None" "w' = PyErr_SetString e m w" by simp_all
  show ?thesis
  proof (rule conjI)
    show "\<exists>evs. calls w' = calls w @ evs
            \<and> (ret \<noteq> None \<longleftrightarrow>
                  (\<exists>r. last_decoder_step evs = Some (r, 0) \<and> r \<noteq> BROTLI_DECODER_RESULT_ERROR)
                  \<and> \<not> grow_failed evs \<and> \<not> finish_failed evs)"
      by (rule exI [of _ "[]"]) (simp add: r)
    show "ret = None \<longrightarrow> (\<exists>e m. err w' = Some (e, m))"
      by (simp add: r)
  qed
next
  case True
  then obtain input d where a: "args = [PyBytes input]" "self = Some d" by blast
  have p: "brotli_Decompressor_process fuel D self args w
             = (case decompress_stream fuel D self input w of
                  None \<Rightarrow> None
                | Some (Undefined, w1) \<Rightarrow> Some (Undefined, w1)
                | Some (Ret (ok, ret, self'), w1) \<Rightarrow>
                    if \<not> ok then
                      Some (Ret (None, self'),
                        PyErr_SetString BrotliError
                          ''BrotliDecoderDecompressStream failed while processing the stream'' w1)
                    else Some (Ret (ret, self'), w1))"
    using a by (simp add: brotli_Decompressor_process_def)
  have main: ?thesis
    if ds: "decompress_stream fuel D self input w = Some (Ret (ok, out, self1), w1)"
    for ok out self1 w1
  proof -
    from decompress_stream_run [OF ds] obtain evs where
      e: "calls w1 = calls w @ evs" "ok \<longleftrightarrow> out \<noteq> None"
      "ok \<longleftrightarrow> (\<exists>r. last_decoder_step evs = Some (r, 0) \<and> r \<noteq> BROTLI_DECODER_RESULT_ERROR)
              \<and> \<not> grow_failed evs \<and> \<not> finish_failed evs" by (elim exE conjE)
    let ?B = "\<lambda>evs. (\<exists>r. last_decoder_step evs = Some (r, 0) \<and> r \<noteq> BROTLI_DECODER_RESULT_ERROR)
                    \<and> \<not> grow_failed evs \<and> \<not> finish_failed evs"
    have rw: "(ret = (if ok then out else None))
              \<and> calls w' = calls w1 \<and> (\<not> ok \<longrightarrow> err w' = Some (BrotliError,
                   ''BrotliDecoderDecompressStream failed while processing the stream''))"
      using assms p ds by (cases ok) auto
    have c: "calls w' = calls w @ evs" using rw e(1) by simp
    have i: "(ret \<noteq> None) = ?B evs" using rw e(2,3) by (cases ok) simp_all
    have n: "ret = None \<longrightarrow> (\<exists>e m. err w' = Some (e, m))"
    proof
      assume "ret = None"
      with rw e(2) have "\<not> ok" by (cases ok) simp_all
      with rw show "\<exists>e m. err w' = Some (e, m)" by simp
    qed
    show ?thesis
    proof (rule conjI)
      show "\<exists>evs. calls w' = calls w @ evs \<and> ((ret \<noteq> None) = ?B evs)"
        using c i by (rule_tac x = evs in exI) (rule conjI)
      show "ret = None \<longrightarrow> (\<exists>e m. err w' = Some (e, m))" by (rule n)
    qed
  qed
  show ?thesis
  proof (cases "decompress_stream fuel D self input w")
    case None
    with assms p show ?thesis by simp
  next
    case (Some x)
    obtain rr w1 where x: "x = (rr, w1)" by (cases x)
    show ?thesis
    proof (cases rr)
      case Undefined
      with assms p Some x show ?thesis by simp
    next
      case (Ret y)
      obtain ok out self1 where "y = (ok, out, self1)" by (cases y)
      with Some x Ret show ?thesis by (intro main [of ok out self1 w1]) simp
    qed
  qed
qed

lemma process_stored_partial:
  "brotli_Decompressor_process (Suc 0) stored_decoder (Some False) [PyBytes [5]] world0
     = Some (Ret (Some [5], Some False),
         world0\<lparr>calls := [Call_InitAndGrow 0,
            Call_DecoderDecompressStream BROTLI_DECODER_RESULT_NEEDS_MORE_INPUT 0 32767,
            Call_Finish 32767 True]\<rparr>)"
  by (simp add: brotli_Decompressor_process_def decompress_stream_def run_simps called_def)

lemma decompress_stored_complete:
  "brotli_decompress (Suc 0) stored_decoder [PyBytes [5, 0]] world0
     = Some (Ret (Some [5]),
         world0\<lparr>calls := [Call_InitAndGrow 0, Call_DecoderCreateInstance True,
            Call_DecoderDecompressStream BROTLI_DECODER_RESULT_SUCCESS 0 32767,
            Call_DecoderDestroyInstance, Call_Finish 32767 True]\<rparr>)"
  by (simp add: brotli_decompress_def run_simps called_def)

lemma decompress_stored_partial:
  "brotli_decompress (Suc 0) stored_decoder [PyBytes [5]] world0
     = Some (Ret None,
         world0\<lparr>err := Some (BrotliError, ''BrotliDecompress failed''),
            calls := [Call_InitAndGrow 0, Call_DecoderCreateInstance True,
            Call_DecoderDecompressStream BROTLI_DECODER_RESULT_NEEDS_MORE_INPUT 0 32767,
            Call_DecoderDestroyInstance, Call_CleanUp]\<rparr>)"
  by (simp add: brotli_decompress_def run_simps called_def PyErr_SetString_def)

text \<open>
  C3 (amended). Take a run of \<^verbatim>\<open>Decompressor.process\<close> or of the function
  \<^verbatim>\<open>decompress\<close> that returns, and the calls it made.
  \<^item> \<^verbatim>\<open>Decompressor.process\<close> returns bytes if and only if the last step of the
    decoder left \<open>available_in = 0\<close> with a status other than
    \<^verbatim>\<open>BROTLI_DECODER_RESULT_ERROR\<close> (so also with
    \<^verbatim>\<open>BROTLI_DECODER_RESULT_NEEDS_MORE_INPUT\<close>), no \<^verbatim>\<open>Grow\<close> failed and the
    final \<^verbatim>\<open>Finish\<close> could allocate the result.
  \<^item> \<^verbatim>\<open>decompress\<close> returns bytes if and only if the last step of the decoder left
    \<open>available_in = 0\<close> with the status \<^verbatim>\<open>BROTLI_DECODER_RESULT_SUCCESS\<close> and the
    final \<^verbatim>\<open>Finish\<close> could allocate the result.
  \<^item> In every other case the run returns NULL with an exception set: no partial result.
\<close>

theorem decompression_succeeds_iff_last_status_allows:
  "(brotli_Decompressor_process fuel D self args w = Some (Ret (ret, self'), w')
      \<longrightarrow> (\<exists>evs. calls w' = calls w @ evs
              \<and> (ret \<noteq> None \<longleftrightarrow>
                    (\<exists>r. last_decoder_step evs = Some (r, 0) \<and> r \<noteq> BROTLI_DECODER_RESULT_ERROR)
                    \<and> \<not> grow_failed evs \<and> \<not> finish_failed evs))
          \<and> (ret = None \<longrightarrow> (\<exists>e m. err w' = Some (e, m))))
   \<and> (brotli_decompress fuel2 D2 args2 w2 = Some (Ret ret2, w2')
      \<longrightarrow> (\<exists>evs. calls w2' = calls w2 @ evs
              \<and> (ret2 \<noteq> None \<longleftrightarrow>
                    last_decoder_step evs = Some (BROTLI_DECODER_RESULT_SUCCESS, 0)
                    \<and> \<not> finish_failed evs))
          \<and> (ret2 = None \<longrightarrow> (\<exists>e m. err w2' = Some (e, m))))"
proof (rule conjI; rule impI)
  assume "brotli_Decompressor_process fuel D self args w = Some (Ret (ret, self'), w')"
  from brotli_Decompressor_process_run [OF this]
  show "(\<exists>evs. calls w' = calls w @ evs
              \<and> (ret \<noteq> None \<longleftrightarrow>
                    (\<exists>r. last_decoder_step evs = Some (r, 0) \<and> r \<noteq> BROTLI_DECODER_RESULT_ERROR)
                    \<and> \<not> grow_failed evs \<and> \<not> finish_failed evs))
          \<and> (ret = None \<longrightarrow> (\<exists>e m. err w' = Some (e, m)))" .
next
  assume "brotli_decompress fuel2 D2 args2 w2 = Some (Ret ret2, w2')"
  from brotli_decompress_run [OF this] obtain evs where
    e: "calls w2' = calls w2 @ evs"
    "ret2 \<noteq> None \<longleftrightarrow> last_decoder_step evs = Some (BROTLI_DECODER_RESULT_SUCCESS, 0)
                                \<and> \<not> finish_failed evs"
    "ret2 = None \<longrightarrow> (\<exists>e m. err w2' = Some (e, m))" by (elim exE conjE)
  show "(\<exists>evs. calls w2' = calls w2 @ evs
              \<and> (ret2 \<noteq> None \<longleftrightarrow>
                    last_decoder_step evs = Some (BROTLI_DECODER_RESULT_SUCCESS, 0)
                    \<and> \<not> finish_failed evs))
          \<and> (ret2 = None \<longrightarrow> (\<exists>e m. err w2' = Some (e, m)))"
  proof (rule conjI)
    show "\<exists>evs. calls w2' = calls w2 @ evs
              \<and> (ret2 \<noteq> None \<longleftrightarrow>
                    last_decoder_step evs = Some (BROTLI_DECODER_RESULT_SUCCESS, 0)
                    \<and> \<not> finish_failed evs)"
      using e(1,2) by (rule_tac x = evs in exI) (rule conjI)
    show "ret2 = None \<longrightarrow> (\<exists>e m. err w2' = Some (e, m))" by (rule e(3))
  qed
qed

theorem decompression_succeeds_iff_last_status_allows_witness:
  "brotli_Decompressor_process (Suc 0) stored_decoder (Some False) [PyBytes [5]] world0
     = Some (Ret (Some [5], Some False),
         world0\<lparr>calls := [Call_InitAndGrow 0,
            Call_DecoderDecompressStream BROTLI_DECODER_RESULT_NEEDS_MORE_INPUT 0 32767,
            Call_Finish 32767 True]\<rparr>)
   \<and> brotli_decompress (Suc 0) stored_decoder [PyBytes [5, 0]] world0
     = Some (Ret (Some [5]),
         world0\<lparr>calls := [Call_InitAndGrow 0, Call_DecoderCreateInstance True,
            Call_DecoderDecompressStream BROTLI_DECODER_RESULT_SUCCESS 0 32767,
            Call_DecoderDestroyInstance, Call_Finish 32767 True]\<rparr>)
   \<and> last_decoder_step [Call_InitAndGrow 0,
            Call_DecoderDecompressStream BROTLI_DECODER_RESULT_NEEDS_MORE_INPUT 0 32767,
            Call_Finish 32767 True] = Some (BROTLI_DECODER_RESULT_NEEDS_MORE_INPUT, 0)
   \<and> last_decoder_step [Call_InitAndGrow 0, Call_DecoderCreateInstance True,
            Call_DecoderDecompressStream BROTLI_DECODER_RESULT_SUCCESS 0 32767,
            Call_DecoderDestroyInstance, Call_Finish 32767 True]
       = Some (BROTLI_DECODER_RESULT_SUCCESS, 0)"
  using decompression_succeeds_iff_last_status_allows
    [where fuel = "Suc 0" and D = stored_decoder and self = "Some False"
       and args = "[PyBytes [5]]" and w = world0 and ret = "Some [5]" and self' = "Some False"
       and w' = "world0\<lparr>calls := [Call_InitAndGrow 0,
            Call_DecoderDecompressStream BROTLI_DECODER_RESULT_NEEDS_MORE_INPUT 0 32767,
            Call_Finish 32767 True]\<rparr>"
       and ?fuel2.0 = "Suc 0" and ?D2.0 = stored_decoder and ?args2.0 = "[PyBytes [5, 0]]"
       and ?w2.0 = world0 and ?ret2.0 = "Some [5]"
       and ?w2'.0 = "world0\<lparr>calls := [Call_InitAndGrow 0, Call_DecoderCreateInstance True,
            Call_DecoderDecompressStream BROTLI_DECODER_RESULT_SUCCESS 0 32767,
            Call_DecoderDestroyInstance, Call_Finish 32767 True]\<rparr>"]
    process_stored_partial decompress_stored_complete
  by simp

text \<open>
  C3 as stated fails for \<^verbatim>\<open>Decompressor.process\<close>: given the first byte of a stream
  and nothing else, the decoder consumes it and reports
  \<^verbatim>\<open>BROTLI_DECODER_RESULT_NEEDS_MORE_INPUT\<close>; \<^verbatim>\<open>process\<close> returns the byte
  decoded so far and sets no exception. The function \<^verbatim>\<open>decompress\<close> fails on the same
  input.
\<close>

theorem process_accepts_needs_more_input_counterexample:
  "brotli_Decompressor_process (Suc 0) stored_decoder (Some False) [PyBytes [5]] world0
     = Some (Ret (Some [5], Some False),
         world0\<lparr>calls := [Call_InitAndGrow 0,
            Call_DecoderDecompressStream BROTLI_DECODER_RESULT_NEEDS_MORE_INPUT 0 32767,
            Call_Finish 32767 True]\<rparr>)
   \<and> BROTLI_DECODER_RESULT_NEEDS_MORE_INPUT \<noteq> BROTLI_DECODER_RESULT_SUCCESS
   \<and> brotli_decompress (Suc 0) stored_decoder [PyBytes [5]] world0
     = Some (Ret None,
         world0\<lparr>err := Some (BrotliError, ''BrotliDecompress failed''),
            calls := [Call_InitAndGrow 0, Call_DecoderCreateInstance True,
            Call_DecoderDecompressStream BROTLI_DECODER_RESULT_NEEDS_MORE_INPUT 0 32767,
            Call_DecoderDestroyInstance, Call_CleanUp]\<rparr>)"
  using process_stored_partial decompress_stored_partial by simp

subsection \<open>A failed allocation of the result seen from the drivers\<close>

text \<open>
  \<^verbatim>\<open>BlocksOutputBuffer_Finish\<close> is called after \<^verbatim>\<open>Py_END_ALLOW_THREADS\<close>,
  with the interpreter lock held. The drivers pass its failure on: a run of
  \<^verbatim>\<open>compress_stream\<close>, \<^verbatim>\<open>decompress_stream\<close> or \<^verbatim>\<open>brotli_decompress\<close> in
  which \<^verbatim>\<open>Finish\<close> could not allocate the result returns no bytes object.
\<close>

lemma failed_simps_encoder [simp]:
  "grow_failed (Call_EncoderCompressStream op ok ai ao # xs) = grow_failed xs"
  "grow_failed (Call_EncoderHasMoreOutput p # xs) = grow_failed xs"
  "finish_failed (Call_EncoderCompressStream op ok ai ao # xs) = finish_failed xs"
  "finish_failed (Call_EncoderHasMoreOutput p # xs) = finish_failed xs"
  by (auto simp: grow_failed_def finish_failed_def)

lemma compress_stream_loop_failures:
  assumes "compress_stream_loop fuel E op enc s w = Some (Ret (ok, enc', s'), w')"
  shows "\<exists>evs. calls w' = calls w @ evs \<and> \<not> finish_failed evs \<and> (grow_failed evs \<longrightarrow> \<not> ok)"
  using assms
proof (induction fuel arbitrary: enc s w)
  case 0
  then show ?case by simp
next
  case (Suc fuel)
  from Suc.prems obtain ok1 enc1 s1 w1 where
    st: "BrotliEncoderCompressStream E enc op s w = (Ret (ok1, enc1, s1), w1)"
    by (auto split: prod.splits res.splits)
  note c1 = EncoderCompressStream_calls [OF st]
  let ?step = "Call_EncoderCompressStream op ok1 (available_in s1) (available_out s1)"
  show ?case
  proof (cases ok1)
    case False
    with Suc.prems st have "ok = False" "w' = w1" by simp_all
    with c1 show ?thesis by (intro exI [of _ "[?step]"]) simp
  next
    case ok1: True
    from Suc.prems st ok1 obtain rc s2 w2 where
      gr: "grow_if_full s1 w1 = (Ret (rc, s2), w2)"
      by (auto split: prod.splits res.splits)
    note g = grow_if_full_calls [OF gr]
    define gev where "gev = (if available_out s1 = 0 then [Call_Grow rc (available_out s2)] else [])"
    have c2: "calls w2 = calls w @ ?step # gev"
      using g c1 by (auto simp: gev_def)
    have gf: "grow_failed gev \<longleftrightarrow> rc < 0" using g by (auto simp: gev_def)
    have ff: "\<not> finish_failed gev" by (simp add: gev_def)
    show ?thesis
    proof (cases "rc < 0")
      case True
      with Suc.prems st ok1 gr have r: "ok = False" "w' = w2" by simp_all
      with c2 ff show ?thesis by (intro exI [of _ "?step # gev"]) simp
    next
      case rc0: False
      have cont: ?thesis
        if l: "compress_stream_loop fuel E op enc1 s2 w3 = Some (Ret (ok, enc', s'), w')"
          and c3: "calls w3 = calls w2 @ hev" and hf: "\<not> grow_failed hev" "\<not> finish_failed hev"
        for w3 hev
      proof -
        from Suc.IH [OF l] obtain evs where
          e: "calls w' = calls w3 @ evs" "\<not> finish_failed evs" "grow_failed evs \<longrightarrow> \<not> ok"
          by blast
        have "calls w' = calls w @ ((?step # gev) @ hev @ evs)" using e(1) c2 c3 by simp
        moreover have "\<not> finish_failed ((?step # gev) @ hev @ evs)" using e(2) ff hf by simp
        moreover have "grow_failed ((?step # gev) @ hev @ evs) \<longrightarrow> \<not> ok"
          using e(3) gf rc0 hf by simp
        ultimately show ?thesis by blast
      qed
      show ?thesis
      proof (cases "available_in s2 \<noteq> 0")
        case True
        with Suc.prems st ok1 gr rc0 have
          "compress_stream_loop fuel E op enc1 s2 w2 = Some (Ret (ok, enc', s'), w')" by simp
        then show ?thesis by (rule cont [where hev = "[]"]) simp_all
      next
        case False
        from Suc.prems st ok1 gr rc0 False obtain pending w3 where
          hm: "BrotliEncoderHasMoreOutput E enc1 w2 = (Ret pending, w3)"
          by (auto split: prod.splits res.splits)
        note c3 = EncoderHasMoreOutput_calls [OF hm]
        show ?thesis
        proof (cases pending)
          case True
          with Suc.prems st ok1 gr rc0 False hm have
            "compress_stream_loop fuel E op enc1 s2 w3 = Some (Ret (ok, enc', s'), w')" by simp
          then show ?thesis
            by (rule cont [where hev = "[Call_EncoderHasMoreOutput pending]"]) (simp_all add: c3)
        next
          case np: False
          with Suc.prems st ok1 gr rc0 False hm have r: "ok = True" "w' = w3" by simp_all
          have "calls w' = calls w @ ((?step # gev) @ [Call_EncoderHasMoreOutput pending])"
            using c2 c3 r by simp
          moreover have "\<not> finish_failed ((?step # gev) @ [Call_EncoderHasMoreOutput pending])"
            using ff by simp
          moreover have "\<not> grow_failed ((?step # gev) @ [Call_EncoderHasMoreOutput pending])"
            using gf rc0 by simp
          ultimately show ?thesis by blast
        qed
      qed
    qed
  qed
qed

lemma compress_stream_run:
  assumes "compress_stream fuel E enc op input w = Some (Ret (ok, output, enc'), w')"
  shows "\<exists>evs. calls w' = calls w @ evs
           \<and> (grow_failed evs \<or> finish_failed evs \<longrightarrow> \<not> ok \<and> output = None)"
proof -
  obtain rc b0 a0 n0 w1 where
    ini: "BlocksOutputBuffer_InitAndGrow local_buffer 0 (0, 0) w = ((rc, b0, a0, n0), w1)"
    by (metis prod_cases4 surj_pair)
  note ci = InitAndGrow_calls [OF ini]
  show ?thesis
  proof (cases "rc < 0")
    case True
    with assms ini have "ok = False" "output = None" "w' = w1"
      by (simp_all add: compress_stream_def)
    with ci show ?thesis by (intro exI [of _ "[Call_InitAndGrow rc]"]) simp
  next
    case False
    let ?s0 = "\<lparr>available_in = length input, next_in = input,
                 available_out = a0, next_out = n0, buffer = b0\<rparr>"
    have main: ?thesis
      if lp: "compress_stream_loop fuel E op enc ?s0 w1 = Some (Ret (ok1, enc1, s1), w2)"
      for ok1 enc1 s1 w2
    proof -
      from compress_stream_loop_failures [OF lp] obtain evs where
        e: "calls w2 = calls w1 @ evs" "\<not> finish_failed evs" "grow_failed evs \<longrightarrow> \<not> ok1"
        by blast
      show ?thesis
      proof (cases ok1)
        case nok: False
        with assms ini False lp have r: "ok = False" "output = None"
          "w' = BlocksOutputBuffer_CleanUp (buffer s1) w2"
          by (simp_all add: compress_stream_def)
        have "calls w' = calls w @ (Call_InitAndGrow rc # evs @ [Call_CleanUp])"
          using r(3) e(1) ci by (simp add: BlocksOutputBuffer_CleanUp_def)
        with r(1,2) show ?thesis by blast
      next
        case ok: True
        obtain r3 w3 where
          f0: "BlocksOutputBuffer_Finish (buffer s1) (available_out s1) w2 = (r3, w3)"
          by (cases "BlocksOutputBuffer_Finish (buffer s1) (available_out s1) w2")
        have cs: "compress_stream fuel E enc op input w
                    = (case r3 of Undefined \<Rightarrow> Some (Undefined, w3)
                       | Ret (out, b3) \<Rightarrow> Some (Ret (out \<noteq> None, out, enc1), w3))"
          using ini False lp ok f0 by (simp add: compress_stream_def split: res.splits)
        from cs assms obtain out b3 where r3: "r3 = Ret (out, b3)"
          by (cases r3) auto
        from cs assms r3 have r: "ok = (out \<noteq> None)" "output = out" and w3: "w3 = w'"
          by simp_all
        have f: "BlocksOutputBuffer_Finish (buffer s1) (available_out s1) w2 = (Ret (out, b3), w')"
          using f0 r3 w3 by simp
        let ?evs = "Call_InitAndGrow rc # evs @ [Call_Finish (available_out s1) (out \<noteq> None)]"
        have c: "calls w' = calls w @ ?evs"
          using Finish_calls [OF f] e(1) ci by simp
        have "grow_failed ?evs \<or> finish_failed ?evs \<longrightarrow> \<not> ok \<and> output = None"
          using e(2,3) ok r by simp
        with c show ?thesis by blast
      qed
    qed
    show ?thesis
    proof (cases "compress_stream_loop fuel E op enc ?s0 w1")
      case None
      with assms ini False show ?thesis by (simp add: compress_stream_def)
    next
      case (Some x)
      obtain rr w2 where x: "x = (rr, w2)" by (cases x)
      show ?thesis
      proof (cases rr)
        case Undefined
        with assms ini False Some x show ?thesis by (simp add: compress_stream_def)
      next
        case (Ret y)
        obtain ok1 enc1 s1 where "y = (ok1, enc1, s1)" by (cases y)
        with Some x Ret show ?thesis by (intro main [of ok1 enc1 s1 w2]) simp
      qed
    qed
  qed
qed

lemma drivers_return_nothing_after_failed_finish:
  "(compress_stream fuel E enc op input w = Some (Ret (ok, output, enc'), w')
      \<and> finish_failed (drop (length (calls w)) (calls w'))
      \<longrightarrow> \<not> ok \<and> output = None)
   \<and> (decompress_stream fuel D dec input w = Some (Ret (ok, output, dec'), w')
      \<and> finish_failed (drop (length (calls w)) (calls w'))
      \<longrightarrow> \<not> ok \<and> output = None)
   \<and> (brotli_decompress fuel D args w = Some (Ret ret, w')
      \<and> finish_failed (drop (length (calls w)) (calls w'))
      \<longrightarrow> ret = None)"
proof (intro conjI impI)
  assume h: "compress_stream fuel E enc op input w = Some (Ret (ok, output, enc'), w')
      \<and> finish_failed (drop (length (calls w)) (calls w'))"
  from compress_stream_run [OF conjunct1 [OF h]]
  obtain evs where e: "calls w' = calls w @ evs"
    "grow_failed evs \<or> finish_failed evs \<longrightarrow> \<not> ok \<and> output = None" by blast
  from e(1) have "drop (length (calls w)) (calls w') = evs" by simp
  with h e(2) show "\<not> ok" and "output = None" by simp_all
next
  assume h: "decompress_stream fuel D dec input w = Some (Ret (ok, output, dec'), w')
      \<and> finish_failed (drop (length (calls w)) (calls w'))"
  from decompress_stream_run [OF conjunct1 [OF h]]
  obtain evs where e: "calls w' = calls w @ evs" "ok \<longleftrightarrow> output \<noteq> None"
    "ok \<longrightarrow> \<not> grow_failed evs \<and> \<not> finish_failed evs" by blast
  from e(1) have "drop (length (calls w)) (calls w') = evs" by simp
  with h e(2,3) show "\<not> ok" and "output = None" by auto
next
  assume h: "brotli_decompress fuel D args w = Some (Ret ret, w')
      \<and> finish_failed (drop (length (calls w)) (calls w'))"
  from brotli_decompress_run [OF conjunct1 [OF h]]
  obtain evs where e: "calls w' = calls w @ evs"
    "ret \<noteq> None \<longrightarrow> \<not> finish_failed evs" by blast
  from e(1) have "drop (length (calls w)) (calls w') = evs" by simp
  with h e(2) show "ret = None" by auto
qed

subsection \<open>C9: a failed allocation in the buffer\<close>

text \<open>
  The two functions of the buffer, taken by themselves and called with the interpreter lock
  held. When an allocation fails during \<^verbatim>\<open>BlocksOutputBuffer_Grow\<close> (that of the new
  block or that of the list entry) the function returns -1 with \<^verbatim>\<open>MemoryError\<close>
  set, and when the allocation of the result fails during
  \<^verbatim>\<open>BlocksOutputBuffer_Finish\<close> the function returns NULL with
  \<^verbatim>\<open>MemoryError\<close> set; in both cases the list of chunks has been released (the
  pointer is NULL).
\<close>

lemma Grow_and_Finish_release_chunks:
  "(blocks buf = Some bs
      \<and> (fst (next_alloc w) = NoMemory \<or> fst (next_alloc (snd (next_alloc w))) = NoMemory)
      \<longrightarrow> fst (BlocksOutputBuffer_Grow buf avail_out nxt w)
            = Ret (-1, buf\<lparr>blocks := None\<rparr>, avail_out, nxt)
          \<and> (\<exists>msg. err (snd (BlocksOutputBuffer_Grow buf avail_out nxt w)) = Some (MemoryError, msg)))
   \<and> (fst (next_alloc w) = NoMemory
      \<longrightarrow> fst (BlocksOutputBuffer_Finish buf avail_out w) = Ret (None, buf\<lparr>blocks := None\<rparr>)
          \<and> err (snd (BlocksOutputBuffer_Finish buf avail_out w))
              = Some (MemoryError, ''Unable to allocate output buffer.''))
   \<and> (BlocksOutputBuffer_Grow buf avail_out nxt w = (Ret (rc, buf', avail_out', nxt'), w') \<and> rc < 0
      \<longrightarrow> blocks buf' = None)
   \<and> (BlocksOutputBuffer_Finish buf avail_out w = (Ret (None, buf''), w'')
      \<longrightarrow> blocks buf'' = None)"
proof (intro conjI impI)
  assume h: "blocks buf = Some bs
      \<and> (fst (next_alloc w) = NoMemory \<or> fst (next_alloc (snd (next_alloc w))) = NoMemory)"
  obtain a w1 where a: "next_alloc w = (a, w1)" by (cases "next_alloc w")
  obtain a2 w2 where a2: "next_alloc w1 = (a2, w2)" by (cases "next_alloc w1")
  have pos: "0 < BUFFER_BLOCK_SIZE ! min (length bs) 16"
    by (rule BUFFER_BLOCK_SIZE_pos) simp
  from h a a2 have c: "a = NoMemory \<or> a2 = NoMemory" by auto
  have "fst (BlocksOutputBuffer_Grow buf avail_out nxt w)
            = Ret (-1, buf\<lparr>blocks := None\<rparr>, avail_out, nxt)
        \<and> (\<exists>msg. err (snd (BlocksOutputBuffer_Grow buf avail_out nxt w)) = Some (MemoryError, msg))"
    using h c a a2 pos
    by (cases a; cases a2)
      (auto simp: BlocksOutputBuffer_Grow_def PyBytes_FromStringAndSize_def PyList_Append_def
        PyErr_SetString_def PyErr_NoMemory_def called_def Let_def min_def
        split: if_splits)
  then show "fst (BlocksOutputBuffer_Grow buf avail_out nxt w)
            = Ret (-1, buf\<lparr>blocks := None\<rparr>, avail_out, nxt)"
    and "\<exists>msg. err (snd (BlocksOutputBuffer_Grow buf avail_out nxt w)) = Some (MemoryError, msg)"
    by simp_all
next
  assume h: "fst (next_alloc w) = NoMemory"
  then show "fst (BlocksOutputBuffer_Finish buf avail_out w) = Ret (None, buf\<lparr>blocks := None\<rparr>)"
    by (cases "next_alloc w")
      (simp add: BlocksOutputBuffer_Finish_def PyBytes_FromStringAndSize_def)
  from h show "err (snd (BlocksOutputBuffer_Finish buf avail_out w))
              = Some (MemoryError, ''Unable to allocate output buffer.'')"
    by (cases "next_alloc w")
      (simp add: BlocksOutputBuffer_Finish_def PyBytes_FromStringAndSize_def
        PyErr_SetString_def called_def)
next
  assume "BlocksOutputBuffer_Grow buf avail_out nxt w = (Ret (rc, buf', avail_out', nxt'), w') \<and> rc < 0"
  then show "blocks buf' = None"
    by (auto simp: BlocksOutputBuffer_Grow_def Let_def
        split: option.splits prod.splits if_splits)
next
  assume "BlocksOutputBuffer_Finish buf avail_out w = (Ret (None, buf''), w'')"
  then show "blocks buf'' = None"
    by (auto simp: BlocksOutputBuffer_Finish_def Let_def
        split: option.splits prod.splits if_splits res.splits)
qed

text \<open>
  \<^verbatim>\<open>BlocksOutputBuffer_Finish\<close> on a buffer whose list has been released reads the
  length of a NULL list.
\<close>

lemma Finish_released_list:
  "PyBytes_FromStringAndSize (to_ssize_t (allocated buf - int avail_out)) w = (Some result, w1)
   \<Longrightarrow> BlocksOutputBuffer_Finish (buf\<lparr>blocks := None\<rparr>) avail_out w = (Undefined, w1)"
  by (simp add: BlocksOutputBuffer_Finish_def)

lemma stored_decompress_copies:
  "0 \<notin> set xs \<Longrightarrow> n = length xs
   \<Longrightarrow> stored_decompress False (xs @ [0]) n
         = (BROTLI_DECODER_RESULT_SUCCESS, True, Suc (length xs), xs)"
  by (induction xs arbitrary: n) auto

lemma stored_decompress_full_block:
  "stored_decompress False (replicate 32768 1 @ [0]) 32768
     = (BROTLI_DECODER_RESULT_SUCCESS, True, 32769, replicate 32768 1)"
  using stored_decompress_copies [of "replicate 32768 1" 32768] by simp

text \<open>
  C9. In the program \<^verbatim>\<open>BlocksOutputBuffer_Grow\<close> is only ever called inside the loops
  of the drivers, between \<^verbatim>\<open>Py_BEGIN_ALLOW_THREADS\<close> and
  \<^verbatim>\<open>Py_END_ALLOW_THREADS\<close>. There its failing allocation does not end in an
  allocation error: the exception is raised without a thread state. With the storing
  decoder and a stream of 32768 bytes and the closing zero byte, the first step fills the
  first block exactly and reports success; the driver asks for a second block, and when that
  cannot be allocated neither \<^verbatim>\<open>decompress\<close> nor the method \<^verbatim>\<open>process\<close> of a
  decompressor returns an error: both runs have no defined behaviour.

  \<^verbatim>\<open>decompress\<close> has a second defect on this path. Where \<^verbatim>\<open>decompress_stream\<close>
  sets the status to ERROR after a failed \<^verbatim>\<open>Grow\<close>, \<^verbatim>\<open>decompress\<close> only leaves
  the loop; in the run above it would find the status SUCCESS and no input left, and call
  \<^verbatim>\<open>BlocksOutputBuffer_Finish\<close> on the released list.
\<close>

theorem failed_grow_in_decompression_is_undefined:
  "brotli_decompress (Suc 0) stored_decoder [PyBytes (replicate 32768 1 @ [0])]
       world_second_block_fails
     = Some (Undefined,
         \<lparr>heap = [], err = Some (MemoryError, ''Unable to allocate output buffer.''),
          calls = [Call_InitAndGrow 0, Call_DecoderCreateInstance True,
            Call_DecoderDecompressStream BROTLI_DECODER_RESULT_SUCCESS 0 0,
            Call_Grow (-1) 0]\<rparr>)
   \<and> brotli_Decompressor_process (Suc 0) stored_decoder (Some False)
       [PyBytes (replicate 32768 1 @ [0])] world_one_block
     = Some (Undefined,
         \<lparr>heap = [], err = Some (MemoryError, ''Unable to allocate output buffer.''),
          calls = [Call_InitAndGrow 0,
            Call_DecoderDecompressStream BROTLI_DECODER_RESULT_SUCCESS 0 0,
            Call_Grow (-1) 0]\<rparr>)"
proof -
  have "brotli_decompress (Suc 0) stored_decoder [PyBytes (replicate 32768 1 @ [0])]
       world_second_block_fails
     = Some (Undefined,
         \<lparr>heap = [], err = Some (MemoryError, ''Unable to allocate output buffer.''),
          calls = [Call_InitAndGrow 0, Call_DecoderCreateInstance True,
            Call_DecoderDecompressStream BROTLI_DECODER_RESULT_SUCCESS 0 0,
            Call_Grow (-1) 0]\<rparr>)"
    by (simp add: brotli_decompress_def world_second_block_fails_def
        BlocksOutputBuffer_InitAndGrow_def BlocksOutputBuffer_Grow_def
        PyBytes_FromStringAndSize_def PyList_New_def PyErr_NoMemory_def PyErr_SetString_def
        BUFFER_BLOCK_SIZE_def KB_def local_buffer_def next_alloc_def
        BrotliDecoderCreateInstance_def BrotliDecoderDecompressStream_def
        stored_decoder_def stored_decompress_full_block
        write_out_def grow_if_full_def Grow_allow_threads_def called_def Let_def)
  moreover have "decompress_stream (Suc 0) stored_decoder (Some False)
       (replicate 32768 1 @ [0]) world_one_block
     = Some (Undefined,
         \<lparr>heap = [], err = Some (MemoryError, ''Unable to allocate output buffer.''),
          calls = [Call_InitAndGrow 0,
            Call_DecoderDecompressStream BROTLI_DECODER_RESULT_SUCCESS 0 0,
            Call_Grow (-1) 0]\<rparr>)"
    by (simp add: decompress_stream_def world_one_block_def
        BlocksOutputBuffer_InitAndGrow_def BlocksOutputBuffer_Grow_def
        PyBytes_FromStringAndSize_def PyList_New_def PyErr_NoMemory_def PyErr_SetString_def
        BUFFER_BLOCK_SIZE_def KB_def local_buffer_def next_alloc_def
        BrotliDecoderDecompressStream_def stored_decoder_def stored_decompress_full_block
        write_out_def grow_if_full_def Grow_allow_threads_def called_def Let_def)
  ultimately show ?thesis by (simp add: brotli_Decompressor_process_def)
qed
subsection \<open>The drivers on an engine that keeps its contract\<close>












subsection \<open>C8: decompressing what one-shot compression produced\<close>










text \<open>
  Two of these runs, computed. The storing encoder is one of the engines with a
  single finalisation: in the state it is left in, a step that offers more input is
  rejected.
\<close>

lemma one_shot_round_trip_example:
  "compress_one_shot (Suc 0) stored_encoder [5, 6] world0
     = Some (Ret (Some [5, 6, 0]),
         world0\<lparr>calls := [Call_EncoderCreateInstance True, Call_InitAndGrow 0,
            Call_EncoderCompressStream BROTLI_OPERATION_FINISH True 0 32765,
            Call_EncoderHasMoreOutput False, Call_Finish 32765 True,
            Call_EncoderDestroyInstance]\<rparr>)"
  "brotli_decompress (Suc 0) stored_decoder [PyBytes [5, 6, 0]] world0
     = Some (Ret (Some [5, 6]),
         world0\<lparr>calls := [Call_InitAndGrow 0, Call_DecoderCreateInstance True,
            Call_DecoderDecompressStream BROTLI_DECODER_RESULT_SUCCESS 0 32766,
            Call_DecoderDestroyInstance, Call_Finish 32766 True]\<rparr>)"
  "enc_compress_stream stored_encoder ([], True) BROTLI_OPERATION_FINISH [7] 32768
     = (False, ([], True), 0, [])"
  "stored_owed ([], True) [7] = None"
  by (simp_all add: compress_one_shot_def compress_stream_def brotli_decompress_def run_simps
      BrotliEncoderCreateInstance_def BrotliEncoderDestroyInstance_def stored_owed_def
      called_def)

end
